theory Spec2Isabelle
  imports Complex_Main "HOL-Library.Sublist" "HOL-Library.AList"
begin

section \<open>Animation Frame Exporter: a model of \<open>src/__init__.py\<close>\<close>

text \<open>
  The add-on bakes the bone matrices of an armature, frame by frame, into one flat buffer
  and describes the clips in that buffer.  The two entry points are
  \<open>export_multiple_animations\<close> and \<open>export_animation_frames_raw\<close>.  Both drive the host
  (the current frame, the armature's active action, the pose clipboard) and read back the
  evaluated bone matrices; the host is modelled as an explicit state record, and what the
  host computes (matrix products, evaluated poses, rounding to 32 bits) is a parameter.
\<close>

subsection \<open>Errors\<close>

text \<open>
  The source raises plain \<open>Exception\<close>s told apart by their message; the constructors
  carry the names the specification gives them.  \<open>ValueError\<close> is \<open>range\<close> with step 0,
  \<open>IndexError\<close> is \<open>frames_to_export[-1]\<close> on an empty list, \<open>AttributeError\<close> an
  attribute read from \<open>None\<close>.
\<close>

datatype error =
    MissingArmatureError
  | NoClipsSelectedError
  | InvalidRangeError string
  | UnsavedDocumentError
  | AmbiguousNameError
  | NoAnimationError
  | ValueError
  | IndexError
  | AttributeError

datatype status = FINISHED | CANCELLED error

subsection \<open>Frame sampling\<close>

text \<open>Python's \<open>range(start, stop, step)\<close> for a step other than 0, as a list.\<close>

function py_range :: "int \<Rightarrow> int \<Rightarrow> int \<Rightarrow> int list" where
  "py_range start stop step =
     (if 0 < step then (if start < stop then start # py_range (start + step) stop step else [])
      else if step < 0 then (if stop < start then start # py_range (start + step) stop step else [])
      else [])"
  by pat_completeness auto
termination
  by (relation "measure (\<lambda>(start, stop, step). nat (if 0 < step then stop - start else start - stop))") auto

declare py_range.simps [simp del]

text \<open>
  Lines 258-265 of \<open>export_multiple_animations\<close> and 560-565 of
  \<open>export_animation_frames_raw\<close>: the frames sampled for a clip.
\<close>

definition frames_to_export :: "bool \<Rightarrow> int \<Rightarrow> int \<Rightarrow> int \<Rightarrow> error + int list" where
  "frames_to_export export_all_frames start_frame end_frame frame_step =
     (if export_all_frames then Inr (py_range start_frame (end_frame + 1) 1)
      else if frame_step = 0 then Inl ValueError
      else (let frames = py_range start_frame (end_frame + 1) frame_step in
            if frames = [] then Inl IndexError
            else if last frames \<noteq> end_frame then Inr (frames @ [end_frame])
            else Inr frames))"

text \<open>The stepped values \<open>start, start + step, ...\<close> that do not exceed \<open>end\<close>.\<close>

definition stepped :: "int \<Rightarrow> int \<Rightarrow> int \<Rightarrow> int list" where
  "stepped start_frame end_frame frame_step =
     map (\<lambda>k. start_frame + int k * frame_step)
       [0..<Suc (nat ((end_frame - start_frame) div frame_step))]"

subsection \<open>The host\<close>

text \<open>
  An action (\<open>bpy.types.Action\<close>) is a reference: \<open>action_id\<close> stands for the pointer,
  the other fields for what the export reads from it.  The end points of \<open>frame_range\<close> are
  finite floats, modelled as rationals; \<open>py_int\<close> is Python's \<open>int()\<close> on them, which
  truncates towards zero.
\<close>

record action =
  action_id :: nat
  action_name :: string
  frame_range :: "rat \<times> rat"

definition py_int :: "rat \<Rightarrow> int" where
  "py_int q = (if 0 \<le> q then \<lfloor>q\<rfloor> else \<lceil>q\<rceil>)"

text \<open>\<open>AnimationListItem\<close>, an entry of \<open>scene.animation_list\<close>.\<close>

record animation_list_item =
  item_name :: string
  item_action :: "action option"
  item_include :: bool
  item_frame_step :: int
  item_use_full_range :: bool
  item_custom_start :: int
  item_custom_end :: int

datatype object_type = ARMATURE | OTHER_OBJECT
datatype object_mode = OBJECT | POSE
datatype interpolation = BEZIER | LINEAR
datatype export_method = BIN | PROPERTY

text \<open>
  A pose is named by where it was evaluated: the active action (its id) and the frame.
  What the bones' matrices are in a given host state is the pose source's business.
\<close>

datatype pose_ref = PoseAt "nat option" int

record keyframe =
  kf_bone :: string
  kf_data_path :: string
  kf_frame :: int
  kf_pose :: pose_ref
  kf_interpolation :: interpolation

text \<open>The entries of \<open>animation_helpers\<close>: a clip's name and its inclusive index range.\<close>

record clip_record =
  helper_name :: string
  start_idx :: int
  end_idx :: int

text \<open>
  The structured content of the JavaScript helper files (the text around it is fixed):
  the \<open>setAnimationFrames\<close> calls for the rest pose and the main clips, those for the
  transitions, the \<open>setAnimationTransitions\<close> calls, and the fields of the descriptor object.
\<close>

record multi_descriptor =
  main_calls :: "clip_record list"
  transition_calls :: "clip_record list"
  adjacency_calls :: "(string \<times> (string \<times> string) list) list"
  numBones :: nat
  totalFrames :: int
  animationCount :: nat
  frameCounts :: "int list"
  frameSteps :: "int list"
  animationRanges :: "(int \<times> int) list"
  animationNames :: "string list"
  boneNames :: "string list"

record single_descriptor =
  s_name :: string
  s_numBones :: nat
  s_numFrames :: int
  s_startFrame :: int
  s_endFrame :: int
  s_frameStep :: int
  s_exportAllFrames :: bool
  s_boneNames :: "string list"
  s_setup_call :: "int \<times> int"

text \<open>
  Files live in \<open>animation_export\<close> beside the blend file.  A base file name is
  \<open>{unit_name}_animations\<close> or \<open>{animation_name}_f{start}_{end}_n{frames}[_s{step}]\<close>.
\<close>

datatype base_filename = MultiBase string | SingleBase string int int int "int option"
datatype path = RawPath base_filename | JsPath base_filename
datatype 'f file_content = Binary "'f list" | MultiJs multi_descriptor | SingleJs single_descriptor
datatype 'f id_prop = FloatList "'f list" | IntProp int | IntListStr "int list"

record 'f host =
  active_object :: "object_type option"
  pose_bones :: "string list"
  animation_data :: "action option option"
  frame_current :: int
  frame_start :: int
  frame_end :: int
  current_mode :: object_mode
  data_actions :: "action list"
  fcurves :: "nat \<Rightarrow> keyframe list"
  current_pose :: pose_ref
  pose_buffer :: "pose_ref option"
  filepath :: string
  files :: "path \<rightharpoonup> 'f file_content"
  id_props :: "string \<rightharpoonup> 'f id_prop"
  animation_list :: "animation_list_item list"
  multi_export_all_frames :: bool

text \<open>\<open>arm.animation_data.action if arm.animation_data else None\<close>\<close>

definition active_action :: "'f host \<Rightarrow> action option" where
  "active_action h = (case animation_data h of None \<Rightarrow> None | Some a \<Rightarrow> a)"

text \<open>\<open>scene.frame_set(frame)\<close>: the pose is re-evaluated from the active action.\<close>

definition frame_set :: "'f host \<Rightarrow> int \<Rightarrow> 'f host" where
  "frame_set h frame =
     h\<lparr>frame_current := frame,
       current_pose := PoseAt (map_option action_id (active_action h)) frame\<rparr>"

definition animation_data_create :: "'f host \<Rightarrow> 'f host" where
  "animation_data_create h = h\<lparr>animation_data := Some None\<rparr>"

text \<open>\<open>arm.animation_data.action = a\<close>; every call site has made sure of \<open>animation_data\<close>.\<close>

definition set_action :: "'f host \<Rightarrow> action option \<Rightarrow> 'f host" where
  "set_action h a = h\<lparr>animation_data := Some a\<rparr>"

definition ensure_animation_data :: "'f host \<Rightarrow> 'f host" where
  "ensure_animation_data h = (if animation_data h = None then animation_data_create h else h)"

text \<open>\<open>bpy.data.actions.new(name=...)\<close>: a fresh, empty action.\<close>

definition actions_new :: "'f host \<Rightarrow> string \<Rightarrow> 'f host \<times> action" where
  "actions_new h nm =
     (let a = \<lparr>action_id = Suc (fold max (map action_id (data_actions h)) 0),
                action_name = nm, frame_range = (0, 0)\<rparr>
      in (h\<lparr>data_actions := data_actions h @ [a]\<rparr>, a))"

definition mode_set :: "'f host \<Rightarrow> object_mode \<Rightarrow> 'f host" where
  "mode_set h m = h\<lparr>current_mode := m\<rparr>"

text \<open>\<open>bpy.ops.pose.select_all(action='SELECT')\<close>, \<open>bpy.ops.pose.copy()\<close>\<close>

definition pose_copy :: "'f host \<Rightarrow> 'f host" where
  "pose_copy h = h\<lparr>pose_buffer := Some (current_pose h)\<rparr>"

text \<open>\<open>bpy.ops.pose.paste(flipped=False)\<close>\<close>

definition pose_paste :: "'f host \<Rightarrow> 'f host" where
  "pose_paste h = (case pose_buffer h of None \<Rightarrow> h | Some p \<Rightarrow> h\<lparr>current_pose := p\<rparr>)"

text \<open>\<open>bone.keyframe_insert(data_path=..., frame=...)\<close> on the active action.\<close>

definition keyframe_insert :: "string \<Rightarrow> string \<Rightarrow> int \<Rightarrow> 'f host \<Rightarrow> 'f host" where
  "keyframe_insert bone data_path frame h =
     (case active_action h of
        None \<Rightarrow> h
      | Some a \<Rightarrow>
          h\<lparr>fcurves := (fcurves h)(action_id a := fcurves h (action_id a) @
               [\<lparr>kf_bone = bone, kf_data_path = data_path, kf_frame = frame,
                 kf_pose = current_pose h, kf_interpolation = BEZIER\<rparr>])\<rparr>)"

text \<open>Lines 330-333 and 346-349: three channels of every bone.\<close>

definition insert_pose_keys :: "int \<Rightarrow> 'f host \<Rightarrow> 'f host" where
  "insert_pose_keys frame h =
     fold (\<lambda>bone h. keyframe_insert bone ''scale'' frame
                      (keyframe_insert bone ''rotation_quaternion'' frame
                        (keyframe_insert bone ''location'' frame h)))
       (pose_bones h) h"

text \<open>Lines 352-354: every keyframe point of the action becomes linear.\<close>

definition set_linear :: "action \<Rightarrow> 'f host \<Rightarrow> 'f host" where
  "set_linear a h =
     h\<lparr>fcurves := (fcurves h)(action_id a :=
          map (\<lambda>kp. kp\<lparr>kf_interpolation := LINEAR\<rparr>) (fcurves h (action_id a)))\<rparr>"

subsection \<open>The pose source and the matrix packer\<close>

text \<open>
  A matrix is read by \<open>mat[row][col]\<close>.  The product \<open>@\<close>, the constant
  \<open>BLENDER_TO_THREE\<close>, the armature's world matrix, the bones' evaluated matrices and the
  conversion to \<open>numpy.float32\<close> are the host's: parameters of the model.
\<close>

type_synonym 'e matrix = "nat \<Rightarrow> nat \<Rightarrow> 'e"

record ('e, 'f) pose_source =
  matmul :: "'e matrix \<Rightarrow> 'e matrix \<Rightarrow> 'e matrix"
  BLENDER_TO_THREE :: "'e matrix"
  matrix_world :: "'f host \<Rightarrow> 'e matrix"
  bone_matrix :: "'f host \<Rightarrow> string \<Rightarrow> 'e matrix"
  float32 :: "'e \<Rightarrow> 'f"

text \<open>\<open>mat = BLENDER_TO_THREE @ arm.matrix_world @ bone.matrix\<close>\<close>

definition bone_mat :: "('e, 'f) pose_source \<Rightarrow> 'f host \<Rightarrow> string \<Rightarrow> 'e matrix" where
  "bone_mat ps h bone =
     matmul ps (matmul ps (BLENDER_TO_THREE ps) (matrix_world ps h)) (bone_matrix ps h bone)"

text \<open>Lines 218-226: \<open>collect_matrices_at_frame\<close>, which appends.\<close>

definition collect_matrices_at_frame ::
  "('e, 'f) pose_source \<Rightarrow> 'f host \<Rightarrow> int \<Rightarrow> 'f host \<times> 'f list" where
  "collect_matrices_at_frame ps h frame =
     (let h' = frame_set h frame;
          mats = fold (\<lambda>bone. fold (\<lambda>col. fold (\<lambda>row mats. mats @ [bone_mat ps h' bone row col])
                         [0..<4]) [0..<4]) (pose_bones h') []
      in (h', map (float32 ps) mats))"

text \<open>
  Lines 286-291, 367-372 and 574-579: the bones of one frame written into the buffer from
  \<open>idx\<close> on.  An index outside a numpy array raises; the writes below stay inside it
  (\<open>bake_frames_packed\<close>), so the list update is the assignment.
\<close>

definition write_matrix :: "('e \<Rightarrow> 'f) \<Rightarrow> 'e matrix \<Rightarrow> 'f list \<times> nat \<Rightarrow> 'f list \<times> nat" where
  "write_matrix f32 mat =
     fold (\<lambda>col. fold (\<lambda>row (buf, idx). (buf[idx := f32 (mat row col)], idx + 1)) [0..<4]) [0..<4]"

definition write_bones :: "('e, 'f) pose_source \<Rightarrow> 'f host \<Rightarrow> 'f list \<times> nat \<Rightarrow> 'f list \<times> nat" where
  "write_bones ps h = fold (\<lambda>bone. write_matrix (float32 ps) (bone_mat ps h bone)) (pose_bones h)"

text \<open>
  Lines 281-292, 361-372 and 568-579: the buffer of a clip, \<open>np.zeros\<close> filled frame by
  frame at \<open>f_idx * num_bones * 16\<close>.
\<close>

definition bake_frames ::
  "('e, 'f::zero) pose_source \<Rightarrow> nat \<Rightarrow> int list \<Rightarrow> 'f host \<Rightarrow> 'f host \<times> 'f list" where
  "bake_frames ps num_bones frames h =
     fold (\<lambda>(f_idx, f_num) (h, buf).
             (let h' = frame_set h f_num;
                  offset = f_idx * num_bones * 16
              in (h', fst (write_bones ps h' (buf, offset)))))
       (enumerate 0 frames)
       (h, replicate (length frames * num_bones * 16) 0)"

text \<open>What the packer is to write for a matrix, a frame and a sequence of frames.\<close>

definition matrix_elems :: "('e \<Rightarrow> 'f) \<Rightarrow> 'e matrix \<Rightarrow> 'f list" where
  "matrix_elems f32 M =
     map f32 [M 0 0, M 1 0, M 2 0, M 3 0,  M 0 1, M 1 1, M 2 1, M 3 1,
              M 0 2, M 1 2, M 2 2, M 3 2,  M 0 3, M 1 3, M 2 3, M 3 3]"

definition frame_block :: "('e, 'f) pose_source \<Rightarrow> 'f host \<Rightarrow> 'f list" where
  "frame_block ps h =
     concat (map (\<lambda>bone. matrix_elems (float32 ps) (bone_mat ps h bone)) (pose_bones h))"

fun packed_frames :: "('e, 'f) pose_source \<Rightarrow> 'f host \<Rightarrow> int list \<Rightarrow> 'f list" where
  "packed_frames ps h [] = []"
| "packed_frames ps h (f # fs) = frame_block ps (frame_set h f) @ packed_frames ps (frame_set h f) fs"

fun frames_set :: "'f host \<Rightarrow> int list \<Rightarrow> 'f host" where
  "frames_set h [] = h"
| "frames_set h (f # fs) = frames_set (frame_set h f) fs"

subsection \<open>Strings\<close>

text \<open>
  \<open>s.replace(old, new)\<close> and \<open>s.split(sep)\<close>: occurrences are found from the left and do
  not overlap.  \<open>split\<close> is only called with the separator \<open>"_To_"\<close>; Python refuses
  an empty one.
\<close>

function replace_from :: "string \<Rightarrow> string \<Rightarrow> string \<Rightarrow> string" where
  "replace_from [] old new = []"
| "replace_from (c # cs) old new =
     (if old \<noteq> [] \<and> prefix old (c # cs)
      then new @ replace_from (drop (length old) (c # cs)) old new
      else c # replace_from cs old new)"
  by pat_completeness auto
termination
  by (relation "measure (\<lambda>(s, old, new). length s)") auto

definition py_replace :: "string \<Rightarrow> string \<Rightarrow> string \<Rightarrow> string" where
  "py_replace s old new =
     (if old = [] then new @ concat (map (\<lambda>c. c # new) s) else replace_from s old new)"

function split_from :: "string \<Rightarrow> string \<Rightarrow> string \<Rightarrow> string list" where
  "split_from sep cur [] = [cur]"
| "split_from sep cur (c # cs) =
     (if sep \<noteq> [] \<and> prefix sep (c # cs)
      then cur # split_from sep [] (drop (length sep) (c # cs))
      else split_from sep (cur @ [c]) cs)"
  by pat_completeness auto
termination
  by (relation "measure (\<lambda>(sep, cur, s). length s)") auto

definition py_split :: "string \<Rightarrow> string \<Rightarrow> string list" where
  "py_split s sep = split_from sep [] s"

subsection \<open>Multi-export: assembling the clips\<close>

text \<open>The lists and the counter that \<open>export_multiple_animations\<close> builds up.\<close>

record 'f assembly =
  all_matrix_data :: "'f list list"
  frame_counts :: "int list"
  frame_steps :: "int list"
  animation_ranges :: "(int \<times> int) list"
  total_frames :: int
  animation_helpers :: "clip_record list"

text \<open>
  Line 206.  An item is a \<open>bpy_struct\<close>, compared by the data it points to: two items of
  the collection are equal only when they are the same entry.  The position in
  \<open>scene.animation_list\<close> stands for that identity.
\<close>

definition animations_to_export :: "'f host \<Rightarrow> (nat \<times> animation_list_item) list" where
  "animations_to_export h =
     filter (\<lambda>(i, item). item_include item \<and> item_action item \<noteq> None)
       (enumerate 0 (animation_list h))"

text \<open>Lines 229-237: the rest pose.\<close>

definition rest_pose ::
  "('e, 'f) pose_source \<Rightarrow> string \<Rightarrow> 'f host \<Rightarrow> 'f host \<times> 'f assembly" where
  "rest_pose ps unit_name h =
     (let rest_frame = (if frame_start h \<le> 0 then 0 else 1);
          (h', mats) = collect_matrices_at_frame ps h rest_frame
      in (h', \<lparr>all_matrix_data = [mats], frame_counts = [1], frame_steps = [1],
               animation_ranges = [(rest_frame, rest_frame)], total_frames = 1,
               animation_helpers =
                 [\<lparr>helper_name = unit_name @ ''Rest'', start_idx = 0, end_idx = 0\<rparr>]\<rparr>))"

text \<open>Lines 248-253: the range of a clip; lines 300-304: \<open>last_frame\<close> and \<open>first_frame\<close>.\<close>

definition clip_range :: "animation_list_item \<Rightarrow> action \<Rightarrow> int \<times> int" where
  "clip_range item act =
     (if item_use_full_range item
      then (py_int (fst (frame_range act)), py_int (snd (frame_range act)))
      else (item_custom_start item,
            if item_custom_end item \<noteq> 0 then item_custom_end item
            else py_int (snd (frame_range act))))"

definition last_frame :: "animation_list_item \<Rightarrow> action \<Rightarrow> int" where
  "last_frame item act =
     (if item_use_full_range item then py_int (snd (frame_range act))
      else (if item_custom_end item \<noteq> 0 then item_custom_end item
            else py_int (snd (frame_range act))))"

definition first_frame :: "animation_list_item \<Rightarrow> action \<Rightarrow> int" where
  "first_frame item act =
     (if item_use_full_range item then py_int (fst (frame_range act))
      else item_custom_start item)"

text \<open>Lines 243-292: one round of the loop over the main clips.\<close>

definition export_clip ::
  "('e, 'f::zero) pose_source \<Rightarrow> bool \<Rightarrow> nat \<Rightarrow> animation_list_item \<Rightarrow>
   'f host \<times> 'f assembly \<Rightarrow> 'f host \<times> (error + 'f assembly)" where
  "export_clip ps export_all_frames num_bones item hs =
     (let (h, st) = hs;
          h1 = set_action (ensure_animation_data h) (item_action item)
      in case item_action item of
           None \<Rightarrow> (h1, Inl AttributeError)
         | Some act \<Rightarrow>
            (let (start_frame, end_frame) = clip_range item act
             in if start_frame > end_frame
                then (h1, Inl (InvalidRangeError (action_name act)))
                else case frames_to_export export_all_frames start_frame end_frame
                            (item_frame_step item) of
                       Inl e \<Rightarrow> (h1, Inl e)
                     | Inr frames \<Rightarrow>
                        (let frame_step = (if export_all_frames then 1 else item_frame_step item);
                             num_frames = int (length frames);
                             (h2, anim_matrices) = bake_frames ps num_bones frames h1
                         in (h2, Inr (st\<lparr>
                               frame_counts := frame_counts st @ [num_frames],
                               frame_steps := frame_steps st @ [frame_step],
                               animation_ranges := animation_ranges st @ [(start_frame, end_frame)],
                               animation_helpers := animation_helpers st @
                                 [\<lparr>helper_name = action_name act,
                                   start_idx = total_frames st,
                                   end_idx = total_frames st + num_frames - 1\<rparr>],
                               total_frames := total_frames st + num_frames,
                               all_matrix_data := all_matrix_data st @ [anim_matrices]\<rparr>)))))"

fun export_clips ::
  "('e, 'f::zero) pose_source \<Rightarrow> bool \<Rightarrow> nat \<Rightarrow> animation_list_item list \<Rightarrow>
   'f host \<times> 'f assembly \<Rightarrow> 'f host \<times> (error + 'f assembly)" where
  "export_clips ps export_all_frames num_bones [] hs = (fst hs, Inr (snd hs))"
| "export_clips ps export_all_frames num_bones (item # items) hs =
     (case export_clip ps export_all_frames num_bones item hs of
        (h', Inl e) \<Rightarrow> (h', Inl e)
      | (h', Inr st') \<Rightarrow> export_clips ps export_all_frames num_bones items (h', st'))"

subsection \<open>Multi-export: the transitions\<close>

text \<open>Lines 297-298.\<close>

definition transitions_of :: "'a list \<Rightarrow> ('a \<times> 'a) list" where
  "transitions_of clips =
     concat (map (\<lambda>src. map (\<lambda>dst. (src, dst)) (filter (\<lambda>dst. src \<noteq> dst) clips)) clips)"

definition transition_frames :: int where
  "transition_frames = 10"

text \<open>
  Lines 313-354: the transition action is created, keyed at frame 1 with the pose copied
  from the source at its last frame and at frame 10 with the pose copied from the
  destination at its first frame, and made linear.
\<close>

definition fabricate_transition ::
  "string \<Rightarrow> action \<Rightarrow> int \<Rightarrow> action \<Rightarrow> int \<Rightarrow> 'f host \<Rightarrow> 'f host \<times> action" where
  "fabricate_transition tr_name src_action src_last dst_action dst_first h =
     (let (h, tr_action) = actions_new h tr_name;
          h = ensure_animation_data h;
          h = set_action h (Some src_action);
          h = frame_set h src_last;
          h = mode_set h POSE;
          h = pose_copy h;
          h = set_action h (Some tr_action);
          h = frame_set h 1;
          h = pose_paste h;
          h = insert_pose_keys 1 h;
          h = set_action h (Some dst_action);
          h = frame_set h dst_first;
          h = pose_copy h;
          h = set_action h (Some tr_action);
          h = frame_set h 10;
          h = pose_paste h;
          h = insert_pose_keys 10 h;
          h = set_linear tr_action h
      in (h, tr_action))"

text \<open>Lines 309-386: one round of the loop over the transitions.\<close>

definition synth_transition ::
  "('e, 'f::zero) pose_source \<Rightarrow> nat \<Rightarrow> animation_list_item \<times> animation_list_item \<Rightarrow>
   'f host \<times> 'f assembly \<Rightarrow> 'f host \<times> (error + 'f assembly)" where
  "synth_transition ps num_bones pair hs =
     (let (h, st) = hs; (src_item, dst_item) = pair
      in case item_action src_item of
           None \<Rightarrow> (h, Inl AttributeError)
         | Some src_action \<Rightarrow>
        (case item_action dst_item of
           None \<Rightarrow> (h, Inl AttributeError)
         | Some dst_action \<Rightarrow>
            (let src_last = last_frame src_item src_action;
                 dst_first = first_frame dst_item dst_action;
                 tr_name = action_name src_action @ ''_To_'' @ action_name dst_action;
                 (h1, tr_action) = fabricate_transition tr_name src_action src_last
                                     dst_action dst_first h;
                 step = (if multi_export_all_frames h1 then 1 else 1);
                 frames = py_range 1 (transition_frames + 1) step
             in if frames = [] then (h1, Inl IndexError)
                else
                 (let frames = (if last frames \<noteq> transition_frames
                                then frames @ [transition_frames] else frames);
                      h2 = set_action h1 (Some tr_action);
                      (h3, tr_matrices) = bake_frames ps num_bones frames h2
                  in (h3, Inr (st\<lparr>
                        all_matrix_data := all_matrix_data st @ [tr_matrices],
                        animation_helpers := animation_helpers st @
                          [\<lparr>helper_name = tr_name,
                            start_idx = total_frames st,
                            end_idx = total_frames st + 9\<rparr>],
                        total_frames := total_frames st + int (length frames),
                        frame_counts := frame_counts st @ [int (length frames)],
                        frame_steps := frame_steps st @
                          [if multi_export_all_frames h3 then 1 else 1],
                        animation_ranges := animation_ranges st @ [(1, transition_frames)]\<rparr>))))))"

fun synth_transitions ::
  "('e, 'f::zero) pose_source \<Rightarrow> nat \<Rightarrow> (animation_list_item \<times> animation_list_item) list \<Rightarrow>
   'f host \<times> 'f assembly \<Rightarrow> 'f host \<times> (error + 'f assembly)" where
  "synth_transitions ps num_bones [] hs = (fst hs, Inr (snd hs))"
| "synth_transitions ps num_bones (pair # pairs) hs =
     (case synth_transition ps num_bones pair hs of
        (h', Inl e) \<Rightarrow> (h', Inl e)
      | (h', Inr st') \<Rightarrow> synth_transitions ps num_bones pairs (h', st'))"

text \<open>Lines 389-390 and 504-505.\<close>

definition restore_action :: "action option \<Rightarrow> 'f host \<Rightarrow> 'f host" where
  "restore_action original_action h =
     (if animation_data h \<noteq> None \<and> original_action \<noteq> None
      then set_action h original_action else h)"

subsection \<open>Multi-export: the descriptor\<close>

text \<open>
  Lines 442-449: the adjacency map \<open>src -> {dst: transition_name}\<close>, a dictionary of
  dictionaries in insertion order.
\<close>

type_synonym trans_map = "(string \<times> (string \<times> string) list) list"

definition trans_map_add :: "string \<Rightarrow> clip_record \<Rightarrow> trans_map \<Rightarrow> trans_map" where
  "trans_map_add unit_name tr m =
     (case py_split (py_replace (helper_name tr) (unit_name @ ''_'') []) ''_To_'' of
        [src, dst] \<Rightarrow>
          AList.update src
            (AList.update dst (helper_name tr)
               (case map_of m src of None \<Rightarrow> [] | Some d \<Rightarrow> d)) m
      | _ \<Rightarrow> m)"

definition build_trans_map :: "string \<Rightarrow> clip_record list \<Rightarrow> trans_map" where
  "build_trans_map unit_name transitions = fold (trans_map_add unit_name) transitions []"

text \<open>Lines 418-419, 440-441 and 453-459.\<close>

definition is_transition_name :: "string \<Rightarrow> bool" where
  "is_transition_name nm = sublist ''_To_'' nm"

definition descriptor ::
  "string \<Rightarrow> nat \<Rightarrow> string list \<Rightarrow> 'f assembly \<Rightarrow> multi_descriptor" where
  "descriptor unit_name num_bones bones st =
     (let rest_and_main = filter (\<lambda>a. \<not> is_transition_name (helper_name a)) (animation_helpers st);
          transitions = filter (\<lambda>a. is_transition_name (helper_name a)) (animation_helpers st);
          main_anims = filter (\<lambda>nm. nm \<noteq> unit_name @ ''Rest'') (map helper_name rest_and_main);
          trans_map = build_trans_map unit_name transitions
      in \<lparr>main_calls = rest_and_main,
          transition_calls = transitions,
          adjacency_calls =
            concat (map (\<lambda>src. case map_of trans_map src of
                                  None \<Rightarrow> [] | Some d \<Rightarrow> [(src, d)]) main_anims),
          numBones = num_bones,
          totalFrames = total_frames st,
          animationCount = length (animation_helpers st),
          frameCounts = frame_counts st,
          frameSteps = frame_steps st,
          animationRanges = animation_ranges st,
          animationNames = map helper_name (animation_helpers st),
          boneNames = bones\<rparr>)"

text \<open>
  Lines 395-500: the payload and the descriptor go to two files or onto the armature.
  The host is taken to accept every write.  In the source the two files are written one
  after the other, and the five assignments of lines 493-497 are separate statements of
  the \<open>try\<close>: a host that refused one of them (a file it cannot open, a property key it
  finds too long) would raise there, with the earlier writes done.  Such refusals are no
  part of this model, which says nothing about an export that is cancelled while it writes.
\<close>

definition write_multi ::
  "string \<Rightarrow> export_method \<Rightarrow> string \<Rightarrow> nat \<Rightarrow> 'f assembly \<Rightarrow> 'f host \<Rightarrow>
   'f host \<times> (error + unit)" where
  "write_multi unit_name method property_name num_bones st h =
     (let combined_data = concat (all_matrix_data st)
      in case method of
           BIN \<Rightarrow>
             if filepath h = [] then (h, Inl UnsavedDocumentError)
             else
              (let h1 = h\<lparr>files := (files h)(RawPath (MultiBase unit_name) \<mapsto> Binary combined_data)\<rparr>;
                   h2 = h1\<lparr>files := (files h1)(JsPath (MultiBase unit_name) \<mapsto>
                           MultiJs (descriptor unit_name num_bones (pose_bones h1) st))\<rparr>
               in (h2, Inr ()))
         | PROPERTY \<Rightarrow>
             (h\<lparr>id_props := (id_props h)
                  (property_name \<mapsto> FloatList combined_data,
                   property_name @ ''_totalFrames'' \<mapsto> IntProp (total_frames st),
                   property_name @ ''_numBones'' \<mapsto> IntProp (int num_bones),
                   property_name @ ''_animationCount'' \<mapsto> IntProp (int (length (animation_helpers st))),
                   property_name @ ''_frameSteps'' \<mapsto> IntListStr (frame_steps st))\<rparr>,
              Inr ()))"

subsection \<open>Multi-export: the entry point\<close>

text \<open>
  Lines 199-386: the checks, the rest pose, the main clips and the transitions.  The result
  carries \<open>original_action\<close> as line 306 reads it, after the main clips.
\<close>

definition assemble ::
  "('e, 'f::zero) pose_source \<Rightarrow> string \<Rightarrow> bool \<Rightarrow> 'f host \<Rightarrow>
   'f host \<times> (error + action option \<times> 'f assembly)" where
  "assemble ps unit_name export_all_frames h =
     (if active_object h \<noteq> Some ARMATURE then (h, Inl MissingArmatureError)
      else if animations_to_export h = [] then (h, Inl NoClipsSelectedError)
      else
       (let num_bones = length (pose_bones h);
            (h1, st1) = rest_pose ps unit_name h
        in case export_clips ps export_all_frames num_bones
                  (map snd (animations_to_export h)) (h1, st1) of
             (h2, Inl e) \<Rightarrow> (h2, Inl e)
           | (h2, Inr st2) \<Rightarrow>
              (let original_action = active_action h2
               in case synth_transitions ps num_bones
                         (map (\<lambda>(src, dst). (snd src, snd dst))
                            (transitions_of (animations_to_export h))) (h2, st2) of
                    (h3, Inl e) \<Rightarrow> (h3, Inl e)
                  | (h3, Inr st3) \<Rightarrow> (h3, Inr (original_action, st3)))))"

text \<open>
  Lines 199-512, the body of the \<open>try\<close>: the host as it is left, and an error if one was
  raised.  After the assembly come the restoring of the action (389-390), the output
  (395-500) and the restoring of frame, action and mode (503-508).
\<close>

definition multi_body ::
  "('e, 'f::zero) pose_source \<Rightarrow> string \<Rightarrow> export_method \<Rightarrow> string \<Rightarrow> bool \<Rightarrow> 'f host \<Rightarrow>
   'f host \<times> (error + unit)" where
  "multi_body ps unit_name method property_name export_all_frames h =
     (let num_bones = length (pose_bones h);
          original_frame = frame_current h
      in case assemble ps unit_name export_all_frames h of
           (h3, Inl e) \<Rightarrow> (h3, Inl e)
         | (h3, Inr (original_action, st3)) \<Rightarrow>
            (case write_multi unit_name method property_name num_bones st3
                    (restore_action original_action h3) of
               (h4, Inl e) \<Rightarrow> (h4, Inl e)
             | (h4, Inr u) \<Rightarrow>
                (mode_set (restore_action original_action (frame_set h4 original_frame))
                   OBJECT, Inr ())))"

text \<open>Lines 196-518: the \<open>except\<close> clause reports the error and returns \<open>CANCELLED\<close>.\<close>

definition export_multiple_animations ::
  "('e, 'f::zero) pose_source \<Rightarrow> string \<Rightarrow> export_method \<Rightarrow> string \<Rightarrow> bool \<Rightarrow> 'f host \<Rightarrow>
   status \<times> 'f host" where
  "export_multiple_animations ps unit_name method property_name export_all_frames h =
     (case multi_body ps unit_name method property_name export_all_frames h of
        (h', Inl e) \<Rightarrow> (CANCELLED e, h')
      | (h', Inr u) \<Rightarrow> (FINISHED, h'))"

subsection \<open>Single export\<close>

text \<open>
  Lines 528-631, the body of the \<open>try\<close> of \<open>export_animation_frames_raw\<close>.  As in the
  multi-export, the host is taken to accept the writes of lines 588-622, which the source
  makes one after the other.
\<close>

definition single_body ::
  "('e, 'f::zero) pose_source \<Rightarrow> string \<Rightarrow> bool \<Rightarrow> int option \<Rightarrow> int option \<Rightarrow> int \<Rightarrow> bool \<Rightarrow>
   bool \<Rightarrow> export_method \<Rightarrow> string \<Rightarrow> 'f host \<Rightarrow> 'f host \<times> (error + unit)" where
  "single_body ps animation_name use_custom_name start_opt end_opt frame_step export_all_frames
       use_full_animation_range method property_name h =
     (if active_object h \<noteq> Some ARMATURE then (h, Inl MissingArmatureError)
      else
       (let act_name = (case active_action h of None \<Rightarrow> [] | Some a \<Rightarrow> action_name a)
        in if (use_custom_name \<or> act_name = []) \<and> animation_name = []
           then (h, Inl AmbiguousNameError)
           else if use_full_animation_range \<and> active_action h = None
           then (h, Inl NoAnimationError)
           else
            (let animation_name =
                   (if \<not> use_custom_name \<and> act_name \<noteq> [] then act_name else animation_name);
                 start_frame =
                   (if use_full_animation_range then 1
                    else case start_opt of None \<Rightarrow> frame_start h | Some s \<Rightarrow> s);
                 end_frame =
                   (if use_full_animation_range
                    then (case active_action h of
                            None \<Rightarrow> 0 | Some a \<Rightarrow> py_int (snd (frame_range a)))
                    else case end_opt of None \<Rightarrow> frame_end h | Some e \<Rightarrow> e)
             in if start_frame > end_frame then (h, Inl (InvalidRangeError []))
                else
                 (let current_frame = frame_current h;
                      num_bones = length (pose_bones h)
                  in case frames_to_export export_all_frames start_frame end_frame frame_step of
                       Inl e \<Rightarrow> (h, Inl e)
                     | Inr frames \<Rightarrow>
                        (let num_frames = int (length frames);
                             (h1, all_data) = bake_frames ps num_bones frames h
                         in case method of
                              BIN \<Rightarrow>
                                if filepath h1 = [] then (h1, Inl UnsavedDocumentError)
                                else
                                 (let base = SingleBase animation_name start_frame end_frame num_frames
                                               (if export_all_frames then None else Some frame_step);
                                      h2 = h1\<lparr>files := (files h1)(RawPath base \<mapsto> Binary all_data)\<rparr>;
                                      h3 = h2\<lparr>files := (files h2)(JsPath base \<mapsto> SingleJs
                                             \<lparr>s_name = animation_name, s_numBones = num_bones,
                                              s_numFrames = num_frames, s_startFrame = start_frame,
                                              s_endFrame = end_frame, s_frameStep = frame_step,
                                              s_exportAllFrames = export_all_frames,
                                              s_boneNames = pose_bones h2,
                                              s_setup_call = (0, num_frames - 1)\<rparr>)\<rparr>
                                  in (mode_set (frame_set h3 current_frame) OBJECT, Inr ()))
                            | PROPERTY \<Rightarrow>
                                (let h2 = h1\<lparr>id_props := (id_props h1)
                                            (property_name \<mapsto> FloatList all_data,
                                             property_name @ ''_numFrames'' \<mapsto> IntProp num_frames,
                                             property_name @ ''_numBones'' \<mapsto> IntProp (int num_bones))\<rparr>
                                 in (mode_set (frame_set h2 current_frame) OBJECT, Inr ())))))))"

definition export_animation_frames_raw ::
  "('e, 'f::zero) pose_source \<Rightarrow> string \<Rightarrow> bool \<Rightarrow> int option \<Rightarrow> int option \<Rightarrow> int \<Rightarrow> bool \<Rightarrow>
   bool \<Rightarrow> export_method \<Rightarrow> string \<Rightarrow> 'f host \<Rightarrow> status \<times> 'f host" where
  "export_animation_frames_raw ps animation_name use_custom_name start_opt end_opt frame_step
       export_all_frames use_full_animation_range method property_name h =
     (case single_body ps animation_name use_custom_name start_opt end_opt frame_step
             export_all_frames use_full_animation_range method property_name h of
        (h', Inl e) \<Rightarrow> (CANCELLED e, h')
      | (h', Inr u) \<Rightarrow> (FINISHED, h'))"

subsection \<open>Notions used by the properties\<close>

text \<open>Consecutive assignments \<open>buf[idx] = v; idx += 1\<close> of a list of values.\<close>

definition write_list :: "'f list \<Rightarrow> 'f list \<times> nat \<Rightarrow> 'f list \<times> nat" where
  "write_list vs = fold (\<lambda>v (buf, idx). (buf[idx := v], idx + 1)) vs"


text \<open>The name of an included item's action, and the name given to a transition (line 311).\<close>

definition clip_name :: "animation_list_item \<Rightarrow> string" where
  "clip_name item = (case item_action item of None \<Rightarrow> [] | Some act \<Rightarrow> action_name act)"

definition transition_name :: "animation_list_item \<times> animation_list_item \<Rightarrow> string" where
  "transition_name pair = clip_name (fst pair) @ ''_To_'' @ clip_name (snd pair)"

text \<open>The frame index sequence of an included clip, as \<open>export_clip\<close> computes it.\<close>

definition clip_frames :: "bool \<Rightarrow> animation_list_item \<Rightarrow> int list" where
  "clip_frames export_all_frames item =
     (case item_action item of
        None \<Rightarrow> []
      | Some act \<Rightarrow>
         (case frames_to_export export_all_frames (fst (clip_range item act))
                 (snd (clip_range item act)) (item_frame_step item) of
            Inl e \<Rightarrow> [] | Inr frames \<Rightarrow> frames))"

text \<open>
  The records that the running total \<open>total_frames\<close> gives to a list of named clips with
  their frame counts, starting at \<open>t\<close> (lines 273-278 and 374-378).
\<close>

fun records :: "int \<Rightarrow> (string \<times> int) list \<Rightarrow> clip_record list" where
  "records t [] = []"
| "records t ((nm, c) # xs) =
     \<lparr>helper_name = nm, start_idx = t, end_idx = t + c - 1\<rparr> # records (t + c) xs"

text \<open>The names and frame counts of the main clips and of the transitions.\<close>

definition clip_entries :: "bool \<Rightarrow> animation_list_item list \<Rightarrow> (string \<times> int) list" where
  "clip_entries export_all_frames items =
     map (\<lambda>item. (clip_name item, int (length (clip_frames export_all_frames item)))) items"

definition transition_entries ::
  "(animation_list_item \<times> animation_list_item) list \<Rightarrow> (string \<times> int) list" where
  "transition_entries pairs = map (\<lambda>pair. (transition_name pair, 10)) pairs"

text \<open>The frame of the rest pose (line 229).\<close>

definition rest_frame :: "'f host \<Rightarrow> int" where
  "rest_frame h = (if frame_start h \<le> 0 then 0 else 1)"

text \<open>
  The included items (line 206) and the ordered pairs of distinct ones (lines 297-298),
  without their positions.
\<close>

definition included_items :: "'f host \<Rightarrow> animation_list_item list" where
  "included_items h = map snd (animations_to_export h)"

definition transition_pairs :: "'f host \<Rightarrow> (animation_list_item \<times> animation_list_item) list" where
  "transition_pairs h =
     map (\<lambda>(src, dst). (snd src, snd dst)) (transitions_of (animations_to_export h))"

text \<open>
  The clips of a multi-export in the order of their records: the rest pose, the main clips,
  the transitions, each with its frame count.
\<close>

definition layout :: "string \<Rightarrow> bool \<Rightarrow> 'f host \<Rightarrow> (string \<times> int) list" where
  "layout unit_name export_all_frames h =
     (unit_name @ ''Rest'', 1) # clip_entries export_all_frames (included_items h) @
     transition_entries (transition_pairs h)"

text \<open>What an export leaves untouched until it writes: the files, the custom properties, the path.\<close>

definition same_output :: "'f host \<Rightarrow> 'f host \<Rightarrow> bool" where
  "same_output h h' \<longleftrightarrow> files h' = files h \<and> id_props h' = id_props h \<and> filepath h' = filepath h"

text \<open>A clip whose start frame lies after its end frame (line 255).\<close>

definition invalid_range :: "animation_list_item \<Rightarrow> bool" where
  "invalid_range item =
     (case item_action item of
        None \<Rightarrow> False
      | Some act \<Rightarrow> fst (clip_range item act) > snd (clip_range item act))"

text \<open>The lists after the rest pose has been sampled (lines 229-237).\<close>

definition rest_assembly :: "('e, 'f) pose_source \<Rightarrow> string \<Rightarrow> 'f host \<Rightarrow> 'f assembly" where
  "rest_assembly ps unit_name h =
     \<lparr>all_matrix_data = [frame_block ps (frame_set h (rest_frame h))],
      frame_counts = [1], frame_steps = [1],
      animation_ranges = [(rest_frame h, rest_frame h)], total_frames = 1,
      animation_helpers =
        [\<lparr>helper_name = unit_name @ ''Rest'', start_idx = 0, end_idx = 0\<rparr>]\<rparr>"

text \<open>
  Lines 532-552 of the single export: whether a name and a range can be had, the name
  used, and the range \<open>(start_frame, end_frame)\<close> that is then checked and sampled.
\<close>

definition single_ready :: "string \<Rightarrow> bool \<Rightarrow> bool \<Rightarrow> 'f host \<Rightarrow> bool" where
  "single_ready animation_name use_custom_name use_full_animation_range h \<longleftrightarrow>
     active_object h = Some ARMATURE
     \<and> \<not> ((use_custom_name \<or> (case active_action h of None \<Rightarrow> [] | Some a \<Rightarrow> action_name a) = [])
            \<and> animation_name = [])
     \<and> \<not> (use_full_animation_range \<and> active_action h = None)"

definition single_name :: "string \<Rightarrow> bool \<Rightarrow> 'f host \<Rightarrow> string" where
  "single_name animation_name use_custom_name h =
     (let act_name = (case active_action h of None \<Rightarrow> [] | Some a \<Rightarrow> action_name a)
      in if \<not> use_custom_name \<and> act_name \<noteq> [] then act_name else animation_name)"

definition single_range :: "bool \<Rightarrow> int option \<Rightarrow> int option \<Rightarrow> 'f host \<Rightarrow> int \<times> int" where
  "single_range use_full_animation_range start_opt end_opt h =
     (if use_full_animation_range
      then (1, case active_action h of None \<Rightarrow> 0 | Some a \<Rightarrow> py_int (snd (frame_range a)))
      else (case start_opt of None \<Rightarrow> frame_start h | Some s \<Rightarrow> s,
            case end_opt of None \<Rightarrow> frame_end h | Some e \<Rightarrow> e))"

text \<open>
  The keyframes that lines 330-333 and 346-349 add to the active action: three channels
  for every bone, at frame \<open>f\<close>, holding the pose \<open>p\<close>.
\<close>

definition pose_keys :: "int \<Rightarrow> pose_ref \<Rightarrow> string list \<Rightarrow> keyframe list" where
  "pose_keys f p bones =
     concat (map (\<lambda>bone.
       [\<lparr>kf_bone = bone, kf_data_path = ''location'', kf_frame = f, kf_pose = p,
          kf_interpolation = BEZIER\<rparr>,
        \<lparr>kf_bone = bone, kf_data_path = ''rotation_quaternion'', kf_frame = f, kf_pose = p,
          kf_interpolation = BEZIER\<rparr>,
        \<lparr>kf_bone = bone, kf_data_path = ''scale'', kf_frame = f, kf_pose = p,
          kf_interpolation = BEZIER\<rparr>]) bones)"

text \<open>
  Line 445: the parts of a transition's name, after every occurrence of the unit name
  followed by an underscore has been deleted.
\<close>

definition name_parts :: "string \<Rightarrow> string \<Rightarrow> string list" where
  "name_parts unit_name nm = py_split (py_replace nm (unit_name @ ''_'') []) ''_To_''"

text \<open>\<open>trans_map[src][dst]\<close>, when both keys are present.\<close>

definition adjacency :: "trans_map \<Rightarrow> string \<Rightarrow> string \<Rightarrow> string option" where
  "adjacency m src dst = (case map_of m src of None \<Rightarrow> None | Some d \<Rightarrow> map_of d dst)"

subsection \<open>A small scene\<close>

text \<open>
  An armature with one bone and two actions, \<open>A\<close> over frames 1 to 5 and \<open>B\<close> over frames
  1 to 3, both in the list; \<open>B\<close> has a custom range that starts at 2 and ends with the
  sentinel 0.  The pose source makes every matrix entry tell its frame, bone, row and column.
\<close>

definition example_source :: "(int, int) pose_source" where
  "example_source =
     \<lparr>matmul = (\<lambda>a b r c. a r c + b r c),
      BLENDER_TO_THREE = (\<lambda>r c. 0),
      matrix_world = (\<lambda>h r c. 0),
      bone_matrix = (\<lambda>h bone r c.
         1000 * frame_current h + 100 * int (length bone) + 10 * int r + int c),
      float32 = (\<lambda>x. x)\<rparr>"

definition action_A :: action where
  "action_A = \<lparr>action_id = 0, action_name = ''A'', frame_range = (1, 5)\<rparr>"

definition action_B :: action where
  "action_B = \<lparr>action_id = 1, action_name = ''B'', frame_range = (1, 3)\<rparr>"

definition item_A :: animation_list_item where
  "item_A = \<lparr>item_name = ''A'', item_action = Some action_A, item_include = True,
             item_frame_step = 2, item_use_full_range = True,
             item_custom_start = 1, item_custom_end = 0\<rparr>"

definition item_B :: animation_list_item where
  "item_B = \<lparr>item_name = ''B'', item_action = Some action_B, item_include = True,
             item_frame_step = 1, item_use_full_range = False,
             item_custom_start = 2, item_custom_end = 0\<rparr>"

definition example_host :: "int host" where
  "example_host =
     \<lparr>active_object = Some ARMATURE, pose_bones = [''b''], animation_data = None,
      frame_current = 7, frame_start = 1, frame_end = 250, current_mode = OBJECT,
      data_actions = [action_A, action_B], fcurves = (\<lambda>i. []),
      current_pose = PoseAt None 7, pose_buffer = None, filepath = ''/x.blend'',
      files = Map.empty, id_props = Map.empty,
      animation_list = [item_A, item_B], multi_export_all_frames = False\<rparr>"

text \<open>
  The small scene with \<open>A\<close> as the armature's active action and, instead of \<open>B\<close>'s
  item, one whose custom range starts at frame 9 and ends, by the sentinel, at frame 3.
\<close>

definition item_bad :: animation_list_item where
  "item_bad = item_B\<lparr>item_custom_start := 9\<rparr>"

definition example_bad_host :: "int host" where
  "example_bad_host =
     example_host\<lparr>animation_data := Some (Some action_A), animation_list := [item_A, item_bad]\<rparr>"

text \<open>
  A scene whose first clip is named \<open>A_To\<close>: the name of the transition from it to \<open>B\<close>
  is \<open>A_To_To_B\<close>.
\<close>

definition action_A_To :: action where
  "action_A_To = \<lparr>action_id = 0, action_name = ''A_To'', frame_range = (1, 5)\<rparr>"

definition item_A_To :: animation_list_item where
  "item_A_To = \<lparr>item_name = ''A_To'', item_action = Some action_A_To, item_include = True,
                item_frame_step = 2, item_use_full_range = True,
                item_custom_start = 1, item_custom_end = 0\<rparr>"

definition example_split_host :: "int host" where
  "example_split_host =
     example_host\<lparr>data_actions := [action_A_To, action_B],
                  animation_list := [item_A_To, item_B]\<rparr>"

subsection \<open>Frame sampling: proofs\<close>

lemma py_range_pos:
  "0 < step \<Longrightarrow> py_range start stop step =
     map (\<lambda>k. start + int k * step) [0..<nat ((stop - start + step - 1) div step)]"
proof (induction "nat (stop - start)" arbitrary: start rule: less_induct)
  case less
  show ?case
  proof (cases "start < stop")
    case False
    with less.prems have "(stop - start + step - 1) div step \<le> 0"
      by (smt (verit) div_pos_neg_trivial pos_imp_zdiv_neg_iff zdiv_eq_0_iff)
    with False less.prems show ?thesis by (simp add: py_range.simps)
  next
    case True
    have ih: "py_range (start + step) stop step =
       map (\<lambda>k. (start + step) + int k * step) [0..<nat ((stop - (start + step) + step - 1) div step)]"
      using less.hyps[of "start + step"] less.prems True by simp
    have d: "(stop - start + step - 1) div step = (stop - (start + step) + step - 1) div step + 1"
      using less.prems by (smt (verit) div_add_self2)
    have nn: "0 \<le> (stop - (start + step) + step - 1) div step"
      using less.prems True by (simp add: pos_imp_zdiv_nonneg_iff)
    have "[0..<nat ((stop - start + step - 1) div step)] =
          0 # map Suc [0..<nat ((stop - (start + step) + step - 1) div step)]"
      using d nn by (simp add: nat_add_distrib upt_conv_Cons map_Suc_upt del: upt_Suc)
    then show ?thesis
      using True less.prems ih by (simp add: py_range.simps[of start] o_def algebra_simps)
  qed
qed

lemma py_range_stepped:
  assumes "start \<le> end" "1 \<le> step"
  shows "py_range start (end + 1) step = stepped start end step"
proof -
  have "(end + 1 - start + step - 1) div step = (end - start) div step + 1"
    using assms by (smt (verit) div_add_self2)
  moreover have "0 \<le> (end - start) div step" using assms by (simp add: pos_imp_zdiv_nonneg_iff)
  ultimately show ?thesis using assms by (simp add: py_range_pos stepped_def nat_add_distrib)
qed

lemma stepped_nonempty: "stepped s e k \<noteq> []" by (simp add: stepped_def)

lemma stepped_hd: "hd (stepped s e k) = s" 
  by (simp add: stepped_def hd_map upt_conv_Cons del: upt_Suc)

lemma stepped_sorted: "1 \<le> k \<Longrightarrow> sorted_wrt (<) (stepped s e k)"
  unfolding stepped_def by (simp add: sorted_wrt_map del: upt_Suc) 

lemma stepped_set:
  assumes "s \<le> e" "1 \<le> k"
  shows "set (stepped s e k) = {x. x \<le> e \<and> (\<exists>n::nat. x = s + int n * k)}"
proof (intro set_eqI iffI)
  fix x assume "x \<in> set (stepped s e k)"
  then have "x \<in> (\<lambda>n. s + int n * k) ` {0..<Suc (nat ((e - s) div k))}"
    unfolding stepped_def by (simp del: upt_Suc)
  then obtain n where "n \<in> {0..<Suc (nat ((e - s) div k))}" and n1: "x = s + int n * k"
    by blast
  then have n: "x = s + int n * k" "n \<le> nat ((e - s) div k)" by simp_all
  have "0 \<le> (e - s) div k" using assms by (simp add: pos_imp_zdiv_nonneg_iff)
  then have "int n \<le> (e - s) div k" using n(2) by linarith
  then have "int n * k \<le> ((e - s) div k) * k" using assms by (simp add: mult_right_mono)
  also have "\<dots> \<le> e - s" using assms by (smt (verit) div_mult_mod_eq pos_mod_sign) 
  finally show "x \<in> {x. x \<le> e \<and> (\<exists>n::nat. x = s + int n * k)}" using n by auto
next
  fix x assume "x \<in> {x. x \<le> e \<and> (\<exists>n::nat. x = s + int n * k)}"
  then obtain n :: nat where n: "x = s + int n * k" "x \<le> e" by auto
  then have "int n * k \<le> e - s" by simp
  then have "(int n * k) div k \<le> (e - s) div k" using assms by (intro zdiv_mono1) auto
  then have "int n \<le> (e - s) div k" using assms by simp
  then have "n < Suc (nat ((e - s) div k))" by linarith
  then have "x \<in> (\<lambda>n. s + int n * k) ` {0..<Suc (nat ((e - s) div k))}" using n(1) by auto
  then show "x \<in> set (stepped s e k)" unfolding stepped_def by (simp del: upt_Suc)
qed

lemma stepped_one: "s \<le> e \<Longrightarrow> stepped s e 1 = [s..e]"
proof (induction "nat (e - s)" arbitrary: e)
  case 0
  then show ?case by (simp add: stepped_def)
next
  case (Suc n)
  then have "n = nat ((e - 1) - s)" "s \<le> e - 1" by auto
  then have "stepped s (e - 1) 1 = [s..e - 1]" using Suc.hyps(1) by blast
  moreover have "[s..e] = [s..e - 1] @ [e]" using Suc.prems by (simp add: upto_rec2)
  moreover have "nat (e - s) = Suc (nat (e - 1 - s))" using Suc by simp
  ultimately show ?case using Suc.prems unfolding stepped_def by (simp del: upt_Suc add: upt_Suc_append)
qed

lemma sorted_le_last: "sorted_wrt (<) xs \<Longrightarrow> x \<in> set xs \<Longrightarrow> x \<le> last (xs::int list)"
  by (induction xs) (auto simp: less_imp_le)

lemma sorted_snoc_end:
  assumes "sorted_wrt (<) xs" "\<forall>x\<in>set xs. x \<le> e" "xs \<noteq> []" "last xs \<noteq> (e::int)"
  shows "sorted_wrt (<) (xs @ [e])"
proof -
  have "last xs \<le> e" using assms(2,3) by simp
  then have "last xs < e" using assms(4) by simp
  then have "x < e" if "x \<in> set xs" for x
    using sorted_le_last[OF assms(1) that] by simp
  then show ?thesis using assms(1) by (simp add: sorted_wrt_append)
qed

lemma upto_hd_last: "s \<le> e \<Longrightarrow> hd [s..e] = s \<and> last [s..e] = e"
proof
  assume "s \<le> e"
  then show "hd [s..e] = s" by (simp add: upto_rec1[of s e])
  from \<open>s \<le> e\<close> show "last [s..e] = e" by (simp add: upto_rec2[of s e])
qed

text \<open>
  Claim C1.  For a clip with \<open>start \<le> end\<close> and \<open>step \<ge> 1\<close> the sampler returns a
  non-empty, strictly increasing list that begins with \<open>start\<close> and ends with \<open>end\<close>.
  With \<open>export_all_frames\<close> it is every integer of \<open>[start, end]\<close>, whatever the step;
  otherwise it is the stepped values \<open>start + n * step\<close> that do not exceed \<open>end\<close>,
  followed by \<open>end\<close> exactly when the last stepped value is not \<open>end\<close>.
\<close>

theorem frame_sampler_sequence:
  assumes "start \<le> end" "1 \<le> step"
  shows "\<exists>fs. frames_to_export all_frames start end step = Inr fs \<and> fs \<noteq> []
           \<and> sorted_wrt (<) fs \<and> hd fs = start \<and> last fs = end
           \<and> (if all_frames then fs = [start..end]
              else set (stepped start end step) = {x. x \<le> end \<and> (\<exists>n::nat. x = start + int n * step)}
                 \<and> fs = stepped start end step @ (if last (stepped start end step) = end then [] else [end]))"
proof (cases all_frames)
  case True
  have "py_range start (end + 1) 1 = [start..end]"
    using assms py_range_stepped[of start "end" 1] stepped_one by simp
  moreover have "sorted_wrt (<) [start..end]" using sorted_wrt_upto by simp
  ultimately show ?thesis using True assms upto_hd_last[of start "end"] by (simp add: frames_to_export_def)
next
  case False
  let ?st = "stepped start end step"
  have r: "py_range start (end + 1) step = ?st" using assms by (rule py_range_stepped)
  have le: "\<forall>x\<in>set ?st. x \<le> end" using stepped_set[OF assms] by simp
  show ?thesis
  proof (cases "last ?st = end")
    case True
    then show ?thesis using False assms r stepped_set[OF assms]
      by (simp add: frames_to_export_def stepped_nonempty stepped_hd stepped_sorted)
  next
    case ne: False
    have "sorted_wrt (<) (?st @ [end])"
      using sorted_snoc_end[OF stepped_sorted[OF assms(2)] le stepped_nonempty ne] .
    then show ?thesis using False ne assms r stepped_set[OF assms]
      by (simp add: frames_to_export_def stepped_nonempty stepped_hd)
  qed
qed

text \<open>The sampler at \<open>start = 1\<close>, \<open>end = 6\<close>, \<open>step = 2\<close>, and with all frames at 1 to 4.\<close>

theorem frame_sampler_sequence_witness:
  "(1::int) \<le> 6 \<and> (1::int) \<le> 2 \<and> frames_to_export False 1 6 2 = Inr [1, 3, 5, 6]
     \<and> stepped 1 6 2 = [1, 3, 5] \<and> frames_to_export True 1 4 3 = Inr [1, 2, 3, 4]
     \<and> (\<exists>fs. frames_to_export False 1 6 2 = Inr fs \<and> fs \<noteq> [] \<and> sorted_wrt (<) fs \<and> hd fs = 1 \<and> last fs = 6
           \<and> fs = stepped 1 6 2 @ [6])"
proof -
  have st: "stepped 1 6 2 = [1, 3, 5]" by code_simp
  have "frames_to_export True 1 4 3 = Inr [1, 2, 3, 4]" by code_simp
  moreover have "frames_to_export False 1 6 2 = Inr [1, 3, 5, 6]" by code_simp
  ultimately show ?thesis using frame_sampler_sequence[of 1 6 2 False] st by simp
qed

subsection \<open>The matrix packer: proofs\<close>

lemma write_list_Nil [simp]: "write_list [] s = s"
  by (simp add: write_list_def)

lemma write_list_Cons [simp]: "write_list (v # vs) (buf, idx) = write_list vs (buf[idx := v], Suc idx)"
  by (simp add: write_list_def)

lemma write_list_append: "write_list (xs @ ys) s = write_list ys (write_list xs s)"
  by (simp add: write_list_def)

lemma write_list_eq:
  "idx + length vs \<le> length buf \<Longrightarrow>
   write_list vs (buf, idx) = (take idx buf @ vs @ drop (idx + length vs) buf, idx + length vs)"
proof (induction vs arbitrary: buf idx)
  case Nil
  then show ?case by simp
next
  case (Cons v vs)
  then have "idx < length buf" by simp
  then have "take (Suc idx) (buf[idx := v]) = take idx buf @ [v]"
    by (simp add: take_Suc_conv_app_nth)
  then show ?case using Cons by simp
qed

lemma write_matrix_list: "write_matrix f32 M s = write_list (matrix_elems f32 M) s"
proof -
  have u: "[0..<4] = [0, 1, 2, Suc 2]" by (simp add: upt_rec)
  obtain buf idx where s: "s = (buf, idx)" by (cases s)
  show ?thesis unfolding write_matrix_def matrix_elems_def u s by (simp add: numeral_3_eq_3)
qed

lemma length_matrix_elems [simp]: "length (matrix_elems f32 M) = 16"
  by (simp add: matrix_elems_def)

lemma write_bones_list: "write_bones ps h s = write_list (frame_block ps h) s"
proof -
  have "fold (\<lambda>bone. write_matrix (float32 ps) (bone_mat ps h bone)) bs s =
        write_list (concat (map (\<lambda>bone. matrix_elems (float32 ps) (bone_mat ps h bone)) bs)) s" for bs
    by (induction bs arbitrary: s) (simp_all add: write_list_append write_matrix_list)
  then show ?thesis by (simp add: write_bones_def frame_block_def)
qed

lemma length_frame_block [simp]: "length (frame_block ps h) = length (pose_bones h) * 16"
  by (simp add: frame_block_def length_concat o_def sum_list_triv)

lemma pose_bones_frame_set [simp]: "pose_bones (frame_set h f) = pose_bones h"
  by (simp add: frame_set_def)

lemma pose_bones_frames_set [simp]: "pose_bones (frames_set h fs) = pose_bones h"
  by (induction fs arbitrary: h) simp_all

lemma length_packed_frames [simp]:
  "length (packed_frames ps h fs) = length fs * length (pose_bones h) * 16"
  by (induction fs arbitrary: h) (simp_all add: algebra_simps)

lemma bake_loop:
  assumes "length buf = (n + length fs) * (nb * 16)" and "nb = length (pose_bones h)"
  shows "fold (\<lambda>(f_idx, f_num) (h, buf).
             (let h' = frame_set h f_num;
                  offset = f_idx * nb * 16
              in (h', fst (write_bones ps h' (buf, offset)))))
       (enumerate n fs) (h, buf)
     = (frames_set h fs, take (n * (nb * 16)) buf @ packed_frames ps h fs)"
  using assms
proof (induction fs arbitrary: n h buf)
  case Nil
  then show ?case by simp
next
  case (Cons f fs)
  let ?B = "nb * 16"
  let ?h = "frame_set h f"
  let ?buf = "take (n * ?B) buf @ frame_block ps ?h @ drop (n * ?B + ?B) buf"
  let ?step = "\<lambda>(f_idx, f_num) (h, buf).
             (let h' = frame_set h f_num;
                  offset = f_idx * nb * 16
              in (h', fst (write_bones ps h' (buf, offset))))"
  have lb: "length (frame_block ps ?h) = ?B" using Cons.prems(2) by simp
  have len: "n * ?B + ?B \<le> length buf" using Cons.prems(1) by (simp add: algebra_simps)
  have "write_bones ps ?h (buf, n * ?B) = (?buf, n * ?B + ?B)"
    using len lb by (simp only: write_bones_list write_list_eq)
  then have w: "?step (n, f) (h, buf) = (?h, ?buf)"
    by (simp add: mult.assoc Let_def)
  have l2: "length ?buf = (Suc n + length fs) * ?B"
    using Cons.prems(1) len lb by (simp add: algebra_simps)
  have nb2: "nb = length (pose_bones ?h)" using Cons.prems(2) by simp
  have t: "take (Suc n * ?B) ?buf = take (n * ?B) buf @ frame_block ps ?h"
    using len lb by simp
  have "fold ?step (enumerate n (f # fs)) (h, buf) = fold ?step (enumerate (Suc n) fs) (?step (n, f) (h, buf))"
    by simp
  also have "\<dots> = fold ?step (enumerate (Suc n) fs) (?h, ?buf)"
    by (simp only: w)
  also have "\<dots> = (frames_set ?h fs, take (Suc n * ?B) ?buf @ packed_frames ps ?h fs)"
    by (rule Cons.IH[OF l2 nb2])
  also have "\<dots> = (frames_set h (f # fs), take (n * ?B) buf @ packed_frames ps h (f # fs))"
    by (simp only: t) simp
  finally show ?case .
qed

lemma bake_frames_packed:
  "num_bones = length (pose_bones h) \<Longrightarrow>
   bake_frames ps num_bones fs h = (frames_set h fs, packed_frames ps h fs)"
  unfolding bake_frames_def
  using bake_loop[of "replicate (length fs * num_bones * 16) 0" 0 fs num_bones h ps]
  by (simp add: mult.assoc)

lemma collect_loop:
  "map f32 (fold (\<lambda>bone. fold (\<lambda>col. fold (\<lambda>row mats. mats @ [bm bone row col])
                         [0..<4]) [0..<4]) bs acc)
        = map f32 acc @ concat (map (\<lambda>bone. matrix_elems f32 (bm bone)) bs)"
proof -
  have u: "[0..<4] = [0, 1, 2, Suc 2]" by (simp add: upt_rec)
  show ?thesis
    unfolding u by (induction bs arbitrary: acc) (simp_all add: matrix_elems_def numeral_3_eq_3)
qed

lemma collect_matrices_block:
  "collect_matrices_at_frame ps h f = (frame_set h f, frame_block ps (frame_set h f))"
  using collect_loop[of "float32 ps" "bone_mat ps (frame_set h f)" "pose_bones h" "[]"]
  by (simp add: collect_matrices_at_frame_def frame_block_def Let_def)


lemma matrix_elems_nth:
  "col < 4 \<Longrightarrow> row < 4 \<Longrightarrow> matrix_elems f32 M ! (col * 4 + row) = f32 (M row col)"
proof -
  assume "col < 4" "row < 4"
  then have "col \<in> {0, 1, 2, 3}" "row \<in> {0, 1, 2, 3}" by auto
  then show ?thesis by (auto simp: matrix_elems_def)
qed

lemma concat_uniform_nth:
  "(\<And>x. length (g x) = n) \<Longrightarrow> b < length xs \<Longrightarrow> k < n \<Longrightarrow>
   concat (map g xs) ! (b * n + k) = g (xs ! b) ! k"
proof (induction xs arbitrary: b)
  case Nil
  then show ?case by simp
next
  case (Cons x xs)
  show ?case
  proof (cases b)
    case 0
    then show ?thesis using Cons.prems by (simp add: nth_append)
  next
    case (Suc b')
    then have "concat (map g (x # xs)) ! (b * n + k) = concat (map g xs) ! (b' * n + k)"
      using Cons.prems(1)[of x] by (simp add: nth_append)
    then show ?thesis using Cons.IH[of b'] Cons.prems Suc by simp
  qed
qed

lemma frame_block_nth:
  "b < length (pose_bones h) \<Longrightarrow> k < 16 \<Longrightarrow>
   frame_block ps h ! (b * 16 + k) = matrix_elems (float32 ps) (bone_mat ps h (pose_bones h ! b)) ! k"
  unfolding frame_block_def
  by (rule concat_uniform_nth) simp_all

lemma packed_frames_nth:
  "i < length fs \<Longrightarrow> j < length (pose_bones h) * 16 \<Longrightarrow>
   packed_frames ps h fs ! (i * (length (pose_bones h) * 16) + j)
     = frame_block ps (frames_set h (take (Suc i) fs)) ! j"
proof (induction fs arbitrary: i h)
  case Nil
  then show ?case by simp
next
  case (Cons f fs)
  show ?case
  proof (cases i)
    case 0
    then show ?thesis using Cons.prems by (simp add: nth_append)
  next
    case (Suc i')
    then show ?thesis using Cons.IH[of i' "frame_set h f"] Cons.prems
      by (simp add: nth_append)
  qed
qed

text \<open>
  Claim C6.  The buffer baked for a list of frames is the concatenation, in sampling
  order, of one block per frame; a block holds, for every bone in the armature's bone
  order, the 16 entries of \<open>BLENDER_TO_THREE @ matrix_world @ bone.matrix\<close> as evaluated
  once the frame has been set, columns outermost and rows innermost.  So the entry at row
  \<open>row\<close> and column \<open>col\<close> of bone \<open>b\<close> in the \<open>i\<close>-th sampled frame is found at
  index \<open>i * num_bones * 16 + b * 16 + col * 4 + row\<close>.  The rest pose, collected by
  appending, has the same layout.
\<close>

theorem matrix_packer_layout:
  assumes "num_bones = length (pose_bones h)"
    and "i < length frames" and "b < num_bones" and "col < 4" and "row < 4"
  shows "snd (bake_frames ps num_bones frames h) = packed_frames ps h frames
       \<and> snd (collect_matrices_at_frame ps h frame) = frame_block ps (frame_set h frame)
       \<and> length (snd (bake_frames ps num_bones frames h)) = length frames * num_bones * 16
       \<and> snd (bake_frames ps num_bones frames h) ! (i * num_bones * 16 + b * 16 + col * 4 + row)
           = float32 ps
               (matmul ps (matmul ps (BLENDER_TO_THREE ps)
                                     (matrix_world ps (frames_set h (take (Suc i) frames))))
                          (bone_matrix ps (frames_set h (take (Suc i) frames)) (pose_bones h ! b))
                  row col)
       \<and> snd (collect_matrices_at_frame ps h frame) ! (b * 16 + col * 4 + row)
           = float32 ps
               (matmul ps (matmul ps (BLENDER_TO_THREE ps) (matrix_world ps (frame_set h frame)))
                          (bone_matrix ps (frame_set h frame) (pose_bones h ! b))
                  row col)"
proof -
  let ?hi = "frames_set h (take (Suc i) frames)"
  have k: "col * 4 + row < 16" using assms(4,5) by simp
  have j: "b * 16 + (col * 4 + row) < length (pose_bones h) * 16" using assms(1,3) k by simp
  have "packed_frames ps h frames ! (i * (length (pose_bones h) * 16) + (b * 16 + (col * 4 + row)))
        = frame_block ps ?hi ! (b * 16 + (col * 4 + row))"
    using assms(2) j by (rule packed_frames_nth)
  also have "\<dots> = matrix_elems (float32 ps) (bone_mat ps ?hi (pose_bones ?hi ! b)) ! (col * 4 + row)"
    using assms(1,3) k by (intro frame_block_nth) simp_all
  also have "\<dots> = float32 ps (bone_mat ps ?hi (pose_bones h ! b) row col)"
    using assms(4,5) by (simp add: matrix_elems_nth)
  finally have n1: "packed_frames ps h frames ! (i * num_bones * 16 + b * 16 + col * 4 + row)
      = float32 ps (bone_mat ps ?hi (pose_bones h ! b) row col)"
    using assms(1) by (simp add: add.assoc mult.assoc)
  have "frame_block ps (frame_set h frame) ! (b * 16 + (col * 4 + row))
      = matrix_elems (float32 ps) (bone_mat ps (frame_set h frame) (pose_bones (frame_set h frame) ! b)) ! (col * 4 + row)"
    using assms(1,3) k by (intro frame_block_nth) simp_all
  then have n2: "frame_block ps (frame_set h frame) ! (b * 16 + col * 4 + row)
      = float32 ps (bone_mat ps (frame_set h frame) (pose_bones h ! b) row col)"
    using assms(4,5) by (simp add: matrix_elems_nth add.assoc)
  show ?thesis
    using n1 n2 assms(1)
    by (simp add: bake_frames_packed collect_matrices_block bone_mat_def)
qed

text \<open>Two frames of the one-bone scene: entry (row 1, column 2) of the second frame.\<close>

theorem matrix_packer_layout_witness:
  "1 = length (pose_bones example_host) \<and> (1::nat) < length [3, 5::int] \<and> (0::nat) < 1
     \<and> (2::nat) < 4 \<and> (1::nat) < 4
     \<and> length (snd (bake_frames example_source 1 [3, 5] example_host)) = 32
     \<and> snd (bake_frames example_source 1 [3, 5] example_host) ! 25 = 5112
     \<and> snd (collect_matrices_at_frame example_source example_host 1) ! 9 = 1112"
proof -
  have b: "1 = length (pose_bones example_host)" by (simp add: example_host_def)
  have i: "(1::nat) < length [3, 5::int]" by simp
  note t = matrix_packer_layout[OF b i, of 0 2 1 example_source 1]
  have f5: "frame_current (frames_set example_host (take (Suc 1) [3, 5])) = 5"
    by (simp add: frame_set_def)
  have f1: "frame_current (frame_set example_host 1) = 1"
    by (simp add: frame_set_def)
  have nm: "pose_bones example_host ! 0 = ''b''" by (simp add: example_host_def)
  have triv: "(0::nat) < 1 \<and> (2::nat) < 4 \<and> (1::nat) < 4" by simp
  have "length (snd (bake_frames example_source 1 [3, 5] example_host)) = 32"
    using t[THEN conjunct2, THEN conjunct2, THEN conjunct1] by simp
  moreover have "snd (bake_frames example_source 1 [3, 5] example_host) ! 25 = 5112"
    using t[THEN conjunct2, THEN conjunct2, THEN conjunct2, THEN conjunct1] f5 nm
    by (simp add: example_source_def)
  moreover have "snd (collect_matrices_at_frame example_source example_host 1) ! 9 = 1112"
    using t[THEN conjunct2, THEN conjunct2, THEN conjunct2, THEN conjunct2] f1 nm
    by (simp add: example_source_def)
  ultimately show ?thesis using b i triv by blast
qed

subsection \<open>The assembly: proofs\<close>

lemma pose_bones_set_action [simp]: "pose_bones (set_action h a) = pose_bones h"
  by (simp add: set_action_def)

lemma pose_bones_ensure [simp]: "pose_bones (ensure_animation_data h) = pose_bones h"
  by (simp add: ensure_animation_data_def animation_data_create_def)

lemma pose_bones_mode_set [simp]: "pose_bones (mode_set h m) = pose_bones h"
  by (simp add: mode_set_def)

lemma pose_bones_pose_copy [simp]: "pose_bones (pose_copy h) = pose_bones h"
  by (simp add: pose_copy_def)

lemma pose_bones_pose_paste [simp]: "pose_bones (pose_paste h) = pose_bones h"
  by (simp add: pose_paste_def split: option.split)

lemma pose_bones_actions_new [simp]: "pose_bones (fst (actions_new h nm)) = pose_bones h"
  by (simp add: actions_new_def Let_def)

lemma pose_bones_keyframe_insert [simp]: "pose_bones (keyframe_insert b d f h) = pose_bones h"
  by (simp add: keyframe_insert_def split: option.split)

lemma pose_bones_fold_keys:
  "pose_bones (fold (\<lambda>bone h. keyframe_insert bone d3 f
                      (keyframe_insert bone d2 f (keyframe_insert bone d1 f h))) bs h) = pose_bones h"
  by (induction bs arbitrary: h) simp_all

lemma pose_bones_insert_pose_keys [simp]: "pose_bones (insert_pose_keys f h) = pose_bones h"
  by (simp add: insert_pose_keys_def pose_bones_fold_keys)

lemma pose_bones_set_linear [simp]: "pose_bones (set_linear a h) = pose_bones h"
  by (simp add: set_linear_def)

lemma pose_bones_fabricate [simp]:
  "pose_bones (fst (fabricate_transition nm sa sl da df h)) = pose_bones h"
  by (simp add: fabricate_transition_def Let_def split: prod.split)
     (metis fst_conv pose_bones_actions_new)

lemma frames_to_export_nonempty:
  "s \<le> e \<Longrightarrow> frames_to_export eaf s e k = Inr fs \<Longrightarrow> fs \<noteq> []"
  by (auto simp: frames_to_export_def Let_def py_range.simps[of s "e + 1" 1] split: if_splits)

lemma export_clip_Inr:
  assumes "export_clip ps eaf nb item (h, st) = (h', Inr st')" and "nb = length (pose_bones h)"
  shows "\<exists>act. item_action item = Some act
           \<and> fst (clip_range item act) \<le> snd (clip_range item act)
           \<and> frames_to_export eaf (fst (clip_range item act)) (snd (clip_range item act))
                (item_frame_step item) = Inr (clip_frames eaf item)
           \<and> clip_frames eaf item \<noteq> []
           \<and> h' = frames_set (set_action (ensure_animation_data h) (Some act)) (clip_frames eaf item)
           \<and> st' = st\<lparr>
                 frame_counts := frame_counts st @ [int (length (clip_frames eaf item))],
                 frame_steps := frame_steps st @ [if eaf then 1 else item_frame_step item],
                 animation_ranges := animation_ranges st @ [clip_range item act],
                 animation_helpers := animation_helpers st @
                   [\<lparr>helper_name = action_name act,
                     start_idx = total_frames st,
                     end_idx = total_frames st + int (length (clip_frames eaf item)) - 1\<rparr>],
                 total_frames := total_frames st + int (length (clip_frames eaf item)),
                 all_matrix_data := all_matrix_data st @
                   [packed_frames ps (set_action (ensure_animation_data h) (Some act))
                      (clip_frames eaf item)]\<rparr>"
proof -
  from assms(1) obtain act where act: "item_action item = Some act"
    by (cases "item_action item") (auto simp: export_clip_def Let_def)
  obtain s e where r: "clip_range item act = (s, e)" by (cases "clip_range item act")
  from assms(1) act r have le: "s \<le> e"
    by (auto simp: export_clip_def Let_def split: if_splits)
  from assms(1) act r le obtain fs where fs: "frames_to_export eaf s e (item_frame_step item) = Inr fs"
    by (cases "frames_to_export eaf s e (item_frame_step item)") (auto simp: export_clip_def Let_def)
  have cf: "clip_frames eaf item = fs" using act r fs by (simp add: clip_frames_def)
  have ne: "fs \<noteq> []" using frames_to_export_nonempty[OF le fs] .
  have b: "bake_frames ps nb fs (set_action (ensure_animation_data h) (Some act))
        = (frames_set (set_action (ensure_animation_data h) (Some act)) fs,
           packed_frames ps (set_action (ensure_animation_data h) (Some act)) fs)"
    using assms(2) by (intro bake_frames_packed) simp
  show ?thesis
    using assms(1) act r le fs cf ne b
    by (auto simp: export_clip_def Let_def)
qed

lemma records_append:
  "records t (xs @ ys) = records t xs @ records (t + sum_list (map snd xs)) ys"
  by (induction xs arbitrary: t) (auto simp: add.assoc)

lemma records_names [simp]: "map helper_name (records t xs) = map fst xs"
  by (induction xs arbitrary: t) auto


lemma length_records [simp]: "length (records t xs) = length xs"
  by (induction xs arbitrary: t) auto


lemma py_range_transition: "py_range 1 (transition_frames + 1) 1 = [1, 2, 3, 4, 5, 6, 7, 8, 9, 10]"
  unfolding transition_frames_def by (simp add: py_range.simps)

lemma synth_transition_Inr:
  assumes "synth_transition ps nb (src, dst) (h, st) = (h', Inr st')" and "nb = length (pose_bones h)"
  shows "\<exists>sa da buf. item_action src = Some sa \<and> item_action dst = Some da
           \<and> pose_bones h' = pose_bones h \<and> length buf = 10 * nb * 16
           \<and> st' = st\<lparr>
                 all_matrix_data := all_matrix_data st @ [buf],
                 animation_helpers := animation_helpers st @
                   [\<lparr>helper_name = action_name sa @ ''_To_'' @ action_name da,
                     start_idx = total_frames st,
                     end_idx = total_frames st + 9\<rparr>],
                 total_frames := total_frames st + 10,
                 frame_counts := frame_counts st @ [10],
                 frame_steps := frame_steps st @ [1],
                 animation_ranges := animation_ranges st @ [(1, 10)]\<rparr>"
proof -
  from assms(1) obtain sa where sa: "item_action src = Some sa"
    by (cases "item_action src") (auto simp: synth_transition_def Let_def)
  from assms(1) sa obtain da where da: "item_action dst = Some da"
    by (cases "item_action dst") (auto simp: synth_transition_def Let_def)
  let ?nm = "action_name sa @ ''_To_'' @ action_name da"
  obtain h1 tr where f: "fabricate_transition ?nm sa (last_frame src sa) da (first_frame dst da) h = (h1, tr)"
    by (cases "fabricate_transition ?nm sa (last_frame src sa) da (first_frame dst da) h")
  have pb1: "pose_bones h1 = pose_bones h"
    using pose_bones_fabricate[of ?nm sa "last_frame src sa" da "first_frame dst da" h]
    by (simp only: f fst_conv)
  define fs :: "int list" where "fs = [1, 2, 3, 4, 5, 6, 7, 8, 9, 10]"
  have pr: "py_range 1 (transition_frames + 1) 1 = fs" "py_range 1 11 1 = fs"
    using py_range_transition by (simp_all add: fs_def transition_frames_def)
  have lfs: "fs \<noteq> []" "last fs = 10" "length fs = 10"
    by (simp_all add: fs_def)
  have b: "bake_frames ps nb fs (set_action h1 (Some tr))
        = (frames_set (set_action h1 (Some tr)) fs, packed_frames ps (set_action h1 (Some tr)) fs)"
    using assms(2) pb1 by (intro bake_frames_packed) simp
  have l: "length (packed_frames ps (set_action h1 (Some tr)) fs) = 10 * nb * 16"
    using assms(2) pb1 lfs(3) by (simp only: length_packed_frames) simp
  have pb': "pose_bones (frames_set (set_action h1 (Some tr)) fs) = pose_bones h"
    using pb1 by (simp only: pose_bones_frames_set pose_bones_set_action)
  have "synth_transition ps nb (src, dst) (h, st) =
        (frames_set (set_action h1 (Some tr)) fs,
         Inr (st\<lparr>
                 all_matrix_data := all_matrix_data st @ [packed_frames ps (set_action h1 (Some tr)) fs],
                 animation_helpers := animation_helpers st @
                   [\<lparr>helper_name = ?nm,
                     start_idx = total_frames st,
                     end_idx = total_frames st + 9\<rparr>],
                 total_frames := total_frames st + 10,
                 frame_counts := frame_counts st @ [10],
                 frame_steps := frame_steps st @ [1],
                 animation_ranges := animation_ranges st @ [(1, 10)]\<rparr>))"
    unfolding synth_transition_def
    by (simp add: sa da f[simplified] Let_def pr lfs b transition_frames_def)
  with assms(1) have "h' = frames_set (set_action h1 (Some tr)) fs"
    and "st' = st\<lparr>
                 all_matrix_data := all_matrix_data st @ [packed_frames ps (set_action h1 (Some tr)) fs],
                 animation_helpers := animation_helpers st @
                   [\<lparr>helper_name = ?nm,
                     start_idx = total_frames st,
                     end_idx = total_frames st + 9\<rparr>],
                 total_frames := total_frames st + 10,
                 frame_counts := frame_counts st @ [10],
                 frame_steps := frame_steps st @ [1],
                 animation_ranges := animation_ranges st @ [(1, 10)]\<rparr>"
    by simp_all
  then show ?thesis using sa da l pb' by blast
qed

lemma export_clips_Inr:
  assumes "export_clips ps eaf nb items (h, st) = (h', Inr st')" and "nb = length (pose_bones h)"
  shows "pose_bones h' = pose_bones h
       \<and> animation_helpers st' =
           animation_helpers st @ records (total_frames st) (clip_entries eaf items)
       \<and> total_frames st' = total_frames st + sum_list (map snd (clip_entries eaf items))
       \<and> frame_counts st' = frame_counts st @ map snd (clip_entries eaf items)
       \<and> frame_steps st' =
           frame_steps st @ map (\<lambda>item. if eaf then 1 else item_frame_step item) items
       \<and> animation_ranges st' =
           animation_ranges st @ map (\<lambda>item. clip_range item (the (item_action item))) items
       \<and> map length (all_matrix_data st') =
           map length (all_matrix_data st) @
           map (\<lambda>item. length (clip_frames eaf item) * nb * 16) items
       \<and> prefix (all_matrix_data st) (all_matrix_data st')
       \<and> (\<forall>item\<in>set items. item_action item \<noteq> None \<and> clip_frames eaf item \<noteq> [])"
  using assms
proof (induction items arbitrary: h st)
  case Nil
  then show ?case by (simp add: clip_entries_def)
next
  case (Cons item items)
  from Cons.prems(1) obtain h1 st1 where
    c: "export_clip ps eaf nb item (h, st) = (h1, Inr st1)"
    and r: "export_clips ps eaf nb items (h1, st1) = (h', Inr st')"
    by (auto split: prod.splits sum.splits)
  from export_clip_Inr[OF c Cons.prems(2)] obtain act where
    act: "item_action item = Some act"
    and ne: "clip_frames eaf item \<noteq> []"
    and h1: "h1 = frames_set (set_action (ensure_animation_data h) (Some act)) (clip_frames eaf item)"
    and st1: "st1 = st\<lparr>
                 frame_counts := frame_counts st @ [int (length (clip_frames eaf item))],
                 frame_steps := frame_steps st @ [if eaf then 1 else item_frame_step item],
                 animation_ranges := animation_ranges st @ [clip_range item act],
                 animation_helpers := animation_helpers st @
                   [\<lparr>helper_name = action_name act,
                     start_idx = total_frames st,
                     end_idx = total_frames st + int (length (clip_frames eaf item)) - 1\<rparr>],
                 total_frames := total_frames st + int (length (clip_frames eaf item)),
                 all_matrix_data := all_matrix_data st @
                   [packed_frames ps (set_action (ensure_animation_data h) (Some act))
                      (clip_frames eaf item)]\<rparr>"
    by blast
  have pb: "pose_bones h1 = pose_bones h" by (simp add: h1)
  then have nb1: "nb = length (pose_bones h1)" using Cons.prems(2) by simp
  note ih = Cons.IH[OF r nb1]
  have e: "clip_entries eaf (item # items) =
           (action_name act, int (length (clip_frames eaf item))) # clip_entries eaf items"
    by (simp add: clip_entries_def clip_name_def act)
  have "prefix (all_matrix_data st) (all_matrix_data st1)" by (simp add: st1)
  then have "prefix (all_matrix_data st) (all_matrix_data st')"
    using ih by (meson prefix_order.trans)
  then show ?case
    using ih pb act ne Cons.prems(2)
    by (simp add: e st1 add.assoc)
qed

lemma synth_transitions_Inr:
  assumes "synth_transitions ps nb pairs (h, st) = (h', Inr st')" and "nb = length (pose_bones h)"
  shows "pose_bones h' = pose_bones h
       \<and> animation_helpers st' =
           animation_helpers st @ records (total_frames st) (transition_entries pairs)
       \<and> total_frames st' = total_frames st + sum_list (map snd (transition_entries pairs))
       \<and> frame_counts st' = frame_counts st @ map snd (transition_entries pairs)
       \<and> frame_steps st' = frame_steps st @ map (\<lambda>pair. 1) pairs
       \<and> animation_ranges st' = animation_ranges st @ map (\<lambda>pair. (1, 10)) pairs
       \<and> map length (all_matrix_data st') =
           map length (all_matrix_data st) @ map (\<lambda>pair. 10 * nb * 16) pairs
       \<and> prefix (all_matrix_data st) (all_matrix_data st')"
  using assms
proof (induction pairs arbitrary: h st)
  case Nil
  then show ?case by (simp add: transition_entries_def)
next
  case (Cons pair pairs)
  obtain src dst where p: "pair = (src, dst)" by (cases pair)
  from Cons.prems(1) obtain h1 st1 where
    c: "synth_transition ps nb (src, dst) (h, st) = (h1, Inr st1)"
    and r: "synth_transitions ps nb pairs (h1, st1) = (h', Inr st')"
    by (auto simp: p split: prod.splits sum.splits)
  from synth_transition_Inr[OF c Cons.prems(2)] obtain sa da buf where
    sa: "item_action src = Some sa" and da: "item_action dst = Some da"
    and pb: "pose_bones h1 = pose_bones h" and lb: "length buf = 10 * nb * 16"
    and st1: "st1 = st\<lparr>
                 all_matrix_data := all_matrix_data st @ [buf],
                 animation_helpers := animation_helpers st @
                   [\<lparr>helper_name = action_name sa @ ''_To_'' @ action_name da,
                     start_idx = total_frames st,
                     end_idx = total_frames st + 9\<rparr>],
                 total_frames := total_frames st + 10,
                 frame_counts := frame_counts st @ [10],
                 frame_steps := frame_steps st @ [1],
                 animation_ranges := animation_ranges st @ [(1, 10)]\<rparr>"
    by blast
  have nb1: "nb = length (pose_bones h1)" using Cons.prems(2) pb by simp
  note ih = Cons.IH[OF r nb1]
  have e: "transition_entries (pair # pairs) =
           (action_name sa @ ''_To_'' @ action_name da, 10) # transition_entries pairs"
    by (simp add: transition_entries_def transition_name_def clip_name_def p sa da)
  have "prefix (all_matrix_data st) (all_matrix_data st1)" by (simp add: st1)
  then have "prefix (all_matrix_data st) (all_matrix_data st')"
    using ih by (meson prefix_order.trans)
  then show ?case
    using ih pb lb
    by (simp add: e st1 add.assoc)
qed

lemma rest_pose_eq:
  "rest_pose ps unit_name h =
     (frame_set h (rest_frame h),
      \<lparr>all_matrix_data = [frame_block ps (frame_set h (rest_frame h))],
       frame_counts = [1], frame_steps = [1],
       animation_ranges = [(rest_frame h, rest_frame h)], total_frames = 1,
       animation_helpers =
         [\<lparr>helper_name = unit_name @ ''Rest'', start_idx = 0, end_idx = 0\<rparr>]\<rparr>)"
  by (simp add: rest_pose_def rest_frame_def collect_matrices_block Let_def)

lemma assemble_Inr:
  assumes "assemble ps unit_name eaf h = (h', Inr (oa, st))"
  shows "active_object h = Some ARMATURE \<and> animations_to_export h \<noteq> []
       \<and> pose_bones h' = pose_bones h
       \<and> animation_helpers st = records 0 (layout unit_name eaf h)
       \<and> total_frames st = sum_list (map snd (layout unit_name eaf h))
       \<and> frame_counts st = map snd (layout unit_name eaf h)
       \<and> frame_steps st =
           1 # map (\<lambda>item. if eaf then 1 else item_frame_step item) (included_items h) @
               map (\<lambda>pair. 1) (transition_pairs h)
       \<and> animation_ranges st =
           (rest_frame h, rest_frame h) #
             map (\<lambda>item. clip_range item (the (item_action item))) (included_items h) @
             map (\<lambda>pair. (1, 10)) (transition_pairs h)
       \<and> map length (all_matrix_data st) =
           map (\<lambda>(nm, c). nat c * length (pose_bones h) * 16) (layout unit_name eaf h)
       \<and> prefix [frame_block ps (frame_set h (rest_frame h))] (all_matrix_data st)
       \<and> (\<forall>item\<in>set (included_items h). item_action item \<noteq> None \<and> clip_frames eaf item \<noteq> [])"
proof -
  let ?nb = "length (pose_bones h)"
  let ?h1 = "frame_set h (rest_frame h)"
  let ?st1 = "\<lparr>all_matrix_data = [frame_block ps ?h1],
       frame_counts = [1], frame_steps = [1],
       animation_ranges = [(rest_frame h, rest_frame h)], total_frames = 1,
       animation_helpers =
         [\<lparr>helper_name = unit_name @ ''Rest'', start_idx = 0, end_idx = 0\<rparr>]\<rparr>"
  from assms have arm: "active_object h = Some ARMATURE" and ne: "animations_to_export h \<noteq> []"
    by (auto simp: assemble_def split: if_splits)
  from assms arm ne obtain h2 st2 where
    c: "export_clips ps eaf ?nb (included_items h) (?h1, ?st1) = (h2, Inr st2)"
    and t: "synth_transitions ps ?nb (transition_pairs h) (h2, st2) = (h', Inr st)"
    by (auto simp: assemble_def rest_pose_eq Let_def included_items_def transition_pairs_def
             split: prod.splits sum.splits)
  have nb1: "?nb = length (pose_bones ?h1)" by simp
  note c' = export_clips_Inr[OF c nb1]
  have nb2: "?nb = length (pose_bones h2)" using c' by simp
  note t' = synth_transitions_Inr[OF t nb2]
  have pf: "prefix [frame_block ps ?h1] (all_matrix_data st)"
    using c' t' by (metis prefix_order.trans assembly.select_convs(1))
  have ml: "map length (all_matrix_data st) =
           map (\<lambda>(nm, c). nat c * ?nb * 16) (layout unit_name eaf h)"
    using c' t' by (simp add: layout_def clip_entries_def transition_entries_def o_def)
  show ?thesis
    using arm ne c' t' pf ml
    by (simp add: layout_def records_append add.assoc)
qed

subsection \<open>Outputs and failures: proofs\<close>

lemma same_output_refl [simp]: "same_output h h"
  by (simp add: same_output_def)

lemma same_output_trans: "same_output h h1 \<Longrightarrow> same_output h1 h2 \<Longrightarrow> same_output h h2"
  by (simp add: same_output_def)

lemma output_frame_set [simp]:
  "files (frame_set h f) = files h" "id_props (frame_set h f) = id_props h"
  "filepath (frame_set h f) = filepath h"
  by (simp_all add: frame_set_def)

lemma output_set_action [simp]:
  "files (set_action h a) = files h" "id_props (set_action h a) = id_props h"
  "filepath (set_action h a) = filepath h"
  by (simp_all add: set_action_def)

lemma output_ensure [simp]:
  "files (ensure_animation_data h) = files h" "id_props (ensure_animation_data h) = id_props h"
  "filepath (ensure_animation_data h) = filepath h"
  by (simp_all add: ensure_animation_data_def animation_data_create_def)

lemma output_mode_set [simp]:
  "files (mode_set h m) = files h" "id_props (mode_set h m) = id_props h"
  "filepath (mode_set h m) = filepath h"
  by (simp_all add: mode_set_def)

lemma output_pose_copy [simp]:
  "files (pose_copy h) = files h" "id_props (pose_copy h) = id_props h"
  "filepath (pose_copy h) = filepath h"
  by (simp_all add: pose_copy_def)

lemma output_pose_paste [simp]:
  "files (pose_paste h) = files h" "id_props (pose_paste h) = id_props h"
  "filepath (pose_paste h) = filepath h"
  by (simp_all add: pose_paste_def split: option.split)

lemma output_actions_new [simp]:
  "files (fst (actions_new h nm)) = files h" "id_props (fst (actions_new h nm)) = id_props h"
  "filepath (fst (actions_new h nm)) = filepath h"
  by (simp_all add: actions_new_def Let_def)

lemma output_keyframe_insert [simp]:
  "files (keyframe_insert b d f h) = files h" "id_props (keyframe_insert b d f h) = id_props h"
  "filepath (keyframe_insert b d f h) = filepath h"
  by (simp_all add: keyframe_insert_def split: option.split)

lemma output_insert_pose_keys [simp]:
  "files (insert_pose_keys f h) = files h" "id_props (insert_pose_keys f h) = id_props h"
  "filepath (insert_pose_keys f h) = filepath h"
proof -
  have "files (fold (\<lambda>bone h. keyframe_insert bone d3 f
                      (keyframe_insert bone d2 f (keyframe_insert bone d1 f h))) bs h) = files h
      \<and> id_props (fold (\<lambda>bone h. keyframe_insert bone d3 f
                      (keyframe_insert bone d2 f (keyframe_insert bone d1 f h))) bs h) = id_props h
      \<and> filepath (fold (\<lambda>bone h. keyframe_insert bone d3 f
                      (keyframe_insert bone d2 f (keyframe_insert bone d1 f h))) bs h) = filepath h"
    for bs d1 d2 d3 and h :: "'a host"
    by (induction bs arbitrary: h) simp_all
  then show "files (insert_pose_keys f h) = files h" "id_props (insert_pose_keys f h) = id_props h"
    "filepath (insert_pose_keys f h) = filepath h"
    by (simp_all add: insert_pose_keys_def)
qed

lemma output_set_linear [simp]:
  "files (set_linear a h) = files h" "id_props (set_linear a h) = id_props h"
  "filepath (set_linear a h) = filepath h"
  by (simp_all add: set_linear_def)

lemma output_frames_set [simp]:
  "files (frames_set h fs) = files h" "id_props (frames_set h fs) = id_props h"
  "filepath (frames_set h fs) = filepath h"
  by (induction fs arbitrary: h) simp_all

lemma output_restore_action [simp]:
  "files (restore_action a h) = files h" "id_props (restore_action a h) = id_props h"
  "filepath (restore_action a h) = filepath h"
  by (simp_all add: restore_action_def)

lemma output_fabricate [simp]:
  "files (fst (fabricate_transition nm sa sl da df h)) = files h"
  "id_props (fst (fabricate_transition nm sa sl da df h)) = id_props h"
  "filepath (fst (fabricate_transition nm sa sl da df h)) = filepath h"
proof -
  obtain h1 tr where n: "actions_new h nm = (h1, tr)" by (cases "actions_new h nm")
  have "files h1 = files h" "id_props h1 = id_props h" "filepath h1 = filepath h"
    using output_actions_new[of h nm] by (simp_all add: n)
  then show "files (fst (fabricate_transition nm sa sl da df h)) = files h"
  "id_props (fst (fabricate_transition nm sa sl da df h)) = id_props h"
  "filepath (fst (fabricate_transition nm sa sl da df h)) = filepath h"
    by (simp_all add: fabricate_transition_def n Let_def)
qed

lemma fst_bake_frames: "fst (bake_frames ps nb fs h) = frames_set h fs"
proof -
  have "fst (fold (\<lambda>(f_idx, f_num) (h, buf).
             (let h' = frame_set h f_num;
                  offset = f_idx * nb * 16
              in (h', fst (write_bones ps h' (buf, offset)))))
       (enumerate n fs) (h, buf)) = frames_set h fs" for n buf
    by (induction fs arbitrary: n h buf) (simp_all add: Let_def)
  then show ?thesis by (simp add: bake_frames_def)
qed

lemma frames_to_export_Inr:
  "s \<le> e \<Longrightarrow> eaf \<or> 1 \<le> k \<Longrightarrow> \<exists>fs. frames_to_export eaf s e k = Inr fs"
proof (cases eaf)
  case True
  then show ?thesis by (simp add: frames_to_export_def)
next
  case False
  assume a: "s \<le> e" "eaf \<or> 1 \<le> k"
  then have k: "1 \<le> k" using False by simp
  have r: "py_range s (e + 1) k = stepped s e k" using a(1) k by (rule py_range_stepped)
  show ?thesis using False k by (simp add: frames_to_export_def r Let_def stepped_nonempty)
qed

lemma export_clip_invalid:
  assumes "item_action item = Some act" and "invalid_range item"
  shows "export_clip ps eaf nb item (h, st) =
           (set_action (ensure_animation_data h) (Some act),
            Inl (InvalidRangeError (action_name act)))"
proof -
  obtain s e where r: "clip_range item act = (s, e)" by (cases "clip_range item act")
  then have "e < s" using assms by (simp add: invalid_range_def)
  then show ?thesis using assms(1) r by (simp add: export_clip_def Let_def)
qed

lemma export_clip_valid:
  assumes "item_action item = Some act" and "\<not> invalid_range item"
  shows "(\<forall>msg. snd (export_clip ps eaf nb item (h, st)) \<noteq> Inl (InvalidRangeError msg))
       \<and> (eaf \<or> 1 \<le> item_frame_step item \<longrightarrow> (\<exists>st'. snd (export_clip ps eaf nb item (h, st)) = Inr st'))"
proof -
  obtain s e where r: "clip_range item act = (s, e)" by (cases "clip_range item act")
  have le: "s \<le> e" using assms r by (simp add: invalid_range_def)
  show ?thesis
  proof (cases "frames_to_export eaf s e (item_frame_step item)")
    case (Inl err)
    then have "err = ValueError \<or> err = IndexError"
      by (auto simp: frames_to_export_def Let_def split: if_splits)
    moreover have "\<not> (eaf \<or> 1 \<le> item_frame_step item)"
      using frames_to_export_Inr[OF le, of eaf "item_frame_step item"] Inl by auto
    ultimately show ?thesis using assms r le Inl
      by (auto simp: export_clip_def Let_def)
  next
    case (Inr fs)
    then show ?thesis using assms r le
      by (simp add: export_clip_def Let_def split: prod.split)
  qed
qed

lemma export_clips_invalid:
  assumes "\<forall>item\<in>set items. item_action item \<noteq> None \<and> (eaf \<or> 1 \<le> item_frame_step item)"
    and "\<exists>item\<in>set items. invalid_range item"
  shows "\<exists>nm. snd (export_clips ps eaf nb items (h, st)) = Inl (InvalidRangeError nm)"
  using assms
proof (induction items arbitrary: h st)
  case Nil
  then show ?case by simp
next
  case (Cons item items)
  from Cons.prems(1) obtain act where act: "item_action item = Some act" by auto
  show ?case
  proof (cases "invalid_range item")
    case True
    then show ?thesis using export_clip_invalid[OF act True, of ps eaf nb h st] by simp
  next
    case False
    then obtain st' where
      "snd (export_clip ps eaf nb item (h, st)) = Inr st'"
      using export_clip_valid[OF act False, of ps eaf nb h st] Cons.prems(1) by auto
    then obtain h' where c: "export_clip ps eaf nb item (h, st) = (h', Inr st')"
      by (cases "export_clip ps eaf nb item (h, st)") auto
    have "\<exists>item\<in>set items. invalid_range item" using Cons.prems(2) False by auto
    then show ?thesis using Cons.IH[of h' st'] Cons.prems(1) c by simp
  qed
qed

lemma export_clips_valid:
  assumes "\<forall>item\<in>set items. item_action item \<noteq> None \<and> \<not> invalid_range item"
  shows "(\<forall>msg. snd (export_clips ps eaf nb items (h, st)) \<noteq> Inl (InvalidRangeError msg))
       \<and> ((\<forall>item\<in>set items. eaf \<or> 1 \<le> item_frame_step item) \<longrightarrow>
            (\<exists>st'. snd (export_clips ps eaf nb items (h, st)) = Inr st'))"
  using assms
proof (induction items arbitrary: h st)
  case Nil
  then show ?case by simp
next
  case (Cons item items)
  from Cons.prems obtain act where act: "item_action item = Some act" by auto
  have v: "\<not> invalid_range item" using Cons.prems by simp
  note cv = export_clip_valid[OF act v, of ps eaf nb h st]
  obtain h' r where c: "export_clip ps eaf nb item (h, st) = (h', r)"
    by (cases "export_clip ps eaf nb item (h, st)")
  show ?case
  proof (cases r)
    case (Inl err)
    then show ?thesis using cv c by auto
  next
    case (Inr st')
    then show ?thesis using Cons.IH[of h' st'] Cons.prems c by simp
  qed
qed

lemma synth_transition_never_fails:
  assumes "item_action src \<noteq> None" and "item_action dst \<noteq> None"
  shows "\<exists>st'. snd (synth_transition ps nb (src, dst) (h, st)) = Inr st'"
proof -
  from assms obtain sa da where a: "item_action src = Some sa" "item_action dst = Some da" by auto
  have pr: "py_range 1 11 1 = [1, 2, 3, 4, 5, 6, 7, 8, 9, 10]"
    using py_range_transition by (simp add: transition_frames_def)
  show ?thesis
    by (simp add: synth_transition_def a Let_def pr transition_frames_def
             split: prod.split)
qed

lemma synth_transitions_never_fail:
  assumes "\<forall>pair\<in>set pairs. item_action (fst pair) \<noteq> None \<and> item_action (snd pair) \<noteq> None"
  shows "\<exists>st'. snd (synth_transitions ps nb pairs (h, st)) = Inr st'"
  using assms
proof (induction pairs arbitrary: h st)
  case Nil
  then show ?case by simp
next
  case (Cons pair pairs)
  obtain src dst where p: "pair = (src, dst)" by (cases pair)
  obtain st1 where "snd (synth_transition ps nb (src, dst) (h, st)) = Inr st1"
    using synth_transition_never_fails[of src dst ps nb h st] Cons.prems p by auto
  then obtain h1 where c: "synth_transition ps nb (src, dst) (h, st) = (h1, Inr st1)"
    by (cases "synth_transition ps nb (src, dst) (h, st)") auto
  show ?case using Cons.IH[of h1 st1] Cons.prems c p by simp
qed

lemma fst_export_clip:
  "\<exists>fs. fst (export_clip ps eaf nb item (h, st)) =
          frames_set (set_action (ensure_animation_data h) (item_action item)) fs"
proof (cases "item_action item")
  case None
  then have "fst (export_clip ps eaf nb item (h, st)) =
          frames_set (set_action (ensure_animation_data h) (item_action item)) []"
    by (simp add: export_clip_def Let_def)
  then show ?thesis by blast
next
  case (Some act)
  obtain s e where r: "clip_range item act = (s, e)" by (cases "clip_range item act")
  show ?thesis
  proof (cases "e < s")
    case True
    then have "fst (export_clip ps eaf nb item (h, st)) =
          frames_set (set_action (ensure_animation_data h) (item_action item)) []"
      using Some r by (simp add: export_clip_def Let_def)
    then show ?thesis by blast
  next
    case False
    show ?thesis
    proof (cases "frames_to_export eaf s e (item_frame_step item)")
      case (Inl err)
      then have "fst (export_clip ps eaf nb item (h, st)) =
          frames_set (set_action (ensure_animation_data h) (item_action item)) []"
        using Some r False by (simp add: export_clip_def Let_def)
      then show ?thesis by blast
    next
      case (Inr fs)
      then have "fst (export_clip ps eaf nb item (h, st)) =
          fst (bake_frames ps nb fs (set_action (ensure_animation_data h) (item_action item)))"
        using Some r False by (simp add: export_clip_def Let_def split: prod.split)
      then show ?thesis by (simp only: fst_bake_frames) blast
    qed
  qed
qed

lemma same_output_export_clip: "same_output h (fst (export_clip ps eaf nb item (h, st)))"
proof -
  obtain fs where "fst (export_clip ps eaf nb item (h, st)) =
          frames_set (set_action (ensure_animation_data h) (item_action item)) fs"
    using fst_export_clip by blast
  then show ?thesis by (simp add: same_output_def)
qed

lemma same_output_export_clips: "same_output h (fst (export_clips ps eaf nb items (h, st)))"
proof (induction items arbitrary: h st)
  case Nil
  then show ?case by simp
next
  case (Cons item items)
  obtain h1 r where c: "export_clip ps eaf nb item (h, st) = (h1, r)"
    by (cases "export_clip ps eaf nb item (h, st)")
  have s1: "same_output h h1" using same_output_export_clip[of h ps eaf nb item st] c by simp
  show ?case
  proof (cases r)
    case (Inl e)
    then show ?thesis using c s1 by simp
  next
    case (Inr st1)
    then show ?thesis using c s1 Cons[of h1 st1] by simp (meson same_output_trans)
  qed
qed

lemma fst_synth_transition:
  "fst (synth_transition ps nb pair (h, st)) = h \<or>
   (\<exists>nm sa sl da df tr fs. fst (synth_transition ps nb pair (h, st)) =
      frames_set (set_action (fst (fabricate_transition nm sa sl da df h)) (Some tr)) fs)"
proof -
  obtain src dst where p: "pair = (src, dst)" by (cases pair)
  show ?thesis
  proof (cases "item_action src")
    case None
    then show ?thesis by (simp add: synth_transition_def p)
  next
    case sa: (Some sa)
    show ?thesis
    proof (cases "item_action dst")
      case None
      then show ?thesis using sa by (simp add: synth_transition_def p)
    next
      case da: (Some da)
      let ?nm = "action_name sa @ ''_To_'' @ action_name da"
      obtain h1 tr where f: "fabricate_transition ?nm sa (last_frame src sa) da (first_frame dst da) h = (h1, tr)"
        by (cases "fabricate_transition ?nm sa (last_frame src sa) da (first_frame dst da) h")
      have pr: "py_range 1 11 1 = [1, 2, 3, 4, 5, 6, 7, 8, 9, 10]"
        using py_range_transition by (simp add: transition_frames_def)
      define fs :: "int list" where "fs = [1, 2, 3, 4, 5, 6, 7, 8, 9, 10]"
      have "fst (synth_transition ps nb pair (h, st)) = fst (bake_frames ps nb fs (set_action h1 (Some tr)))"
        unfolding synth_transition_def
        by (simp add: p sa da f[simplified] Let_def pr transition_frames_def fs_def split: prod.split)
      then have "fst (synth_transition ps nb pair (h, st)) =
          frames_set (set_action (fst (fabricate_transition ?nm sa (last_frame src sa) da (first_frame dst da) h)) (Some tr)) fs"
        by (simp only: fst_bake_frames f fst_conv)
      then show ?thesis by blast
    qed
  qed
qed

lemma same_output_synth_transition: "same_output h (fst (synth_transition ps nb pair (h, st)))"
  using fst_synth_transition[of ps nb pair h st]
  by (auto simp: same_output_def)

lemma same_output_synth_transitions: "same_output h (fst (synth_transitions ps nb pairs (h, st)))"
proof (induction pairs arbitrary: h st)
  case Nil
  then show ?case by simp
next
  case (Cons pair pairs)
  obtain h1 r where c: "synth_transition ps nb pair (h, st) = (h1, r)"
    by (cases "synth_transition ps nb pair (h, st)")
  have s1: "same_output h h1" using same_output_synth_transition[of h ps nb pair st] c by simp
  show ?case
  proof (cases r)
    case (Inl e)
    then show ?thesis using c s1 by simp
  next
    case (Inr st1)
    then show ?thesis using c s1 Cons[of h1 st1] by simp (meson same_output_trans)
  qed
qed

lemma included_items_actions:
  "item \<in> set (included_items h) \<Longrightarrow> item_action item \<noteq> None \<and> item_include item"
  by (auto simp: included_items_def animations_to_export_def)

lemma set_transitions_of:
  "set (transitions_of xs) = {(a, b). a \<in> set xs \<and> b \<in> set xs \<and> a \<noteq> b}"
  by (auto simp: transitions_of_def)





lemma transition_pairs_actions:
  "pair \<in> set (transition_pairs h) \<Longrightarrow>
   item_action (fst pair) \<noteq> None \<and> item_action (snd pair) \<noteq> None"
  by (auto simp: transition_pairs_def set_transitions_of animations_to_export_def)

lemma assemble_unfold:
  assumes "active_object h = Some ARMATURE" and "animations_to_export h \<noteq> []"
  shows "assemble ps unit_name eaf h =
     (case export_clips ps eaf (length (pose_bones h)) (included_items h)
             (frame_set h (rest_frame h), rest_assembly ps unit_name h) of
        (h2, Inl e) \<Rightarrow> (h2, Inl e)
      | (h2, Inr st2) \<Rightarrow>
          (case synth_transitions ps (length (pose_bones h)) (transition_pairs h) (h2, st2) of
             (h3, Inl e) \<Rightarrow> (h3, Inl e)
           | (h3, Inr st3) \<Rightarrow> (h3, Inr (active_action h2, st3))))"
  unfolding assemble_def included_items_def transition_pairs_def rest_assembly_def
  using assms by (simp add: rest_pose_eq Let_def)

lemma assemble_invalid:
  assumes "active_object h = Some ARMATURE"
    and "\<forall>item\<in>set (included_items h). eaf \<or> 1 \<le> item_frame_step item"
    and "\<exists>item\<in>set (included_items h). invalid_range item"
  shows "\<exists>nm. snd (assemble ps unit_name eaf h) = Inl (InvalidRangeError nm)"
proof -
  have ne: "animations_to_export h \<noteq> []" using assms(3) by (auto simp: included_items_def)
  have a: "\<forall>item\<in>set (included_items h). item_action item \<noteq> None \<and> (eaf \<or> 1 \<le> item_frame_step item)"
    using assms(2) included_items_actions by blast
  let ?c = "export_clips ps eaf (length (pose_bones h)) (included_items h)
             (frame_set h (rest_frame h), rest_assembly ps unit_name h)"
  obtain nm where "snd ?c = Inl (InvalidRangeError nm)"
    using export_clips_invalid[OF a assms(3)] by blast
  then obtain h2 where "?c = (h2, Inl (InvalidRangeError nm))"
    by (cases ?c) auto
  then have "assemble ps unit_name eaf h = (h2, Inl (InvalidRangeError nm))"
    by (simp add: assemble_unfold[OF assms(1) ne])
  then show ?thesis by simp
qed

lemma assemble_not_range_error:
  assumes "\<forall>item\<in>set (included_items h). \<not> invalid_range item"
  shows "snd (assemble ps unit_name eaf h) \<noteq> Inl (InvalidRangeError nm)"
proof (cases "active_object h = Some ARMATURE \<and> animations_to_export h \<noteq> []")
  case False
  then show ?thesis by (auto simp: assemble_def)
next
  case True
  have a: "\<forall>item\<in>set (included_items h). item_action item \<noteq> None \<and> \<not> invalid_range item"
    using assms included_items_actions by blast
  let ?nb = "length (pose_bones h)"
  let ?c = "export_clips ps eaf ?nb (included_items h)
             (frame_set h (rest_frame h), rest_assembly ps unit_name h)"
  obtain h2 r2 where c: "?c = (h2, r2)" by (cases ?c)
  have v: "snd ?c \<noteq> Inl (InvalidRangeError nm)"
    using export_clips_valid[OF a] by blast
  show ?thesis
  proof (cases r2)
    case (Inl err)
    then show ?thesis using v c True by (simp add: assemble_unfold)
  next
    case (Inr st2)
    let ?t = "synth_transitions ps ?nb (transition_pairs h) (h2, st2)"
    obtain st3 where "snd ?t = Inr st3"
      using synth_transitions_never_fail[of "transition_pairs h"] transition_pairs_actions by blast
    then obtain h3 where "?t = (h3, Inr st3)" by (cases ?t) auto
    then show ?thesis using c Inr True by (simp add: assemble_unfold)
  qed
qed

lemma assemble_valid:
  assumes "active_object h = Some ARMATURE" and "animations_to_export h \<noteq> []"
    and "\<forall>item\<in>set (included_items h). eaf \<or> 1 \<le> item_frame_step item"
    and "\<forall>item\<in>set (included_items h). \<not> invalid_range item"
  shows "\<exists>h' oa st. assemble ps unit_name eaf h = (h', Inr (oa, st))"
proof -
  have a: "\<forall>item\<in>set (included_items h). item_action item \<noteq> None \<and> \<not> invalid_range item"
    using assms(4) included_items_actions by blast
  let ?nb = "length (pose_bones h)"
  let ?c = "export_clips ps eaf ?nb (included_items h)
             (frame_set h (rest_frame h), rest_assembly ps unit_name h)"
  obtain st2 where "snd ?c = Inr st2"
    using export_clips_valid[OF a] assms(3) by blast
  then obtain h2 where c: "?c = (h2, Inr st2)" by (cases ?c) auto
  let ?t = "synth_transitions ps ?nb (transition_pairs h) (h2, st2)"
  obtain st3 where "snd ?t = Inr st3"
    using synth_transitions_never_fail[of "transition_pairs h"] transition_pairs_actions by blast
  then obtain h3 where "?t = (h3, Inr st3)" by (cases ?t) auto
  then have "assemble ps unit_name eaf h = (h3, Inr (active_action h2, st3))"
    using c by (simp add: assemble_unfold[OF assms(1,2)])
  then show ?thesis by blast
qed

lemma same_output_assemble: "same_output h (fst (assemble ps unit_name eaf h))"
proof (cases "active_object h = Some ARMATURE \<and> animations_to_export h \<noteq> []")
  case False
  then show ?thesis by (auto simp: assemble_def)
next
  case True
  let ?nb = "length (pose_bones h)"
  let ?h1 = "frame_set h (rest_frame h)"
  let ?c = "export_clips ps eaf ?nb (included_items h) (?h1, rest_assembly ps unit_name h)"
  obtain h2 r2 where c: "?c = (h2, r2)" by (cases ?c)
  have "same_output ?h1 h2"
    using same_output_export_clips[of ?h1 ps eaf ?nb "included_items h" "rest_assembly ps unit_name h"] c
    by simp
  then have s2: "same_output h h2" by (simp add: same_output_def)
  show ?thesis
  proof (cases r2)
    case (Inl err)
    then show ?thesis using c s2 True by (simp add: assemble_unfold)
  next
    case (Inr st2)
    let ?t = "synth_transitions ps ?nb (transition_pairs h) (h2, st2)"
    obtain h3 r3 where t: "?t = (h3, r3)" by (cases ?t)
    have "same_output h2 h3"
      using same_output_synth_transitions[of h2 ps ?nb "transition_pairs h" st2] t by simp
    then have "same_output h h3" using s2 same_output_trans by blast
    then show ?thesis using c Inr t True by (cases r3) (simp_all add: assemble_unfold)
  qed
qed

subsection \<open>The clip records: proofs\<close>







lemma layout_names:
  "map fst (layout unit_name eaf h) =
     (unit_name @ ''Rest'') # map clip_name (included_items h) @
     map transition_name (transition_pairs h)"
  by (simp add: layout_def clip_entries_def transition_entries_def o_def)



lemma example_exported: "animations_to_export example_host = [(0, item_A), (1, item_B)]"
  by (simp add: animations_to_export_def example_host_def item_A_def item_B_def)

lemma example_included: "included_items example_host = [item_A, item_B]"
  by (simp add: included_items_def example_exported)

lemma example_pairs: "transition_pairs example_host = [(item_A, item_B), (item_B, item_A)]"
  by (simp add: transition_pairs_def example_exported transitions_of_def)

lemma example_ranges:
  "clip_range item_A action_A = (1, 5)" "clip_range item_B action_B = (2, 3)"
  by (simp_all add: clip_range_def item_A_def item_B_def action_A_def action_B_def py_int_def)

lemma example_frames: "clip_frames False item_A = [1, 3, 5]" "clip_frames False item_B = [2, 3]"
proof -
  have "frames_to_export False 1 5 2 = Inr [1, 3, 5]" by code_simp
  then show "clip_frames False item_A = [1, 3, 5]"
    using example_ranges(1) by (simp add: clip_frames_def item_A_def)
  have "frames_to_export False 2 3 1 = Inr [2, 3]" by code_simp
  then show "clip_frames False item_B = [2, 3]"
    using example_ranges(2) by (simp add: clip_frames_def item_B_def)
qed

lemma example_names:
  "clip_name item_A = ''A''" "clip_name item_B = ''B''"
  "transition_name (item_A, item_B) = ''A_To_B''" "transition_name (item_B, item_A) = ''B_To_A''"
  by (simp_all add: clip_name_def transition_name_def item_A_def item_B_def action_A_def
        action_B_def)

lemma example_layout:
  "layout ''unit'' False example_host =
     [(''unitRest'', 1), (''A'', 3), (''B'', 2), (''A_To_B'', 10), (''B_To_A'', 10)]"
  by (simp add: layout_def example_included example_pairs clip_entries_def transition_entries_def
        example_frames example_names)

lemma example_valid:
  "\<not> invalid_range item_A" "\<not> invalid_range item_B"
  using example_ranges by (simp_all add: invalid_range_def item_A_def item_B_def)

lemma example_assembles:
  "\<exists>h' oa st. assemble example_source ''unit'' False example_host = (h', Inr (oa, st))"
proof (rule assemble_valid)
  show "active_object example_host = Some ARMATURE" by (simp add: example_host_def)
  show "animations_to_export example_host \<noteq> []" by (simp add: example_exported)
  show "\<forall>item\<in>set (included_items example_host). False \<or> 1 \<le> item_frame_step item"
    by (simp add: example_included item_A_def item_B_def)
  show "\<forall>item\<in>set (included_items example_host). \<not> invalid_range item"
    by (simp add: example_included example_valid)
qed


lemma prefix_hd_take:
  assumes "prefix [b] bufs"
  shows "hd bufs = b \<and> take (length b) (concat bufs) = b"
proof -
  from assms obtain rest where "bufs = [b] @ rest" by (auto simp: prefix_def)
  then show ?thesis by simp
qed

text \<open>
  Claim C9.  The rest pose is the first record of every multi-export: it is named
  \<open>{unit_name}Rest\<close>, occupies the index range \<open>[0, 0]\<close>, has frame count 1 and step
  1, and its matrices, the first \<open>num_bones * 16\<close> values of the payload, are sampled
  after setting the scene to frame 0 when \<open>scene.frame_start \<le> 0\<close> and to frame 1
  otherwise.
\<close>

theorem rest_pose_record:
  assumes "assemble ps unit_name eaf h = (h', Inr (oa, st))"
  shows "hd (animation_helpers st) =
           \<lparr>helper_name = unit_name @ ''Rest'', start_idx = 0, end_idx = 0\<rparr>
       \<and> hd (frame_counts st) = 1
       \<and> hd (frame_steps st) = 1
       \<and> hd (animation_ranges st) =
           (if frame_start h \<le> 0 then (0, 0) else (1, 1))
       \<and> hd (all_matrix_data st) =
           frame_block ps (frame_set h (if frame_start h \<le> 0 then 0 else 1))
       \<and> take (length (pose_bones h) * 16) (concat (all_matrix_data st)) =
           frame_block ps (frame_set h (if frame_start h \<le> 0 then 0 else 1))
       \<and> frame_current (frame_set h (if frame_start h \<le> 0 then 0 else 1)) =
           (if frame_start h \<le> 0 then 0 else 1)"
proof -
  note a = assemble_Inr[OF assms]
  let ?b = "frame_block ps (frame_set h (rest_frame h))"
  have rf: "rest_frame h = (if frame_start h \<le> 0 then 0 else 1)" by (simp add: rest_frame_def)
  have "prefix [?b] (all_matrix_data st)" using a by blast
  then have m: "hd (all_matrix_data st) = ?b \<and> take (length ?b) (concat (all_matrix_data st)) = ?b"
    by (rule prefix_hd_take)
  have l: "length ?b = length (pose_bones h) * 16" by simp
  have m1: "hd (all_matrix_data st) = frame_block ps (frame_set h (if frame_start h \<le> 0 then 0 else 1))"
    using m rf by simp
  have m2: "take (length (pose_bones h) * 16) (concat (all_matrix_data st)) =
           frame_block ps (frame_set h (if frame_start h \<le> 0 then 0 else 1))"
    using m l rf by simp
  have r1: "hd (animation_helpers st) =
           \<lparr>helper_name = unit_name @ ''Rest'', start_idx = 0, end_idx = 0\<rparr>"
    using a by (simp add: layout_def)
  have r2: "hd (frame_counts st) = 1" using a by (simp add: layout_def)
  have r3: "hd (frame_steps st) = 1" using a by simp
  have r4: "hd (animation_ranges st) = (if frame_start h \<le> 0 then (0, 0) else (1, 1))"
    using a by (simp add: rest_frame_def)
  have r5: "frame_current (frame_set h (if frame_start h \<le> 0 then 0 else 1)) =
           (if frame_start h \<le> 0 then 0 else 1)"
    by (simp add: frame_set_def)
  show ?thesis by (intro conjI r1 r2 r3 r4 r5 m1 m2)
qed

text \<open>
  The small scene starts at frame 1, so its rest pose is sampled at frame 1.
\<close>

theorem rest_pose_record_witness:
  "\<exists>h' oa st. assemble example_source ''unit'' False example_host = (h', Inr (oa, st))
     \<and> hd (animation_helpers st) = \<lparr>helper_name = ''unitRest'', start_idx = 0, end_idx = 0\<rparr>
     \<and> hd (frame_counts st) = 1 \<and> hd (frame_steps st) = 1
     \<and> hd (animation_ranges st) = (1, 1)
     \<and> take 16 (concat (all_matrix_data st)) = frame_block example_source (frame_set example_host 1)
     \<and> frame_current (frame_set example_host 1) = 1"
proof -
  obtain h' oa st where a: "assemble example_source ''unit'' False example_host = (h', Inr (oa, st))"
    using example_assembles by blast
  have fs: "\<not> frame_start example_host \<le> 0" "length (pose_bones example_host) * 16 = 16"
    by (simp_all add: example_host_def)
  note t = rest_pose_record[OF a, simplified fs if_False]
  show ?thesis
    apply (rule exI[of _ h'], rule exI[of _ oa], rule exI[of _ st])
    using a t by simp
qed



subsection \<open>Writing the output: proofs\<close>

lemma multi_body_failed:
  "assemble ps unit_name eaf h = (h3, Inl e) \<Longrightarrow>
   multi_body ps unit_name method property_name eaf h = (h3, Inl e)"
  by (simp add: multi_body_def Let_def)

lemma multi_body_assembled:
  "assemble ps unit_name eaf h = (h3, Inr (oa, st)) \<Longrightarrow>
   multi_body ps unit_name method property_name eaf h =
     (case write_multi unit_name method property_name (length (pose_bones h)) st
             (restore_action oa h3) of
        (h4, Inl e) \<Rightarrow> (h4, Inl e)
      | (h4, Inr u) \<Rightarrow>
          (mode_set (restore_action oa (frame_set h4 (frame_current h))) OBJECT, Inr ()))"
  by (simp add: multi_body_def Let_def)

lemma write_multi_unsaved:
  "filepath h = [] \<Longrightarrow>
   write_multi unit_name BIN property_name nb st h = (h, Inl UnsavedDocumentError)"
  by (simp add: write_multi_def)

lemma write_multi_bin:
  "filepath h \<noteq> [] \<Longrightarrow>
   write_multi unit_name BIN property_name nb st h =
     (h\<lparr>files := (files h)
          (RawPath (MultiBase unit_name) \<mapsto> Binary (concat (all_matrix_data st)),
           JsPath (MultiBase unit_name) \<mapsto>
             MultiJs (descriptor unit_name nb (pose_bones h) st))\<rparr>, Inr ())"
  by (simp add: write_multi_def Let_def)

lemma write_multi_property:
  "write_multi unit_name PROPERTY property_name nb st h =
     (h\<lparr>id_props := (id_props h)
          (property_name \<mapsto> FloatList (concat (all_matrix_data st)),
           property_name @ ''_totalFrames'' \<mapsto> IntProp (total_frames st),
           property_name @ ''_numBones'' \<mapsto> IntProp (int nb),
           property_name @ ''_animationCount'' \<mapsto> IntProp (int (length (animation_helpers st))),
           property_name @ ''_frameSteps'' \<mapsto> IntListStr (frame_steps st))\<rparr>, Inr ())"
  by (simp add: write_multi_def)

lemma multi_cancelled_same_output:
  assumes "export_multiple_animations ps unit_name method property_name eaf h =
             (CANCELLED (InvalidRangeError nm), h')"
  shows "same_output h h'"
proof -
  obtain h3 r where a: "assemble ps unit_name eaf h = (h3, r)"
    by (cases "assemble ps unit_name eaf h")
  have s3: "same_output h h3" using same_output_assemble[of h ps unit_name eaf] a by simp
  show ?thesis
  proof (cases r)
    case (Inl err)
    then show ?thesis using assms a s3
      by (simp add: export_multiple_animations_def multi_body_failed)
  next
    case (Inr x)
    obtain oa st where x: "x = (oa, st)" by (cases x)
    note b = multi_body_assembled[OF a[unfolded Inr x], of "method" property_name]
    show ?thesis
    proof (cases "method")
      case BIN
      show ?thesis
      proof (cases "filepath (restore_action oa h3) = []")
        case True
        then have "h' = restore_action oa h3"
          using assms b BIN by (simp add: export_multiple_animations_def write_multi_unsaved)
        then show ?thesis using s3 by (simp add: same_output_def)
      next
        case False
        then show ?thesis using assms b BIN
          by (simp add: export_multiple_animations_def write_multi_bin)
      qed
    next
      case PROPERTY
      then show ?thesis using assms b
        by (simp add: export_multiple_animations_def write_multi_property)
    qed
  qed
qed

lemma multi_finished:
  assumes "export_multiple_animations ps unit_name method property_name eaf h = (FINISHED, h')"
  shows "\<exists>h3 oa st. assemble ps unit_name eaf h = (h3, Inr (oa, st))
      \<and> (method = BIN \<longrightarrow> filepath h \<noteq> [] \<and> id_props h' = id_props h \<and>
            files h' = (files h)
              (RawPath (MultiBase unit_name) \<mapsto> Binary (concat (all_matrix_data st)),
               JsPath (MultiBase unit_name) \<mapsto>
                 MultiJs (descriptor unit_name (length (pose_bones h)) (pose_bones h) st)))
      \<and> (method = PROPERTY \<longrightarrow> files h' = files h \<and>
            id_props h' = (id_props h)
              (property_name \<mapsto> FloatList (concat (all_matrix_data st)),
               property_name @ ''_totalFrames'' \<mapsto> IntProp (total_frames st),
               property_name @ ''_numBones'' \<mapsto> IntProp (int (length (pose_bones h))),
               property_name @ ''_animationCount'' \<mapsto>
                 IntProp (int (length (animation_helpers st))),
               property_name @ ''_frameSteps'' \<mapsto> IntListStr (frame_steps st)))"
proof -
  obtain h3 r where a: "assemble ps unit_name eaf h = (h3, r)"
    by (cases "assemble ps unit_name eaf h")
  have s3: "same_output h h3" using same_output_assemble[of h ps unit_name eaf] a by simp
  show ?thesis
  proof (cases r)
    case (Inl err)
    then show ?thesis using assms a
      by (simp add: export_multiple_animations_def multi_body_failed)
  next
    case (Inr x)
    obtain oa st where x: "x = (oa, st)" by (cases x)
    note a' = a[unfolded Inr x]
    note b = multi_body_assembled[OF a', of "method" property_name]
    have pb: "pose_bones h3 = pose_bones h" using assemble_Inr[OF a'] by simp
    show ?thesis
    proof (cases "method")
      case BIN
      show ?thesis
      proof (cases "filepath (restore_action oa h3) = []")
        case True
        then show ?thesis
          using assms b BIN by (simp add: export_multiple_animations_def write_multi_unsaved)
      next
        case False
        then have "h' = mode_set (restore_action oa (frame_set
            ((restore_action oa h3)\<lparr>files := (files (restore_action oa h3))
              (RawPath (MultiBase unit_name) \<mapsto> Binary (concat (all_matrix_data st)),
               JsPath (MultiBase unit_name) \<mapsto>
                 MultiJs (descriptor unit_name (length (pose_bones h)) (pose_bones (restore_action oa h3)) st))\<rparr>)
            (frame_current h))) OBJECT"
          using assms b BIN by (simp add: export_multiple_animations_def write_multi_bin)
        then have "files h' = (files h)
              (RawPath (MultiBase unit_name) \<mapsto> Binary (concat (all_matrix_data st)),
               JsPath (MultiBase unit_name) \<mapsto>
                 MultiJs (descriptor unit_name (length (pose_bones h)) (pose_bones h) st))"
          and "id_props h' = id_props h"
          using s3 pb by (simp_all add: same_output_def restore_action_def set_action_def)
        moreover have "filepath h \<noteq> []" using False s3 by (simp add: same_output_def)
        ultimately show ?thesis using a' BIN by simp
      qed
    next
      case PROPERTY
      then have "h' = mode_set (restore_action oa (frame_set
            ((restore_action oa h3)\<lparr>id_props := (id_props (restore_action oa h3))
              (property_name \<mapsto> FloatList (concat (all_matrix_data st)),
               property_name @ ''_totalFrames'' \<mapsto> IntProp (total_frames st),
               property_name @ ''_numBones'' \<mapsto> IntProp (int (length (pose_bones h))),
               property_name @ ''_animationCount'' \<mapsto>
                 IntProp (int (length (animation_helpers st))),
               property_name @ ''_frameSteps'' \<mapsto> IntListStr (frame_steps st))\<rparr>)
            (frame_current h))) OBJECT"
        using assms b by (simp add: export_multiple_animations_def write_multi_property)
      then have "id_props h' = (id_props h)
              (property_name \<mapsto> FloatList (concat (all_matrix_data st)),
               property_name @ ''_totalFrames'' \<mapsto> IntProp (total_frames st),
               property_name @ ''_numBones'' \<mapsto> IntProp (int (length (pose_bones h))),
               property_name @ ''_animationCount'' \<mapsto>
                 IntProp (int (length (animation_helpers st))),
               property_name @ ''_frameSteps'' \<mapsto> IntListStr (frame_steps st))"
        and "files h' = files h"
        using s3 by (simp_all add: same_output_def)
      then show ?thesis using a' PROPERTY by simp
    qed
  qed
qed

lemma single_body_not_ready:
  assumes "\<not> single_ready animation_name use_custom_name ufr h"
  shows "fst (single_body ps animation_name use_custom_name start_opt end_opt k eaf ufr
                method property_name h) = h
       \<and> (\<forall>nm. snd (single_body ps animation_name use_custom_name start_opt end_opt k eaf ufr
                method property_name h) \<noteq> Inl (InvalidRangeError nm))
       \<and> (\<exists>e. snd (single_body ps animation_name use_custom_name start_opt end_opt k eaf ufr
                method property_name h) = Inl e)"
  using assms unfolding single_body_def single_ready_def
  by (auto simp: Let_def)

lemma single_body_invalid:
  assumes "single_ready animation_name use_custom_name ufr h"
    and "single_range ufr start_opt end_opt h = (s, e)" and "s > e"
  shows "single_body ps animation_name use_custom_name start_opt end_opt k eaf ufr
           method property_name h = (h, Inl (InvalidRangeError []))"
  using assms unfolding single_body_def single_ready_def single_range_def
  by (auto simp: Let_def split: if_splits)

lemma single_body_sampler_error:
  assumes "single_ready animation_name use_custom_name ufr h"
    and "single_range ufr start_opt end_opt h = (s, e)" and "s \<le> e"
    and "frames_to_export eaf s e k = Inl err"
  shows "single_body ps animation_name use_custom_name start_opt end_opt k eaf ufr
           method property_name h = (h, Inl err)"
  using assms unfolding single_body_def single_ready_def single_range_def
  by (auto simp: Let_def split: if_splits)

lemma single_body_sampled:
  assumes "single_ready animation_name use_custom_name ufr h"
    and "single_range ufr start_opt end_opt h = (s, e)" and "s \<le> e"
    and "frames_to_export eaf s e k = Inr frames"
  shows "single_body ps animation_name use_custom_name start_opt end_opt k eaf ufr
           method property_name h =
     (case method of
        BIN \<Rightarrow>
          if filepath h = [] then (frames_set h frames, Inl UnsavedDocumentError)
          else
           (mode_set (frame_set
              ((frames_set h frames)\<lparr>files := (files h)
                 (RawPath (SingleBase (single_name animation_name use_custom_name h) s e
                             (int (length frames)) (if eaf then None else Some k))
                    \<mapsto> Binary (packed_frames ps h frames),
                  JsPath (SingleBase (single_name animation_name use_custom_name h) s e
                             (int (length frames)) (if eaf then None else Some k))
                    \<mapsto> SingleJs
                         \<lparr>s_name = single_name animation_name use_custom_name h,
                          s_numBones = length (pose_bones h),
                          s_numFrames = int (length frames), s_startFrame = s,
                          s_endFrame = e, s_frameStep = k,
                          s_exportAllFrames = eaf,
                          s_boneNames = pose_bones h,
                          s_setup_call = (0, int (length frames) - 1)\<rparr>)\<rparr>)
              (frame_current h)) OBJECT, Inr ())
      | PROPERTY \<Rightarrow>
          (mode_set (frame_set
             ((frames_set h frames)\<lparr>id_props := (id_props h)
                (property_name \<mapsto> FloatList (packed_frames ps h frames),
                 property_name @ ''_numFrames'' \<mapsto> IntProp (int (length frames)),
                 property_name @ ''_numBones'' \<mapsto> IntProp (int (length (pose_bones h))))\<rparr>)
             (frame_current h)) OBJECT, Inr ()))"
proof -
  have b: "bake_frames ps (length (pose_bones h)) frames h =
           (frames_set h frames, packed_frames ps h frames)"
    by (rule bake_frames_packed) simp
  have r1: "(if ufr then 1 else case start_opt of None \<Rightarrow> frame_start h | Some s \<Rightarrow> s) = s"
    and r2: "(if ufr then case active_action h of None \<Rightarrow> 0 | Some a \<Rightarrow> py_int (snd (frame_range a))
              else case end_opt of None \<Rightarrow> frame_end h | Some e \<Rightarrow> e) = e"
    using assms(2) by (auto simp: single_range_def split: if_splits)
  have le: "\<not> e < s" using assms(3) by simp
  have rd: "active_object h = Some ARMATURE"
    "\<not> ((use_custom_name \<or> (case active_action h of None \<Rightarrow> [] | Some a \<Rightarrow> action_name a) = [])
            \<and> animation_name = [])"
    "\<not> (ufr \<and> active_action h = None)"
    using assms(1) by (simp_all add: single_ready_def)
  show ?thesis
    unfolding single_body_def Let_def single_name_def
    by (cases "method") (simp_all add: rd r1 r2 le assms(4) b)
qed

lemma multi_status:
  assumes "assemble ps unit_name eaf h = (h3, Inr (oa, st))"
  shows "fst (export_multiple_animations ps unit_name method property_name eaf h) =
           (if method = BIN \<and> filepath h = [] then CANCELLED UnsavedDocumentError else FINISHED)"
proof -
  note b = multi_body_assembled[OF assms, of "method" property_name]
  have "same_output h h3" using same_output_assemble[of h ps unit_name eaf] assms by simp
  then have fp: "filepath (restore_action oa h3) = filepath h" by (simp add: same_output_def)
  show ?thesis
  proof (cases "method")
    case BIN
    show ?thesis
    proof (cases "filepath h = []")
      case True
      then show ?thesis using b BIN fp
        by (simp add: export_multiple_animations_def write_multi_unsaved)
    next
      case False
      then show ?thesis using b BIN fp
        by (simp add: export_multiple_animations_def write_multi_bin)
    qed
  next
    case PROPERTY
    then show ?thesis using b
      by (simp add: export_multiple_animations_def write_multi_property)
  qed
qed

lemma records_start_ge:
  "\<forall>x\<in>set xs. 0 \<le> snd x \<Longrightarrow> k < length xs \<Longrightarrow> t \<le> start_idx (records t xs ! k)"
proof (induction xs arbitrary: t k)
  case Nil
  then show ?case by simp
next
  case (Cons x xs)
  obtain nm c where x: "x = (nm, c)" by (cases x)
  show ?case
  proof (cases k)
    case 0
    then show ?thesis by (simp add: x)
  next
    case (Suc j)
    then have "t + c \<le> start_idx (records (t + c) xs ! j)"
      using Cons.IH[of j "t + c"] Cons.prems by simp
    then show ?thesis using Cons.prems(1) Suc by (simp add: x)
  qed
qed

lemma records_nth_size:
  "k < length xs \<Longrightarrow> end_idx (records t xs ! k) - start_idx (records t xs ! k) + 1 = snd (xs ! k)"
proof (induction xs arbitrary: t k)
  case Nil
  then show ?case by simp
next
  case (Cons x xs)
  obtain nm c where x: "x = (nm, c)" by (cases x)
  show ?case
  proof (cases k)
    case 0
    then show ?thesis by (simp add: x)
  next
    case (Suc j)
    then show ?thesis using Cons.IH[of j "t + c"] Cons.prems by (simp add: x)
  qed
qed

lemma concat_slice:
  assumes "map length bufs = map (\<lambda>x. nat (snd x) * B) xs"
    and "\<forall>x\<in>set xs. 0 \<le> snd x" and "k < length xs"
  shows "take (nat (snd (xs ! k)) * B)
           (drop (nat (start_idx (records t xs ! k) - t) * B) (concat bufs)) = bufs ! k"
  using assms
proof (induction xs arbitrary: bufs k t)
  case Nil
  then show ?case by simp
next
  case (Cons x xs)
  obtain nm c where x: "x = (nm, c)" by (cases x)
  from Cons.prems(1) obtain b bs where bufs: "bufs = b # bs" by (cases bufs) auto
  have lb: "length b = nat c * B" and lbs: "map length bs = map (\<lambda>x. nat (snd x) * B) xs"
    using Cons.prems(1) by (simp_all add: bufs x)
  have c0: "0 \<le> c" using Cons.prems(2) by (simp add: x)
  show ?case
  proof (cases k)
    case 0
    then show ?thesis by (simp add: x bufs lb)
  next
    case (Suc j)
    have j: "j < length xs" using Cons.prems(3) Suc by simp
    have pos: "\<forall>x\<in>set xs. 0 \<le> snd x" using Cons.prems(2) by simp
    let ?s = "start_idx (records (t + c) xs ! j)"
    have ge: "t + c \<le> ?s" using records_start_ge[OF pos j] .
    have "nat (?s - t) = nat c + nat (?s - (t + c))" using ge c0 by linarith
    then have d: "nat (?s - t) * B = length b + nat (?s - (t + c)) * B"
      by (simp add: lb algebra_simps)
    have "take (nat (snd (xs ! j)) * B) (drop (nat (?s - (t + c)) * B) (concat bs)) = bs ! j"
      using Cons.IH[OF lbs pos j] .
    then show ?thesis by (simp add: Suc x bufs d)
  qed
qed

lemma layout_nonneg: "\<forall>x\<in>set (layout unit_name eaf h). 0 \<le> snd x"
  by (auto simp: layout_def clip_entries_def transition_entries_def)

lemma multi_payload:
  assumes "assemble ps unit_name eaf h = (h3, Inr (oa, st))"
  shows "length (concat (all_matrix_data st)) = nat (total_frames st) * length (pose_bones h) * 16"
    and "map length (all_matrix_data st) =
           (1 * length (pose_bones h) * 16) #
           map (\<lambda>item. length (clip_frames eaf item) * length (pose_bones h) * 16) (included_items h) @
           map (\<lambda>pair. 10 * length (pose_bones h) * 16) (transition_pairs h)"
    and "\<forall>k<length (animation_helpers st).
           take (nat (end_idx (animation_helpers st ! k) - start_idx (animation_helpers st ! k) + 1)
                   * (length (pose_bones h) * 16))
             (drop (nat (start_idx (animation_helpers st ! k)) * (length (pose_bones h) * 16))
                (concat (all_matrix_data st)))
           = all_matrix_data st ! k"
    and "length (all_matrix_data st) = length (animation_helpers st)"
proof -
  let ?nb = "length (pose_bones h)"
  let ?xs = "layout unit_name eaf h"
  note a = assemble_Inr[OF assms]
  have rs: "animation_helpers st = records 0 ?xs" using a by simp
  have tf: "total_frames st = sum_list (map snd ?xs)" using a by simp
  have ml: "map length (all_matrix_data st) = map (\<lambda>(nm, c). nat c * ?nb * 16) ?xs"
    using a by simp
  then have ml': "map length (all_matrix_data st) = map (\<lambda>x. nat (snd x) * (?nb * 16)) ?xs"
    by (simp add: case_prod_beta mult.assoc)
  have nn: "\<forall>x\<in>set ?xs. 0 \<le> snd x" by (rule layout_nonneg)
  have "sum_list (map (\<lambda>x. nat (snd x) * (?nb * 16)) zs) = nat (sum_list (map snd zs)) * (?nb * 16)"
    if "\<forall>x\<in>set zs. 0 \<le> snd x" for zs :: "(string \<times> int) list"
    using that
  proof (induction zs)
    case Nil
    then show ?case by simp
  next
    case (Cons z zs)
    then have "0 \<le> snd z" by simp
    moreover have "0 \<le> sum_list (map snd zs)"
      using Cons.prems by (intro sum_list_nonneg) auto
    ultimately have "0 \<le> snd z" "0 \<le> sum_list (map snd zs)" by simp_all
    then show ?case using Cons by (simp add: nat_add_distrib algebra_simps)
  qed
  then have "sum_list (map length (all_matrix_data st)) = nat (total_frames st) * (?nb * 16)"
    using nn ml' tf by simp
  then show "length (concat (all_matrix_data st)) = nat (total_frames st) * ?nb * 16"
    by (simp add: length_concat mult.assoc)
  show "map length (all_matrix_data st) =
           (1 * ?nb * 16) #
           map (\<lambda>item. length (clip_frames eaf item) * ?nb * 16) (included_items h) @
           map (\<lambda>pair. 10 * ?nb * 16) (transition_pairs h)"
    using ml by (simp add: layout_def clip_entries_def transition_entries_def o_def)
  show "length (all_matrix_data st) = length (animation_helpers st)"
    using ml rs by (metis length_map length_records)
  show "\<forall>k<length (animation_helpers st).
           take (nat (end_idx (animation_helpers st ! k) - start_idx (animation_helpers st ! k) + 1)
                   * (?nb * 16))
             (drop (nat (start_idx (animation_helpers st ! k)) * (?nb * 16))
                (concat (all_matrix_data st)))
           = all_matrix_data st ! k"
  proof (intro allI impI)
    fix k assume "k < length (animation_helpers st)"
    then have k: "k < length ?xs" using rs by simp
    have "take (nat (snd (?xs ! k)) * (?nb * 16))
           (drop (nat (start_idx (records 0 ?xs ! k) - 0) * (?nb * 16)) (concat (all_matrix_data st)))
          = all_matrix_data st ! k"
      using ml' nn k by (rule concat_slice)
    then show "take (nat (end_idx (animation_helpers st ! k) - start_idx (animation_helpers st ! k) + 1)
                   * (?nb * 16))
             (drop (nat (start_idx (animation_helpers st ! k)) * (?nb * 16))
                (concat (all_matrix_data st)))
           = all_matrix_data st ! k"
      using records_nth_size[OF k, of 0] by (simp add: rs)
  qed
qed

lemma single_finished:
  assumes "export_animation_frames_raw ps animation_name use_custom_name start_opt end_opt k eaf
             ufr method property_name h = (FINISHED, h')"
  shows "single_ready animation_name use_custom_name ufr h
       \<and> fst (single_range ufr start_opt end_opt h) \<le> snd (single_range ufr start_opt end_opt h)
       \<and> (\<exists>frames.
            frames_to_export eaf (fst (single_range ufr start_opt end_opt h))
              (snd (single_range ufr start_opt end_opt h)) k = Inr frames
          \<and> (method = BIN \<longrightarrow>
                files h' (RawPath (SingleBase (single_name animation_name use_custom_name h)
                            (fst (single_range ufr start_opt end_opt h))
                            (snd (single_range ufr start_opt end_opt h))
                            (int (length frames)) (if eaf then None else Some k)))
                  = Some (Binary (packed_frames ps h frames)))
          \<and> (method = PROPERTY \<longrightarrow>
                id_props h' property_name = Some (FloatList (packed_frames ps h frames))
              \<and> id_props h' (property_name @ ''_numFrames'') = Some (IntProp (int (length frames)))
              \<and> id_props h' (property_name @ ''_numBones'') =
                  Some (IntProp (int (length (pose_bones h))))))"
proof -
  let ?b = "single_body ps animation_name use_custom_name start_opt end_opt k eaf ufr
              method property_name h"
  from assms have ok: "\<exists>u. snd ?b = Inr u" and h': "h' = fst ?b"
    by (auto simp: export_animation_frames_raw_def split: prod.splits sum.splits)
  have rd: "single_ready animation_name use_custom_name ufr h"
    using single_body_not_ready[of animation_name use_custom_name ufr h ps start_opt end_opt k eaf
            "method" property_name] ok by auto
  obtain s e where r: "single_range ufr start_opt end_opt h = (s, e)"
    by (cases "single_range ufr start_opt end_opt h")
  have le: "s \<le> e"
  proof (rule ccontr)
    assume "\<not> s \<le> e"
    then have "e < s" by simp
    then have "?b = (h, Inl (InvalidRangeError []))"
      by (rule single_body_invalid[OF rd r])
    then show False using ok by simp
  qed
  obtain frames where fr: "frames_to_export eaf s e k = Inr frames"
  proof (cases "frames_to_export eaf s e k")
    case (Inl err)
    have "?b = (h, Inl err)" by (rule single_body_sampler_error[OF rd r le Inl])
    then show ?thesis using ok by simp
  next
    case (Inr frames)
    then show ?thesis using that by blast
  qed
  note sb = single_body_sampled[OF rd r le fr, of ps "method" property_name]
  have bin: "files h' (RawPath (SingleBase (single_name animation_name use_custom_name h) s e
                            (int (length frames)) (if eaf then None else Some k)))
                  = Some (Binary (packed_frames ps h frames))" if "method = BIN"
  proof (cases "filepath h = []")
    case True
    then show ?thesis using sb that ok by simp
  next
    case False
    then show ?thesis using sb that h' by (simp add: mode_set_def frame_set_def)
  qed
  have prp: "id_props h' property_name = Some (FloatList (packed_frames ps h frames))
              \<and> id_props h' (property_name @ ''_numFrames'') = Some (IntProp (int (length frames)))
              \<and> id_props h' (property_name @ ''_numBones'') =
                  Some (IntProp (int (length (pose_bones h))))" if "method = PROPERTY"
    using sb that h' by (simp add: mode_set_def frame_set_def)
  show ?thesis using rd le fr bin prp by (simp add: r)
qed

text \<open>
  Claim C7.  A finished multi-export writes, to the binary file or to the custom property,
  the concatenation of the clips' buffers, \<open>total_frames * num_bones * 16\<close> values long.
  There is one buffer per clip record; the rest pose's holds \<open>1 * num_bones * 16\<close>
  values, a main clip's as many as its frame index sequence has frames, times
  \<open>num_bones * 16\<close>, and a transition's \<open>10 * num_bones * 16\<close>; and the slice of the
  payload that a record's index range \<open>[start_idx, end_idx]\<close> denotes is that clip's
  buffer.  A finished single export writes the buffer of its frame index sequence,
  \<open>len(frames) * num_bones * 16\<close> values long.
\<close>

theorem payload_length:
  "(export_multiple_animations ps unit_name method property_name eaf h = (FINISHED, h') \<longrightarrow>
      (\<exists>h3 oa st. assemble ps unit_name eaf h = (h3, Inr (oa, st))
         \<and> (method = BIN \<longrightarrow>
               files h' (RawPath (MultiBase unit_name)) = Some (Binary (concat (all_matrix_data st))))
         \<and> (method = PROPERTY \<longrightarrow>
               id_props h' property_name = Some (FloatList (concat (all_matrix_data st))))
         \<and> length (concat (all_matrix_data st)) =
             nat (total_frames st) * length (pose_bones h) * 16
         \<and> length (all_matrix_data st) = length (animation_helpers st)
         \<and> map length (all_matrix_data st) =
             (1 * length (pose_bones h) * 16) #
             map (\<lambda>item. length (clip_frames eaf item) * length (pose_bones h) * 16)
               (included_items h) @
             map (\<lambda>pair. 10 * length (pose_bones h) * 16) (transition_pairs h)
         \<and> (\<forall>k<length (animation_helpers st).
               take (nat (end_idx (animation_helpers st ! k)
                          - start_idx (animation_helpers st ! k) + 1)
                       * (length (pose_bones h) * 16))
                 (drop (nat (start_idx (animation_helpers st ! k)) * (length (pose_bones h) * 16))
                    (concat (all_matrix_data st)))
               = all_matrix_data st ! k)))
   \<and> (export_animation_frames_raw ps animation_name use_custom_name start_opt end_opt k eaf'
         ufr method' property_name' g = (FINISHED, g') \<longrightarrow>
      (\<exists>frames.
          frames_to_export eaf' (fst (single_range ufr start_opt end_opt g))
            (snd (single_range ufr start_opt end_opt g)) k = Inr frames
        \<and> (method' = BIN \<longrightarrow>
              files g' (RawPath (SingleBase (single_name animation_name use_custom_name g)
                          (fst (single_range ufr start_opt end_opt g))
                          (snd (single_range ufr start_opt end_opt g))
                          (int (length frames)) (if eaf' then None else Some k)))
                = Some (Binary (packed_frames ps g frames)))
        \<and> (method' = PROPERTY \<longrightarrow>
              id_props g' property_name' = Some (FloatList (packed_frames ps g frames)))
        \<and> length (packed_frames ps g frames) = length frames * length (pose_bones g) * 16))"
proof (intro conjI impI)
  assume f: "export_multiple_animations ps unit_name method property_name eaf h = (FINISHED, h')"
  from multi_finished[OF f] obtain h3 oa st where
    a: "assemble ps unit_name eaf h = (h3, Inr (oa, st))"
    and bin: "method = BIN \<longrightarrow> files h' = (files h)
              (RawPath (MultiBase unit_name) \<mapsto> Binary (concat (all_matrix_data st)),
               JsPath (MultiBase unit_name) \<mapsto>
                 MultiJs (descriptor unit_name (length (pose_bones h)) (pose_bones h) st))"
    and prp: "method = PROPERTY \<longrightarrow> id_props h' = (id_props h)
              (property_name \<mapsto> FloatList (concat (all_matrix_data st)),
               property_name @ ''_totalFrames'' \<mapsto> IntProp (total_frames st),
               property_name @ ''_numBones'' \<mapsto> IntProp (int (length (pose_bones h))),
               property_name @ ''_animationCount'' \<mapsto>
                 IntProp (int (length (animation_helpers st))),
               property_name @ ''_frameSteps'' \<mapsto> IntListStr (frame_steps st))"
    by blast
  have b1: "method = BIN \<longrightarrow>
               files h' (RawPath (MultiBase unit_name)) = Some (Binary (concat (all_matrix_data st)))"
    using bin by simp
  have b2: "method = PROPERTY \<longrightarrow>
               id_props h' property_name = Some (FloatList (concat (all_matrix_data st)))"
    using prp by simp
  note p = multi_payload[OF a]
  show "\<exists>h3 oa st. assemble ps unit_name eaf h = (h3, Inr (oa, st))
         \<and> (method = BIN \<longrightarrow>
               files h' (RawPath (MultiBase unit_name)) = Some (Binary (concat (all_matrix_data st))))
         \<and> (method = PROPERTY \<longrightarrow>
               id_props h' property_name = Some (FloatList (concat (all_matrix_data st))))
         \<and> length (concat (all_matrix_data st)) =
             nat (total_frames st) * length (pose_bones h) * 16
         \<and> length (all_matrix_data st) = length (animation_helpers st)
         \<and> map length (all_matrix_data st) =
             (1 * length (pose_bones h) * 16) #
             map (\<lambda>item. length (clip_frames eaf item) * length (pose_bones h) * 16)
               (included_items h) @
             map (\<lambda>pair. 10 * length (pose_bones h) * 16) (transition_pairs h)
         \<and> (\<forall>k<length (animation_helpers st).
               take (nat (end_idx (animation_helpers st ! k)
                          - start_idx (animation_helpers st ! k) + 1)
                       * (length (pose_bones h) * 16))
                 (drop (nat (start_idx (animation_helpers st ! k)) * (length (pose_bones h) * 16))
                    (concat (all_matrix_data st)))
               = all_matrix_data st ! k)"
    by (intro exI[of _ h3] exI[of _ oa] exI[of _ st] conjI a b1 b2 p)
next
  assume f: "export_animation_frames_raw ps animation_name use_custom_name start_opt end_opt k eaf'
         ufr method' property_name' g = (FINISHED, g')"
  from single_finished[OF f] obtain frames where
    fr: "frames_to_export eaf' (fst (single_range ufr start_opt end_opt g))
            (snd (single_range ufr start_opt end_opt g)) k = Inr frames"
    and bin: "method' = BIN \<longrightarrow>
              files g' (RawPath (SingleBase (single_name animation_name use_custom_name g)
                          (fst (single_range ufr start_opt end_opt g))
                          (snd (single_range ufr start_opt end_opt g))
                          (int (length frames)) (if eaf' then None else Some k)))
                = Some (Binary (packed_frames ps g frames))"
    and prp: "method' = PROPERTY \<longrightarrow>
              id_props g' property_name' = Some (FloatList (packed_frames ps g frames))"
    by blast
  have l: "length (packed_frames ps g frames) = length frames * length (pose_bones g) * 16"
    by simp
  show "\<exists>frames.
          frames_to_export eaf' (fst (single_range ufr start_opt end_opt g))
            (snd (single_range ufr start_opt end_opt g)) k = Inr frames
        \<and> (method' = BIN \<longrightarrow>
              files g' (RawPath (SingleBase (single_name animation_name use_custom_name g)
                          (fst (single_range ufr start_opt end_opt g))
                          (snd (single_range ufr start_opt end_opt g))
                          (int (length frames)) (if eaf' then None else Some k)))
                = Some (Binary (packed_frames ps g frames)))
        \<and> (method' = PROPERTY \<longrightarrow>
              id_props g' property_name' = Some (FloatList (packed_frames ps g frames)))
        \<and> length (packed_frames ps g frames) = length frames * length (pose_bones g) * 16"
    by (intro exI[of _ frames] conjI fr bin prp l)
qed

lemma single_status:
  assumes "single_ready animation_name use_custom_name ufr h"
    and "single_range ufr start_opt end_opt h = (s, e)" and "s \<le> e"
    and "frames_to_export eaf s e k = Inr frames"
  shows "fst (export_animation_frames_raw ps animation_name use_custom_name start_opt end_opt k eaf
             ufr method property_name h) =
           (if method = BIN \<and> filepath h = [] then CANCELLED UnsavedDocumentError else FINISHED)"
  using single_body_sampled[OF assms, of ps "method" property_name]
  by (cases "method") (simp_all add: export_animation_frames_raw_def)

lemma example_single:
  "single_ready ''walk'' True False example_host"
  "single_range False (Some 1) (Some 3) example_host = (1, 3)"
  "single_name ''walk'' True example_host = ''walk''"
  "frames_to_export False 1 3 1 = Inr [1, 2, 3]"
proof -
  show "single_ready ''walk'' True False example_host"
    by (simp add: single_ready_def example_host_def)
  show "single_range False (Some 1) (Some 3) example_host = (1, 3)"
    by (simp add: single_range_def)
  show "single_name ''walk'' True example_host = ''walk''"
    by (simp add: single_name_def)
  show "frames_to_export False 1 3 1 = Inr [1, 2, 3]" by code_simp
qed

text \<open>
  The small scene: 26 frames of one bone in the multi-export, 3 frames in a single export
  of the frames 1 to 3.
\<close>

theorem payload_length_witness:
  "(\<exists>h'. export_multiple_animations example_source ''unit'' BIN ''p'' False example_host
            = (FINISHED, h')
        \<and> (\<exists>payload. files h' (RawPath (MultiBase ''unit'')) = Some (Binary payload)
                     \<and> length payload = 26 * 1 * 16))
   \<and> (\<exists>g'. export_animation_frames_raw example_source ''walk'' True (Some 1) (Some 3) 1 False
              False BIN ''p'' example_host = (FINISHED, g')
        \<and> (\<exists>payload. files g' (RawPath (SingleBase ''walk'' 1 3 3 (Some 1))) = Some (Binary payload)
                     \<and> length payload = 3 * 1 * 16))"
proof
  obtain h3 oa st where a: "assemble example_source ''unit'' False example_host = (h3, Inr (oa, st))"
    using example_assembles by blast
  have fp: "filepath example_host \<noteq> []" by (simp add: example_host_def)
  have nb: "length (pose_bones example_host) = 1" by (simp add: example_host_def)
  have "fst (export_multiple_animations example_source ''unit'' BIN ''p'' False example_host) = FINISHED"
    using multi_status[OF a, of BIN "''p''"] fp by simp
  then obtain h' where f: "export_multiple_animations example_source ''unit'' BIN ''p'' False
      example_host = (FINISHED, h')"
    by (cases "export_multiple_animations example_source ''unit'' BIN ''p'' False example_host") auto
  from payload_length[THEN conjunct1, rule_format, OF f]
  obtain h3' oa' st' where
    a': "assemble example_source ''unit'' False example_host = (h3', Inr (oa', st'))"
    and w: "files h' (RawPath (MultiBase ''unit'')) = Some (Binary (concat (all_matrix_data st')))"
    and l: "length (concat (all_matrix_data st')) =
             nat (total_frames st') * length (pose_bones example_host) * 16"
    by blast
  have "total_frames st' = 26" using assemble_Inr[OF a'] by (simp add: example_layout)
  then have "length (concat (all_matrix_data st')) = 26 * 1 * 16" using l nb by simp
  then show "\<exists>h'. export_multiple_animations example_source ''unit'' BIN ''p'' False example_host
            = (FINISHED, h')
        \<and> (\<exists>payload. files h' (RawPath (MultiBase ''unit'')) = Some (Binary payload)
                     \<and> length payload = 26 * 1 * 16)"
    using f w by blast
next
  have fp: "filepath example_host \<noteq> []" by (simp add: example_host_def)
  have nb: "length (pose_bones example_host) = 1" by (simp add: example_host_def)
  have "fst (export_animation_frames_raw example_source ''walk'' True (Some 1) (Some 3) 1 False
              False BIN ''p'' example_host) = FINISHED"
    using single_status[OF example_single(1,2) _ example_single(4), of example_source BIN "''p''"] fp
    by simp
  then obtain g' where f: "export_animation_frames_raw example_source ''walk'' True (Some 1) (Some 3)
      1 False False BIN ''p'' example_host = (FINISHED, g')"
    by (cases "export_animation_frames_raw example_source ''walk'' True (Some 1) (Some 3)
      1 False False BIN ''p'' example_host") auto
  from payload_length[THEN conjunct2, rule_format, OF f]
  obtain frames where
    fr: "frames_to_export False (fst (single_range False (Some 1) (Some 3) example_host))
            (snd (single_range False (Some 1) (Some 3) example_host)) 1 = Inr frames"
    and w: "files g' (RawPath (SingleBase (single_name ''walk'' True example_host)
                          (fst (single_range False (Some 1) (Some 3) example_host))
                          (snd (single_range False (Some 1) (Some 3) example_host))
                          (int (length frames)) (if False then None else Some 1)))
                = Some (Binary (packed_frames example_source example_host frames))"
    and l: "length (packed_frames example_source example_host frames) =
              length frames * length (pose_bones example_host) * 16"
    by blast
  have frames: "frames = [1, 2, 3]" using fr by (simp add: example_single)
  have "files g' (RawPath (SingleBase ''walk'' 1 3 3 (Some 1)))
          = Some (Binary (packed_frames example_source example_host frames))"
    using w by (simp add: example_single frames)
  moreover have "length (packed_frames example_source example_host frames) = 3 * 1 * 16"
    using l nb by (simp only: frames) simp
  ultimately show "\<exists>g'. export_animation_frames_raw example_source ''walk'' True (Some 1) (Some 3) 1
              False False BIN ''p'' example_host = (FINISHED, g')
        \<and> (\<exists>payload. files g' (RawPath (SingleBase ''walk'' 1 3 3 (Some 1))) = Some (Binary payload)
                     \<and> length payload = 3 * 1 * 16)"
    using f by blast
qed

subsection \<open>Failures: proofs\<close>

lemma frames_to_export_errors:
  "frames_to_export eaf s e k = Inl err \<Longrightarrow> err = ValueError \<or> err = IndexError"
  by (auto simp: frames_to_export_def Let_def split: if_splits)

lemma export_clip_range_error_iff:
  assumes "item_action item \<noteq> None"
  shows "(\<exists>nm. snd (export_clip ps eaf nb item (h, st)) = Inl (InvalidRangeError nm))
           \<longleftrightarrow> invalid_range item"
proof -
  from assms obtain act where act: "item_action item = Some act" by auto
  show ?thesis
  proof (cases "invalid_range item")
    case True
    then show ?thesis using export_clip_invalid[OF act True, of ps eaf nb h st] by simp
  next
    case False
    then show ?thesis using export_clip_valid[OF act False, of ps eaf nb h st] by blast
  qed
qed

lemma synth_transition_no_range_error:
  "snd (synth_transition ps nb pair (h, st)) \<noteq> Inl (InvalidRangeError nm)"
proof -
  obtain src dst where p: "pair = (src, dst)" by (cases pair)
  show ?thesis
  proof (cases "item_action src = None \<or> item_action dst = None")
    case True
    then show ?thesis by (auto simp: synth_transition_def p split: option.split)
  next
    case False
    then obtain st' where "snd (synth_transition ps nb (src, dst) (h, st)) = Inr st'"
      using synth_transition_never_fails[of src dst ps nb h st] by blast
    then show ?thesis by (simp add: p)
  qed
qed

lemma multi_range_error_iff:
  assumes "\<forall>item\<in>set (included_items h). eaf \<or> 1 \<le> item_frame_step item"
  shows "(\<exists>nm. fst (export_multiple_animations ps unit_name method property_name eaf h)
               = CANCELLED (InvalidRangeError nm))
         \<longleftrightarrow> (active_object h = Some ARMATURE \<and> (\<exists>item\<in>set (included_items h). invalid_range item))"
proof
  assume "active_object h = Some ARMATURE \<and> (\<exists>item\<in>set (included_items h). invalid_range item)"
  then obtain nm where "snd (assemble ps unit_name eaf h) = Inl (InvalidRangeError nm)"
    using assemble_invalid[OF _ assms, of ps unit_name] by blast
  then obtain h3 where "assemble ps unit_name eaf h = (h3, Inl (InvalidRangeError nm))"
    by (cases "assemble ps unit_name eaf h") auto
  then have "export_multiple_animations ps unit_name method property_name eaf h
               = (CANCELLED (InvalidRangeError nm), h3)"
    by (simp add: export_multiple_animations_def multi_body_failed)
  then show "\<exists>nm. fst (export_multiple_animations ps unit_name method property_name eaf h)
               = CANCELLED (InvalidRangeError nm)"
    by simp
next
  assume "\<exists>nm. fst (export_multiple_animations ps unit_name method property_name eaf h)
               = CANCELLED (InvalidRangeError nm)"
  then obtain nm where c: "fst (export_multiple_animations ps unit_name method property_name eaf h)
               = CANCELLED (InvalidRangeError nm)" by blast
  obtain h3 r where a: "assemble ps unit_name eaf h = (h3, r)"
    by (cases "assemble ps unit_name eaf h")
  show "active_object h = Some ARMATURE \<and> (\<exists>item\<in>set (included_items h). invalid_range item)"
  proof (cases r)
    case (Inl err)
    then have "err = InvalidRangeError nm"
      using c a by (simp add: export_multiple_animations_def multi_body_failed)
    then have s: "snd (assemble ps unit_name eaf h) = Inl (InvalidRangeError nm)"
      using a Inl by simp
    have "\<exists>item\<in>set (included_items h). invalid_range item"
      using assemble_not_range_error[of h ps unit_name eaf nm] s by blast
    moreover have "active_object h = Some ARMATURE"
      using s by (auto simp: assemble_def split: if_splits)
    ultimately show ?thesis by simp
  next
    case (Inr x)
    obtain oa st where x: "x = (oa, st)" by (cases x)
    show ?thesis
      using multi_status[OF a[unfolded Inr x], of "method" property_name] c
      by (simp split: if_splits)
  qed
qed

lemma single_range_error_iff:
  "(\<exists>nm. fst (export_animation_frames_raw ps animation_name use_custom_name start_opt end_opt k eaf
             ufr method property_name h) = CANCELLED (InvalidRangeError nm))
   \<longleftrightarrow> (single_ready animation_name use_custom_name ufr h
        \<and> snd (single_range ufr start_opt end_opt h) < fst (single_range ufr start_opt end_opt h))"
proof -
  let ?b = "single_body ps animation_name use_custom_name start_opt end_opt k eaf ufr
              method property_name h"
  let ?x = "export_animation_frames_raw ps animation_name use_custom_name start_opt end_opt k eaf
             ufr method property_name h"
  obtain s e where r: "single_range ufr start_opt end_opt h = (s, e)"
    by (cases "single_range ufr start_opt end_opt h")
  show ?thesis
  proof (cases "single_ready animation_name use_custom_name ufr h")
    case False
    obtain h1 r1 where b: "?b = (h1, r1)" by (cases ?b)
    have "\<forall>nm. r1 \<noteq> Inl (InvalidRangeError nm)"
      using single_body_not_ready[OF False, of ps start_opt end_opt k eaf "method" property_name] b
      by simp
    then have "\<forall>nm. fst ?x \<noteq> CANCELLED (InvalidRangeError nm)"
      using b by (cases r1) (auto simp: export_animation_frames_raw_def)
    then show ?thesis using False by blast
  next
    case True
    show ?thesis
    proof (cases "e < s")
      case lt: True
      have "?b = (h, Inl (InvalidRangeError []))"
        using lt by (rule single_body_invalid[OF True r])
      then have "fst ?x = CANCELLED (InvalidRangeError [])"
        by (simp add: export_animation_frames_raw_def)
      then show ?thesis using True lt r by auto
    next
      case ge: False
      then have le: "s \<le> e" by simp
      have "\<forall>nm. fst ?x \<noteq> CANCELLED (InvalidRangeError nm)"
      proof (cases "frames_to_export eaf s e k")
        case (Inl err)
        have "?b = (h, Inl err)" by (rule single_body_sampler_error[OF True r le Inl])
        then show ?thesis using frames_to_export_errors[OF Inl]
          by (auto simp: export_animation_frames_raw_def)
      next
        case (Inr frames)
        show ?thesis
          using single_status[OF True r le Inr, of ps "method" property_name]
          by (simp split: if_splits)
      qed
      then show ?thesis using ge r by auto
    qed
  qed
qed

lemma single_cancelled_same_output:
  assumes "export_animation_frames_raw ps animation_name use_custom_name start_opt end_opt k eaf
             ufr method property_name h = (CANCELLED (InvalidRangeError nm), h')"
  shows "same_output h h'"
proof -
  let ?b = "single_body ps animation_name use_custom_name start_opt end_opt k eaf ufr
              method property_name h"
  from assms have b: "?b = (h', Inl (InvalidRangeError nm))"
    by (auto simp: export_animation_frames_raw_def split: prod.splits sum.splits)
  obtain s e where r: "single_range ufr start_opt end_opt h = (s, e)"
    by (cases "single_range ufr start_opt end_opt h")
  show ?thesis
  proof (cases "single_ready animation_name use_custom_name ufr h")
    case False
    then show ?thesis
      using single_body_not_ready[OF False, of ps start_opt end_opt k eaf "method" property_name] b
      by simp
  next
    case True
    show ?thesis
    proof (cases "e < s")
      case lt: True
      then show ?thesis using single_body_invalid[OF True r lt, of ps k eaf "method" property_name] b
        by simp
    next
      case ge: False
      then have le: "s \<le> e" by simp
      show ?thesis
      proof (cases "frames_to_export eaf s e k")
        case (Inl e1)
        then show ?thesis
          using single_body_sampler_error[OF True r le Inl, of ps "method" property_name] b by simp
      next
        case (Inr frames)
        note sb = single_body_sampled[OF True r le Inr, of ps "method" property_name]
        show ?thesis
        proof (cases "method")
          case BIN
          then show ?thesis using sb b by (auto simp: same_output_def split: if_splits)
        next
          case PROPERTY
          then show ?thesis using sb b by simp
        qed
      qed
    qed
  qed
qed

text \<open>
  Claim C8.  With every included clip's step at least 1 (or all frames exported), a
  multi-export of an armature is cancelled with \<open>InvalidRangeError\<close> exactly when some
  included clip has its start frame after its end frame; the round of the loop for a clip
  raises it exactly for such a clip, and the round for a transition, whose range is always
  1 to 10, never does.  A single export is cancelled with it exactly when a name and a
  range could be had and the start frame lies after the end frame.  An export that is
  cancelled with \<open>InvalidRangeError\<close> has written no file and no custom property.
\<close>

theorem invalid_range_error:
  assumes "\<forall>item\<in>set (included_items h). eaf \<or> 1 \<le> item_frame_step item"
  shows "((\<exists>nm. fst (export_multiple_animations ps unit_name method property_name eaf h)
                = CANCELLED (InvalidRangeError nm))
          \<longleftrightarrow> (active_object h = Some ARMATURE
               \<and> (\<exists>item\<in>set (included_items h). invalid_range item)))
       \<and> (\<forall>item\<in>set (included_items h).
             (\<exists>nm. snd (export_clip ps eaf nb item (g, st)) = Inl (InvalidRangeError nm))
             \<longleftrightarrow> invalid_range item)
       \<and> (\<forall>nm. snd (synth_transition ps nb pair (g, st)) \<noteq> Inl (InvalidRangeError nm))
       \<and> ((\<exists>nm. fst (export_animation_frames_raw ps animation_name use_custom_name start_opt
                       end_opt k eaf' ufr method' property_name' g)
                = CANCELLED (InvalidRangeError nm))
          \<longleftrightarrow> (single_ready animation_name use_custom_name ufr g
               \<and> snd (single_range ufr start_opt end_opt g)
                   < fst (single_range ufr start_opt end_opt g)))
       \<and> (\<forall>nm h'. export_multiple_animations ps unit_name method property_name eaf h
                      = (CANCELLED (InvalidRangeError nm), h')
             \<longrightarrow> files h' = files h \<and> id_props h' = id_props h)
       \<and> (\<forall>nm g'. export_animation_frames_raw ps animation_name use_custom_name start_opt
                       end_opt k eaf' ufr method' property_name' g
                      = (CANCELLED (InvalidRangeError nm), g')
             \<longrightarrow> files g' = files g \<and> id_props g' = id_props g)"
proof (intro conjI)
  show "(\<exists>nm. fst (export_multiple_animations ps unit_name method property_name eaf h)
                = CANCELLED (InvalidRangeError nm))
          \<longleftrightarrow> (active_object h = Some ARMATURE
               \<and> (\<exists>item\<in>set (included_items h). invalid_range item))"
    using assms by (rule multi_range_error_iff)
  show "\<forall>item\<in>set (included_items h).
             (\<exists>nm. snd (export_clip ps eaf nb item (g, st)) = Inl (InvalidRangeError nm))
             \<longleftrightarrow> invalid_range item"
    using export_clip_range_error_iff included_items_actions by blast
  show "\<forall>nm. snd (synth_transition ps nb pair (g, st)) \<noteq> Inl (InvalidRangeError nm)"
    using synth_transition_no_range_error by blast
  show "(\<exists>nm. fst (export_animation_frames_raw ps animation_name use_custom_name start_opt
                       end_opt k eaf' ufr method' property_name' g)
                = CANCELLED (InvalidRangeError nm))
          \<longleftrightarrow> (single_ready animation_name use_custom_name ufr g
               \<and> snd (single_range ufr start_opt end_opt g)
                   < fst (single_range ufr start_opt end_opt g))"
    by (rule single_range_error_iff)
  show "\<forall>nm h'. export_multiple_animations ps unit_name method property_name eaf h
                      = (CANCELLED (InvalidRangeError nm), h')
             \<longrightarrow> files h' = files h \<and> id_props h' = id_props h"
    using multi_cancelled_same_output by (fastforce simp: same_output_def)
  show "\<forall>nm g'. export_animation_frames_raw ps animation_name use_custom_name start_opt
                       end_opt k eaf' ufr method' property_name' g
                      = (CANCELLED (InvalidRangeError nm), g')
             \<longrightarrow> files g' = files g \<and> id_props g' = id_props g"
    using single_cancelled_same_output by (fastforce simp: same_output_def)
qed

lemma example_bad_exported:
  "animations_to_export example_bad_host = [(0, item_A), (1, item_bad)]"
  "included_items example_bad_host = [item_A, item_bad]"
  by (simp_all add: included_items_def animations_to_export_def example_bad_host_def
        example_host_def item_A_def item_B_def item_bad_def)

lemma example_bad_invalid: "invalid_range item_bad" "item_action item_bad = Some action_B"
  by (simp_all add: invalid_range_def item_bad_def item_B_def clip_range_def action_B_def
        py_int_def)

text \<open>
  The scene with the bad item is cancelled with the error and writes nothing; the small
  scene, where both ranges are valid, finishes.
\<close>

theorem invalid_range_error_witness:
  "included_items example_bad_host = [item_A, item_bad]
     \<and> 1 \<le> item_frame_step item_A \<and> 1 \<le> item_frame_step item_bad
     \<and> active_object example_bad_host = Some ARMATURE
     \<and> invalid_range item_bad
     \<and> (\<exists>nm. fst (export_multiple_animations example_source ''unit'' BIN ''p'' False
                    example_bad_host) = CANCELLED (InvalidRangeError nm))
     \<and> files (snd (export_multiple_animations example_source ''unit'' BIN ''p'' False
                    example_bad_host)) = files example_bad_host
     \<and> included_items example_host = [item_A, item_B]
     \<and> \<not> invalid_range item_A \<and> \<not> invalid_range item_B
     \<and> fst (export_multiple_animations example_source ''unit'' BIN ''p'' False example_host)
          = FINISHED"
proof -
  have st: "1 \<le> item_frame_step item_A" "1 \<le> item_frame_step item_bad"
    by (simp_all add: item_A_def item_bad_def item_B_def)
  have hyp: "\<forall>item\<in>set (included_items example_bad_host). False \<or> 1 \<le> item_frame_step item"
    using st by (simp add: example_bad_exported)
  have arm: "active_object example_bad_host = Some ARMATURE"
    by (simp add: example_bad_host_def example_host_def)
  note t = invalid_range_error[OF hyp, of example_source "''unit''" BIN "''p''"]
  have c: "\<exists>nm. fst (export_multiple_animations example_source ''unit'' BIN ''p'' False
                    example_bad_host) = CANCELLED (InvalidRangeError nm)"
    using t[THEN conjunct1] arm example_bad_invalid(1) by (simp add: example_bad_exported)
  then obtain nm h' where x: "export_multiple_animations example_source ''unit'' BIN ''p'' False
                    example_bad_host = (CANCELLED (InvalidRangeError nm), h')"
    by (cases "export_multiple_animations example_source ''unit'' BIN ''p'' False example_bad_host")
       auto
  have f: "files (snd (export_multiple_animations example_source ''unit'' BIN ''p'' False
                    example_bad_host)) = files example_bad_host"
    using multi_cancelled_same_output[OF x] x by (simp add: same_output_def)
  obtain h3 oa st where a: "assemble example_source ''unit'' False example_host = (h3, Inr (oa, st))"
    using example_assembles by blast
  have fin: "fst (export_multiple_animations example_source ''unit'' BIN ''p'' False example_host)
          = FINISHED"
    using multi_status[OF a, of BIN "''p''"] by (simp add: example_host_def)
  show ?thesis
    using st arm example_bad_invalid(1) c f fin example_valid
    by (simp add: example_bad_exported example_included)
qed

lemma frame_current_frames_set:
  "fs \<noteq> [] \<Longrightarrow> frame_current (frames_set h fs) = last fs"
  by (induction fs arbitrary: h) (auto simp: frame_set_def)

lemma frames_set_other [simp]:
  "animation_data (frames_set h fs) = animation_data h"
  "active_object (frames_set h fs) = active_object h"
  by (induction fs arbitrary: h) (simp_all add: frame_set_def)

lemma frame_current_set_action [simp]:
  "frame_current (set_action h a) = frame_current h"
  "frame_current (ensure_animation_data h) = frame_current h"
  by (simp_all add: set_action_def ensure_animation_data_def animation_data_create_def)

text \<open>
  Claim C4 does not hold of the code.  The \<open>except\<close> clause (lines 514-518) only reports:
  the frame and the action are restored on the path of success alone (lines 502-505).  In
  the scene with the bad item the export is cancelled after the first clip has been
  sampled; the scene is left at frame 5 instead of 7, and the armature with action \<open>B\<close>
  instead of \<open>A\<close>.
\<close>

theorem failed_export_not_restored:
  "\<exists>h'. export_multiple_animations example_source ''unit'' BIN ''p'' False example_bad_host
           = (CANCELLED (InvalidRangeError ''B''), h')
      \<and> frame_current example_bad_host = 7 \<and> frame_current h' = 5
      \<and> active_action example_bad_host = Some action_A \<and> active_action h' = Some action_B
      \<and> action_A \<noteq> action_B"
proof -
  let ?h = "example_bad_host"
  let ?nb = "length (pose_bones ?h)"
  let ?hr = "frame_set ?h (rest_frame ?h)"
  let ?sr = "rest_assembly example_source ''unit'' ?h"
  have arm: "active_object ?h = Some ARMATURE"
    by (simp add: example_bad_host_def example_host_def)
  have ne: "animations_to_export ?h \<noteq> []" by (simp add: example_bad_exported)
  have actA: "item_action item_A = Some action_A" by (simp add: item_A_def)
  obtain st1 where "snd (export_clip example_source False ?nb item_A (?hr, ?sr)) = Inr st1"
    using export_clip_valid[OF actA example_valid(1), of example_source False ?nb ?hr ?sr]
    by (auto simp: item_A_def)
  then obtain h1 where c1: "export_clip example_source False ?nb item_A (?hr, ?sr) = (h1, Inr st1)"
    by (cases "export_clip example_source False ?nb item_A (?hr, ?sr)") auto
  have nb0: "?nb = length (pose_bones ?hr)" by simp
  have h1: "h1 = frames_set (set_action (ensure_animation_data ?hr) (Some action_A)) [1, 3, 5]"
    using export_clip_Inr[OF c1 nb0] actA by (simp add: example_frames)
  let ?hf = "set_action (ensure_animation_data h1) (Some action_B)"
  have c2: "export_clip example_source False ?nb item_bad (h1, st1)
              = (?hf, Inl (InvalidRangeError (action_name action_B)))"
    by (rule export_clip_invalid[OF example_bad_invalid(2) example_bad_invalid(1)])
  have cs: "export_clips example_source False ?nb (included_items ?h) (?hr, ?sr)
              = (?hf, Inl (InvalidRangeError ''B''))"
    by (simp add: example_bad_exported c1 c2 action_B_def)
  have "assemble example_source ''unit'' False ?h = (?hf, Inl (InvalidRangeError ''B''))"
    by (simp add: assemble_unfold[OF arm ne] cs)
  then have x: "export_multiple_animations example_source ''unit'' BIN ''p'' False ?h
           = (CANCELLED (InvalidRangeError ''B''), ?hf)"
    by (simp add: export_multiple_animations_def multi_body_failed)
  have f0: "frame_current ?h = 7" by (simp add: example_bad_host_def example_host_def)
  have "frame_current h1 = last [1, 3, 5]"
    unfolding h1 by (rule frame_current_frames_set) simp
  then have f2: "frame_current ?hf = 5" by simp
  have a0: "active_action ?h = Some action_A"
    by (simp add: active_action_def example_bad_host_def)
  have a2: "active_action ?hf = Some action_B" by (simp add: active_action_def set_action_def)
  have d: "action_A \<noteq> action_B" by (simp add: action_A_def action_B_def)
  show ?thesis using x f0 f2 a0 a2 d by blast
qed

subsection \<open>The custom end 0\<close>

lemma active_action_set_action [simp]: "active_action (set_action h a) = a"
  by (simp add: active_action_def set_action_def)

lemma fields_set_action [simp]:
  "fcurves (set_action h a) = fcurves h" "current_pose (set_action h a) = current_pose h"
  "pose_buffer (set_action h a) = pose_buffer h"
  by (simp_all add: set_action_def)

lemma fields_ensure [simp]:
  "fcurves (ensure_animation_data h) = fcurves h"
  "current_pose (ensure_animation_data h) = current_pose h"
  "pose_buffer (ensure_animation_data h) = pose_buffer h"
  by (simp_all add: ensure_animation_data_def animation_data_create_def)

lemma fields_frame_set [simp]:
  "fcurves (frame_set h f) = fcurves h"
  "current_pose (frame_set h f) = PoseAt (map_option action_id (active_action h)) f"
  "pose_buffer (frame_set h f) = pose_buffer h"
  "active_action (frame_set h f) = active_action h"
  by (simp_all add: frame_set_def active_action_def)

lemma fields_mode_set [simp]:
  "fcurves (mode_set h m) = fcurves h" "current_pose (mode_set h m) = current_pose h"
  "pose_buffer (mode_set h m) = pose_buffer h" "active_action (mode_set h m) = active_action h"
  by (simp_all add: mode_set_def active_action_def)

lemma fields_pose_copy [simp]:
  "fcurves (pose_copy h) = fcurves h" "current_pose (pose_copy h) = current_pose h"
  "pose_buffer (pose_copy h) = Some (current_pose h)"
  "active_action (pose_copy h) = active_action h"
  by (simp_all add: pose_copy_def active_action_def)

lemma fields_pose_paste [simp]:
  "fcurves (pose_paste h) = fcurves h"
  "pose_buffer (pose_paste h) = pose_buffer h"
  "active_action (pose_paste h) = active_action h"
  "pose_buffer h = Some p \<Longrightarrow> current_pose (pose_paste h) = p"
  by (simp_all add: pose_paste_def active_action_def split: option.split)

lemma fields_actions_new [simp]:
  "fcurves (fst (actions_new h nm)) = fcurves h"
  by (simp add: actions_new_def Let_def)

lemma fields_frames_set [simp]:
  "fcurves (frames_set h fs) = fcurves h"
  by (induction fs arbitrary: h) simp_all

lemma fields_keyframe_insert [simp]:
  "current_pose (keyframe_insert b d f h) = current_pose h"
  "pose_buffer (keyframe_insert b d f h) = pose_buffer h"
  "active_action (keyframe_insert b d f h) = active_action h"
  by (simp_all add: keyframe_insert_def active_action_def split: option.split)

lemma fcurves_keyframe_insert:
  "active_action h = Some a \<Longrightarrow>
   fcurves (keyframe_insert b d f h) c =
     (if c = action_id a
      then fcurves h c @
        [\<lparr>kf_bone = b, kf_data_path = d, kf_frame = f, kf_pose = current_pose h,
          kf_interpolation = BEZIER\<rparr>]
      else fcurves h c)"
  by (simp add: keyframe_insert_def)

lemma insert_pose_keys_loop:
  assumes "active_action h = Some a"
  shows "fcurves (fold (\<lambda>bone h. keyframe_insert bone ''scale'' f
                      (keyframe_insert bone ''rotation_quaternion'' f
                        (keyframe_insert bone ''location'' f h))) bs h) c
           = (if c = action_id a then fcurves h c @ pose_keys f (current_pose h) bs
              else fcurves h c)
       \<and> current_pose (fold (\<lambda>bone h. keyframe_insert bone ''scale'' f
                      (keyframe_insert bone ''rotation_quaternion'' f
                        (keyframe_insert bone ''location'' f h))) bs h) = current_pose h
       \<and> pose_buffer (fold (\<lambda>bone h. keyframe_insert bone ''scale'' f
                      (keyframe_insert bone ''rotation_quaternion'' f
                        (keyframe_insert bone ''location'' f h))) bs h) = pose_buffer h
       \<and> active_action (fold (\<lambda>bone h. keyframe_insert bone ''scale'' f
                      (keyframe_insert bone ''rotation_quaternion'' f
                        (keyframe_insert bone ''location'' f h))) bs h) = active_action h"
  using assms
proof (induction bs arbitrary: h)
  case Nil
  then show ?case by (simp add: pose_keys_def)
next
  case (Cons b bs)
  let ?h1 = "keyframe_insert b ''scale'' f
               (keyframe_insert b ''rotation_quaternion'' f (keyframe_insert b ''location'' f h))"
  have a1: "active_action ?h1 = Some a" using Cons.prems by simp
  have f1: "fcurves ?h1 d = (if d = action_id a
              then fcurves h d @ pose_keys f (current_pose h) [b] else fcurves h d)" for d
    using Cons.prems by (simp add: fcurves_keyframe_insert[of _ a] pose_keys_def)
  have k: "pose_keys f p (b # bs) = pose_keys f p [b] @ pose_keys f p bs" for p
    by (simp add: pose_keys_def)
  show ?case
    using Cons.IH[OF a1] Cons.prems by (simp add: f1 k)
qed

lemma fields_insert_pose_keys:
  assumes "active_action h = Some a"
  shows "fcurves (insert_pose_keys f h) c
           = (if c = action_id a
              then fcurves h c @ pose_keys f (current_pose h) (pose_bones h) else fcurves h c)"
    and "current_pose (insert_pose_keys f h) = current_pose h"
    and "pose_buffer (insert_pose_keys f h) = pose_buffer h"
    and "active_action (insert_pose_keys f h) = active_action h"
  using insert_pose_keys_loop[OF assms, of f "pose_bones h" c]
  by (simp_all add: insert_pose_keys_def)

lemma fcurves_fabricate:
  assumes "fabricate_transition nm sa sl da df h = (h', tr)"
  shows "tr = snd (actions_new h nm)"
    and "fcurves h' (action_id tr) =
           map (\<lambda>kp. kp\<lparr>kf_interpolation := LINEAR\<rparr>)
             (fcurves h (action_id tr)
              @ pose_keys 1 (PoseAt (Some (action_id sa)) sl) (pose_bones h)
              @ pose_keys 10 (PoseAt (Some (action_id da)) df) (pose_bones h))"
proof -
  obtain h1 tr1 where n: "actions_new h nm = (h1, tr1)" by (cases "actions_new h nm")
  have fc1: "fcurves h1 = fcurves h" "pose_bones h1 = pose_bones h"
    using fields_actions_new[of h nm] pose_bones_actions_new[of h nm] by (simp_all add: n)
  let ?h9 = "pose_paste (frame_set (set_action (pose_copy (mode_set (frame_set
               (set_action (ensure_animation_data h1) (Some sa)) sl) POSE)) (Some tr1)) 1)"
  have a9: "active_action ?h9 = Some tr1" by simp
  have p9: "current_pose ?h9 = PoseAt (Some (action_id sa)) sl" by simp
  have b9: "pose_bones ?h9 = pose_bones h" "fcurves ?h9 = fcurves h" by (simp_all add: fc1)
  let ?h10 = "insert_pose_keys 1 ?h9"
  note i10 = fields_insert_pose_keys[OF a9, of 1]
  have f10: "fcurves ?h10 (action_id tr1) = fcurves h (action_id tr1) @
                pose_keys 1 (PoseAt (Some (action_id sa)) sl) (pose_bones h)"
    by (simp only: i10(1) p9 b9 if_True simp_thms)
  let ?h16 = "pose_paste (frame_set (set_action (pose_copy (frame_set
               (set_action ?h10 (Some da)) df)) (Some tr1)) 10)"
  have a16: "active_action ?h16 = Some tr1" by simp
  have p16: "current_pose ?h16 = PoseAt (Some (action_id da)) df" by simp
  have b16: "pose_bones ?h16 = pose_bones h" by (simp add: fc1)
  have c16: "fcurves ?h16 = fcurves ?h10" by simp
  let ?h17 = "insert_pose_keys 10 ?h16"
  note i17 = fields_insert_pose_keys[OF a16, of 10]
  have f17: "fcurves ?h17 (action_id tr1) = (fcurves h (action_id tr1) @
                pose_keys 1 (PoseAt (Some (action_id sa)) sl) (pose_bones h)) @
                pose_keys 10 (PoseAt (Some (action_id da)) df) (pose_bones h)"
    by (simp only: i17(1) p16 b16 c16 f10 if_True simp_thms)
  have r: "fabricate_transition nm sa sl da df h = (set_linear tr1 ?h17, tr1)"
    by (simp add: fabricate_transition_def n Let_def)
  then have e: "h' = set_linear tr1 ?h17" "tr = tr1" using assms by simp_all
  have "fcurves (set_linear tr1 ?h17) (action_id tr1) =
          map (\<lambda>kp. kp\<lparr>kf_interpolation := LINEAR\<rparr>) (fcurves ?h17 (action_id tr1))"
    by (simp add: set_linear_def)
  then show "fcurves h' (action_id tr) =
           map (\<lambda>kp. kp\<lparr>kf_interpolation := LINEAR\<rparr>)
             (fcurves h (action_id tr)
              @ pose_keys 1 (PoseAt (Some (action_id sa)) sl) (pose_bones h)
              @ pose_keys 10 (PoseAt (Some (action_id da)) df) (pose_bones h))"
    unfolding e by (simp only: f17 append_assoc)
  show "tr = snd (actions_new h nm)" using e n by simp
qed

lemma host_synth_transition:
  assumes "item_action src = Some sa" and "item_action dst = Some da"
  shows "fst (synth_transition ps nb (src, dst) (h, st)) =
           frames_set
             (set_action
                (fst (fabricate_transition (action_name sa @ ''_To_'' @ action_name da) sa
                        (last_frame src sa) da (first_frame dst da) h))
                (Some (snd (fabricate_transition (action_name sa @ ''_To_'' @ action_name da) sa
                        (last_frame src sa) da (first_frame dst da) h))))
             [1, 2, 3, 4, 5, 6, 7, 8, 9, 10]"
proof -
  let ?nm = "action_name sa @ ''_To_'' @ action_name da"
  obtain h1 tr where
    f: "fabricate_transition ?nm sa (last_frame src sa) da (first_frame dst da) h = (h1, tr)"
    by (cases "fabricate_transition ?nm sa (last_frame src sa) da (first_frame dst da) h")
  define fs :: "int list" where "fs = [1, 2, 3, 4, 5, 6, 7, 8, 9, 10]"
  have pr: "py_range 1 (transition_frames + 1) 1 = fs" "py_range 1 11 1 = fs"
    using py_range_transition by (simp_all add: fs_def transition_frames_def)
  have lfs: "fs \<noteq> []" "last fs = 10" "length fs = 10"
    by (simp_all add: fs_def)
  obtain h3 buf where b: "bake_frames ps nb fs (set_action h1 (Some tr)) = (h3, buf)"
    by (cases "bake_frames ps nb fs (set_action h1 (Some tr))")
  have h3: "h3 = frames_set (set_action h1 (Some tr)) fs"
    using fst_bake_frames[of ps nb fs "set_action h1 (Some tr)"] by (simp only: b fst_conv)
  have "fst (synth_transition ps nb (src, dst) (h, st)) = h3"
    unfolding synth_transition_def
    by (simp add: assms f[simplified] Let_def pr lfs b transition_frames_def)
  then show ?thesis unfolding h3 fs_def by (simp only: f[simplified] f fst_conv snd_conv)
qed

lemma transition_keys:
  assumes "item_action src = Some sa" and "item_action dst = Some da"
  shows "fcurves (fst (synth_transition ps nb (src, dst) (h, st)))
           (action_id (snd (actions_new h (action_name sa @ ''_To_'' @ action_name da)))) =
         map (\<lambda>kp. kp\<lparr>kf_interpolation := LINEAR\<rparr>)
           (fcurves h (action_id (snd (actions_new h (action_name sa @ ''_To_'' @ action_name da))))
            @ pose_keys 1 (PoseAt (Some (action_id sa)) (last_frame src sa)) (pose_bones h)
            @ pose_keys 10 (PoseAt (Some (action_id da)) (first_frame dst da)) (pose_bones h))"
proof -
  let ?nm = "action_name sa @ ''_To_'' @ action_name da"
  obtain h1 tr where
    f: "fabricate_transition ?nm sa (last_frame src sa) da (first_frame dst da) h = (h1, tr)"
    by (cases "fabricate_transition ?nm sa (last_frame src sa) da (first_frame dst da) h")
  note k = fcurves_fabricate[OF f]
  have "fcurves (fst (synth_transition ps nb (src, dst) (h, st))) = fcurves h1"
    by (simp only: host_synth_transition[OF assms] f fst_conv snd_conv fields_frames_set
          fields_set_action)
  then show ?thesis using k by simp
qed

text \<open>
  Claim C10.  For a clip that does not use the full range of its action and whose custom
  end is 0, the end of the range is the end of the action's \<open>frame_range\<close>: this holds for
  the range computed at lines 251-253, so for the entry of that clip in the ranges of every
  completed assembly, and for \<open>last_frame\<close> (lines 300-301), so that the keys set at frame 1
  of every transition out of that clip hold the pose of the clip's action at that frame.
\<close>

theorem custom_end_sentinel:
  assumes "item_action item = Some act" and "\<not> item_use_full_range item"
    and "item_custom_end item = 0"
  shows "clip_range item act = (item_custom_start item, py_int (snd (frame_range act)))
       \<and> last_frame item act = py_int (snd (frame_range act))
       \<and> (\<forall>ps unit_name eaf h h' oa st i.
             assemble ps unit_name eaf h = (h', Inr (oa, st)) \<longrightarrow>
             i < length (included_items h) \<longrightarrow> included_items h ! i = item \<longrightarrow>
             animation_ranges st ! Suc i =
               (item_custom_start item, py_int (snd (frame_range act))))
       \<and> (\<forall>ps nb dst da h st.
             item_action dst = Some da \<longrightarrow>
             (let tr = snd (actions_new h (action_name act @ ''_To_'' @ action_name da))
              in fcurves (fst (synth_transition ps nb (item, dst) (h, st))) (action_id tr) =
                   map (\<lambda>kp. kp\<lparr>kf_interpolation := LINEAR\<rparr>)
                     (fcurves h (action_id tr)
                      @ pose_keys 1 (PoseAt (Some (action_id act))
                                       (py_int (snd (frame_range act)))) (pose_bones h)
                      @ pose_keys 10 (PoseAt (Some (action_id da)) (first_frame dst da))
                          (pose_bones h))))"
proof -
  have r: "clip_range item act = (item_custom_start item, py_int (snd (frame_range act)))"
    using assms by (simp add: clip_range_def)
  have l: "last_frame item act = py_int (snd (frame_range act))"
    using assms by (simp add: last_frame_def)
  have c: "animation_ranges st ! Suc i =
             (item_custom_start item, py_int (snd (frame_range act)))"
    if a: "assemble ps unit_name eaf h = (h', Inr (oa, st))"
      and i: "i < length (included_items h)" and e: "included_items h ! i = item"
    for ps :: "('e, 'f::zero) pose_source" and unit_name eaf h h' oa st i
  proof -
    have "animation_ranges st =
           (rest_frame h, rest_frame h) #
             map (\<lambda>item. clip_range item (the (item_action item))) (included_items h) @
             map (\<lambda>pair. (1, 10)) (transition_pairs h)"
      using assemble_Inr[OF a] by blast
    then have "animation_ranges st ! Suc i =
                 clip_range (included_items h ! i) (the (item_action (included_items h ! i)))"
      using i by (simp add: nth_append)
    then show ?thesis using e assms(1) r by simp
  qed
  have d: "fcurves (fst (synth_transition ps nb (item, dst) (h, st)))
             (action_id (snd (actions_new h (action_name act @ ''_To_'' @ action_name da)))) =
           map (\<lambda>kp. kp\<lparr>kf_interpolation := LINEAR\<rparr>)
             (fcurves h (action_id (snd (actions_new h (action_name act @ ''_To_'' @ action_name da))))
              @ pose_keys 1 (PoseAt (Some (action_id act)) (py_int (snd (frame_range act))))
                  (pose_bones h)
              @ pose_keys 10 (PoseAt (Some (action_id da)) (first_frame dst da)) (pose_bones h))"
    if "item_action dst = Some da"
    for ps :: "('g, 'h::zero) pose_source" and nb dst da h st
    using transition_keys[OF assms(1) that, of ps nb h st] by (simp only: l)
  show ?thesis
    apply (intro conjI allI impI)
    subgoal by (rule r)
    subgoal by (rule l)
    subgoal by (rule c)
    subgoal unfolding Let_def by (rule d)
    done
qed

text \<open>
  The small scene: clip \<open>B\<close> has a custom range from 2 with end 0 over an action that ends
  at frame 3.  Its range is 2 to 3, and the transition from \<open>B\<close> to \<open>A\<close> is keyed at frame 1
  with the pose of \<open>B\<close> at frame 3.
\<close>

theorem custom_end_sentinel_witness:
  "item_action item_B = Some action_B \<and> \<not> item_use_full_range item_B
     \<and> item_custom_end item_B = 0
     \<and> clip_range item_B action_B = (2, 3) \<and> last_frame item_B action_B = 3
     \<and> (\<exists>h' oa st. assemble example_source ''unit'' False example_host = (h', Inr (oa, st))
           \<and> animation_ranges st ! 2 = (2, 3))
     \<and> fcurves (fst (synth_transition example_source 1 (item_B, item_A)
                       (example_host, rest_assembly example_source ''unit'' example_host))) 2 =
         [\<lparr>kf_bone = ''b'', kf_data_path = ''location'', kf_frame = 1,
            kf_pose = PoseAt (Some 1) 3, kf_interpolation = LINEAR\<rparr>,
          \<lparr>kf_bone = ''b'', kf_data_path = ''rotation_quaternion'', kf_frame = 1,
            kf_pose = PoseAt (Some 1) 3, kf_interpolation = LINEAR\<rparr>,
          \<lparr>kf_bone = ''b'', kf_data_path = ''scale'', kf_frame = 1,
            kf_pose = PoseAt (Some 1) 3, kf_interpolation = LINEAR\<rparr>,
          \<lparr>kf_bone = ''b'', kf_data_path = ''location'', kf_frame = 10,
            kf_pose = PoseAt (Some 0) 1, kf_interpolation = LINEAR\<rparr>,
          \<lparr>kf_bone = ''b'', kf_data_path = ''rotation_quaternion'', kf_frame = 10,
            kf_pose = PoseAt (Some 0) 1, kf_interpolation = LINEAR\<rparr>,
          \<lparr>kf_bone = ''b'', kf_data_path = ''scale'', kf_frame = 10,
            kf_pose = PoseAt (Some 0) 1, kf_interpolation = LINEAR\<rparr>]"
proof -
  have h1: "item_action item_B = Some action_B" by (simp add: item_B_def)
  have h2: "\<not> item_use_full_range item_B" by (simp add: item_B_def)
  have h3: "item_custom_end item_B = 0" by (simp add: item_B_def)
  note t = custom_end_sentinel[OF h1 h2 h3]
  have e: "item_custom_start item_B = 2" "py_int (snd (frame_range action_B)) = 3"
    by (simp_all add: item_B_def action_B_def py_int_def)
  have c1: "clip_range item_B action_B = (2, 3)" using t[THEN conjunct1] by (simp only: e)
  have c2: "last_frame item_B action_B = 3"
    using t[THEN conjunct2, THEN conjunct1] by (simp only: e)
  obtain h' oa st where
    a: "assemble example_source ''unit'' False example_host = (h', Inr (oa, st))"
    using example_assembles by blast
  have i: "1 < length (included_items example_host)" "included_items example_host ! 1 = item_B"
    by (simp_all add: example_included)
  have "animation_ranges st ! Suc 1 = (2, 3)"
    using t[THEN conjunct2, THEN conjunct2, THEN conjunct1, rule_format, OF a i]
    by (simp only: e)
  then have c3: "\<exists>h' oa st. assemble example_source ''unit'' False example_host = (h', Inr (oa, st))
           \<and> animation_ranges st ! 2 = (2, 3)"
    using a by (simp add: numeral_2_eq_2)
  have ia: "item_action item_A = Some action_A" by (simp add: item_A_def)
  have n: "action_id (snd (actions_new example_host
             (action_name action_B @ ''_To_'' @ action_name action_A))) = 2"
    by (simp add: actions_new_def Let_def example_host_def action_A_def action_B_def)
  have ff: "first_frame item_A action_A = 1"
    by (simp add: first_frame_def item_A_def action_A_def py_int_def)
  have ids: "action_id action_A = 0" "action_id action_B = 1"
    by (simp_all add: action_A_def action_B_def)
  have hs: "fcurves example_host 2 = []" "pose_bones example_host = [''b'']"
    by (simp_all add: example_host_def)
  have c4: "fcurves (fst (synth_transition example_source 1 (item_B, item_A)
                       (example_host, rest_assembly example_source ''unit'' example_host))) 2 =
         map (\<lambda>kp. kp\<lparr>kf_interpolation := LINEAR\<rparr>)
           ([] @ pose_keys 1 (PoseAt (Some 1) 3) [''b''] @ pose_keys 10 (PoseAt (Some 0) 1) [''b''])"
    using t[THEN conjunct2, THEN conjunct2, THEN conjunct2, rule_format, OF ia,
            of example_host example_source 1 "rest_assembly example_source ''unit'' example_host"]
    unfolding Let_def by (simp only: n e ff ids hs)
  have c4': "fcurves (fst (synth_transition example_source 1 (item_B, item_A)
                       (example_host, rest_assembly example_source ''unit'' example_host))) 2 =
         [\<lparr>kf_bone = ''b'', kf_data_path = ''location'', kf_frame = 1,
            kf_pose = PoseAt (Some 1) 3, kf_interpolation = LINEAR\<rparr>,
          \<lparr>kf_bone = ''b'', kf_data_path = ''rotation_quaternion'', kf_frame = 1,
            kf_pose = PoseAt (Some 1) 3, kf_interpolation = LINEAR\<rparr>,
          \<lparr>kf_bone = ''b'', kf_data_path = ''scale'', kf_frame = 1,
            kf_pose = PoseAt (Some 1) 3, kf_interpolation = LINEAR\<rparr>,
          \<lparr>kf_bone = ''b'', kf_data_path = ''location'', kf_frame = 10,
            kf_pose = PoseAt (Some 0) 1, kf_interpolation = LINEAR\<rparr>,
          \<lparr>kf_bone = ''b'', kf_data_path = ''rotation_quaternion'', kf_frame = 10,
            kf_pose = PoseAt (Some 0) 1, kf_interpolation = LINEAR\<rparr>,
          \<lparr>kf_bone = ''b'', kf_data_path = ''scale'', kf_frame = 10,
            kf_pose = PoseAt (Some 0) 1, kf_interpolation = LINEAR\<rparr>]"
    unfolding c4 by (simp add: pose_keys_def)
  show ?thesis by (intro conjI h1 h2 h3 c1 c2 c3 c4')
qed

subsection \<open>The adjacency map\<close>

lemma trans_map_add_other:
  "length (name_parts unit_name (helper_name tr)) \<noteq> 2 \<Longrightarrow> trans_map_add unit_name tr m = m"
  unfolding trans_map_add_def name_parts_def
  by (auto split: list.splits)

lemma trans_map_add_parts:
  "name_parts unit_name (helper_name tr) = [s, d] \<Longrightarrow>
   trans_map_add unit_name tr m =
     AList.update s (AList.update d (helper_name tr)
        (case map_of m s of None \<Rightarrow> [] | Some ds \<Rightarrow> ds)) m"
  unfolding trans_map_add_def name_parts_def by simp

lemma adjacency_add:
  "adjacency (trans_map_add unit_name tr m) s d =
     (if name_parts unit_name (helper_name tr) = [s, d] then Some (helper_name tr)
      else adjacency m s d)"
proof (cases "length (name_parts unit_name (helper_name tr)) = 2")
  case False
  then have "name_parts unit_name (helper_name tr) \<noteq> [s, d]" by auto
  then show ?thesis using trans_map_add_other[OF False] by simp
next
  case True
  then obtain s' d' where p: "name_parts unit_name (helper_name tr) = [s', d']"
    by (cases "name_parts unit_name (helper_name tr)" rule: list.exhaust;
        cases "tl (name_parts unit_name (helper_name tr))" rule: list.exhaust) auto
  show ?thesis
    unfolding trans_map_add_parts[OF p] adjacency_def p
    by (auto simp: update_conv' split: option.splits)
qed

lemma adjacency_fold:
  "adjacency (fold (trans_map_add unit_name) trs m) s d =
     (case filter (\<lambda>tr. name_parts unit_name (helper_name tr) = [s, d]) trs of
        [] \<Rightarrow> adjacency m s d
      | x # xs \<Rightarrow> Some (helper_name (last (x # xs))))"
proof (induction trs arbitrary: m)
  case Nil
  then show ?case by simp
next
  case (Cons tr trs)
  show ?case
  proof (cases "filter (\<lambda>tr. name_parts unit_name (helper_name tr) = [s, d]) trs")
    case Nil
    then show ?thesis using Cons.IH[of "trans_map_add unit_name tr m"]
      by (simp add: adjacency_add)
  next
    case (Cons y ys)
    then show ?thesis using Cons.IH[of "trans_map_add unit_name tr m"]
      by simp
  qed
qed

lemma adjacency_build:
  "adjacency (build_trans_map unit_name trs) s d =
     (case filter (\<lambda>tr. name_parts unit_name (helper_name tr) = [s, d]) trs of
        [] \<Rightarrow> None
      | x # xs \<Rightarrow> Some (helper_name (last (x # xs))))"
proof -
  have e: "adjacency [] s d = None" by (simp add: adjacency_def)
  show ?thesis unfolding build_trans_map_def adjacency_fold e ..
qed


lemma is_transition_name_transition: "is_transition_name (transition_name pair)"
  unfolding is_transition_name_def transition_name_def by (rule sublist_appendI)

lemma descriptor_fields:
  "transition_calls (descriptor unit_name nb bones st) =
     filter (\<lambda>a. is_transition_name (helper_name a)) (animation_helpers st)"
  "main_calls (descriptor unit_name nb bones st) =
     filter (\<lambda>a. \<not> is_transition_name (helper_name a)) (animation_helpers st)"
  "animationNames (descriptor unit_name nb bones st) = map helper_name (animation_helpers st)"
  "adjacency_calls (descriptor unit_name nb bones st) =
     concat (map (\<lambda>src. case map_of (build_trans_map unit_name
                                  (filter (\<lambda>a. is_transition_name (helper_name a))
                                     (animation_helpers st))) src of
                           None \<Rightarrow> [] | Some d \<Rightarrow> [(src, d)])
              (filter (\<lambda>nm. nm \<noteq> unit_name @ ''Rest'')
                 (map helper_name
                    (filter (\<lambda>a. \<not> is_transition_name (helper_name a))
                       (animation_helpers st)))))"
  by (simp_all add: descriptor_def Let_def)

lemma transitions_recorded:
  assumes "assemble ps unit_name eaf h = (h', Inr (oa, st))"
    and "pair \<in> set (transition_pairs h)"
  shows "transition_name pair \<in>
           helper_name ` set (transition_calls (descriptor unit_name nb bones st))"
proof -
  have "map helper_name (animation_helpers st) = map fst (layout unit_name eaf h)"
    using assemble_Inr[OF assms(1)] by (simp only: records_names)
  then have "transition_name pair \<in> set (map helper_name (animation_helpers st))"
    using assms(2) by (simp add: layout_names)
  then obtain r where r: "r \<in> set (animation_helpers st)" "helper_name r = transition_name pair"
    by auto
  then have "r \<in> set (transition_calls (descriptor unit_name nb bones st))"
    using is_transition_name_transition[of pair] by (simp add: descriptor_fields)
  then show ?thesis using r(2) by force
qed

lemma example_split_exported:
  "animations_to_export example_split_host = [(0, item_A_To), (1, item_B)]"
  by (simp add: animations_to_export_def example_split_host_def example_host_def
        item_A_To_def item_B_def)

lemma example_split_included: "included_items example_split_host = [item_A_To, item_B]"
  by (simp add: included_items_def example_split_exported)

lemma example_split_pairs:
  "transition_pairs example_split_host = [(item_A_To, item_B), (item_B, item_A_To)]"
  by (simp add: transition_pairs_def example_split_exported transitions_of_def)

lemma example_split_range: "clip_range item_A_To action_A_To = (1, 5)"
  by (simp add: clip_range_def item_A_To_def action_A_To_def py_int_def)

lemma example_split_frames: "clip_frames False item_A_To = [1, 3, 5]"
proof -
  have "frames_to_export False 1 5 2 = Inr [1, 3, 5]" by code_simp
  then show ?thesis using example_split_range by (simp add: clip_frames_def item_A_To_def)
qed

lemma example_split_names:
  "clip_name item_A_To = ''A_To''"
  "transition_name (item_A_To, item_B) = ''A_To_To_B''"
  "transition_name (item_B, item_A_To) = ''B_To_A_To''"
  by (simp_all add: clip_name_def transition_name_def item_A_To_def item_B_def action_A_To_def
        action_B_def)

lemma example_split_layout:
  "layout ''unit'' False example_split_host =
     [(''unitRest'', 1), (''A_To'', 3), (''B'', 2), (''A_To_To_B'', 10), (''B_To_A_To'', 10)]"
  by (simp add: layout_def example_split_included example_split_pairs clip_entries_def
        transition_entries_def example_split_frames example_frames example_names
        example_split_names)

lemma example_split_valid: "\<not> invalid_range item_A_To"
  using example_split_range by (simp add: invalid_range_def item_A_To_def)

lemma example_split_assembles:
  "\<exists>h' oa st. assemble example_source ''unit'' False example_split_host = (h', Inr (oa, st))"
proof (rule assemble_valid)
  show "active_object example_split_host = Some ARMATURE"
    by (simp add: example_split_host_def example_host_def)
  show "animations_to_export example_split_host \<noteq> []" by (simp add: example_split_exported)
  show "\<forall>item\<in>set (included_items example_split_host). False \<or> 1 \<le> item_frame_step item"
    by (simp add: example_split_included item_A_To_def item_B_def)
  show "\<forall>item\<in>set (included_items example_split_host). \<not> invalid_range item"
    by (simp add: example_split_included example_valid example_split_valid)
qed

lemma example_split_classes:
  "is_transition_name ''unitRest'' = False" "is_transition_name ''A_To'' = False"
  "is_transition_name ''B'' = False" "is_transition_name ''A_To_To_B''"
  "is_transition_name ''B_To_A_To''"
  by code_simp+

lemma example_split_map:
  "build_trans_map ''unit''
     [\<lparr>helper_name = ''A_To_To_B'', start_idx = 6, end_idx = 15\<rparr>,
      \<lparr>helper_name = ''B_To_A_To'', start_idx = 16, end_idx = 25\<rparr>] =
   [(''A'', [(''To_B'', ''A_To_To_B'')]), (''B'', [(''A_To'', ''B_To_A_To'')])]"
  by code_simp

text \<open>
  Claim C5 does not hold of the code.  Clips \<open>A_To\<close> and \<open>B\<close> with the unit name \<open>unit\<close>,
  exported to files: the export finishes, both transitions have their records, and the
  name \<open>A_To_To_B\<close> of the transition from \<open>A_To\<close> to \<open>B\<close> splits into exactly two parts,
  \<open>A\<close> and \<open>To_B\<close>.  The dictionary that the comment of line 442 describes as
  \<open>src -> {dst: transition_name}\<close> gets this transition under \<open>A\<close> and \<open>To_B\<close>, which
  are no clips, and nothing under \<open>A_To\<close>; the loop of lines 453-459 looks the dictionary
  up by the names of the main clips, so the descriptor that is written has a group for \<open>B\<close>
  only and no adjacency from \<open>A_To\<close> to \<open>B\<close>.
\<close>

theorem adjacency_keys_not_clip_names:
  "\<exists>h' d. export_multiple_animations example_source ''unit'' BIN ''p'' False example_split_host
             = (FINISHED, h')
     \<and> files h' (JsPath (MultiBase ''unit'')) = Some (MultiJs d)
     \<and> included_items example_split_host = [item_A_To, item_B]
     \<and> transition_pairs example_split_host = [(item_A_To, item_B), (item_B, item_A_To)]
     \<and> clip_name item_A_To = ''A_To'' \<and> clip_name item_B = ''B''
     \<and> animationNames d = [''unitRest'', ''A_To'', ''B'', ''A_To_To_B'', ''B_To_A_To'']
     \<and> map helper_name (main_calls d) = [''unitRest'', ''A_To'', ''B'']
     \<and> map helper_name (transition_calls d) = [''A_To_To_B'', ''B_To_A_To'']
     \<and> py_split (py_replace ''A_To_To_B'' (''unit'' @ ''_'') []) ''_To_'' = [''A'', ''To_B'']
     \<and> py_split (py_replace ''B_To_A_To'' (''unit'' @ ''_'') []) ''_To_'' = [''B'', ''A_To'']
     \<and> build_trans_map ''unit'' (transition_calls d) =
          [(''A'', [(''To_B'', ''A_To_To_B'')]), (''B'', [(''A_To'', ''B_To_A_To'')])]
     \<and> map_of (build_trans_map ''unit'' (transition_calls d)) ''A_To'' = None
     \<and> adjacency_calls d = [(''B'', [(''A_To'', ''B_To_A_To'')])]"
proof -
  let ?h = "example_split_host"
  obtain h3 oa st where
    a: "assemble example_source ''unit'' False ?h = (h3, Inr (oa, st))"
    using example_split_assembles by blast
  have fp: "filepath ?h \<noteq> []" by (simp add: example_split_host_def example_host_def)
  have pb: "pose_bones ?h = [''b'']" by (simp add: example_split_host_def example_host_def)
  have "fst (export_multiple_animations example_source ''unit'' BIN ''p'' False ?h) = FINISHED"
    using multi_status[OF a, of BIN "''p''"] fp by simp
  then obtain h' where
    x: "export_multiple_animations example_source ''unit'' BIN ''p'' False ?h = (FINISHED, h')"
    by (cases "export_multiple_animations example_source ''unit'' BIN ''p'' False ?h") auto
  let ?d = "descriptor ''unit'' 1 [''b''] st"
  have "files h' = (files ?h)
          (RawPath (MultiBase ''unit'') \<mapsto> Binary (concat (all_matrix_data st)),
           JsPath (MultiBase ''unit'') \<mapsto>
             MultiJs (descriptor ''unit'' (length (pose_bones ?h)) (pose_bones ?h) st))"
    using multi_finished[OF x] a by auto
  then have w: "files h' (JsPath (MultiBase ''unit'')) = Some (MultiJs ?d)"
    by (simp add: pb)
  have "animation_helpers st = records 0 (layout ''unit'' False ?h)"
    using assemble_Inr[OF a] by blast
  then have ah: "animation_helpers st =
      [\<lparr>helper_name = ''unitRest'', start_idx = 0, end_idx = 0\<rparr>,
       \<lparr>helper_name = ''A_To'', start_idx = 1, end_idx = 3\<rparr>,
       \<lparr>helper_name = ''B'', start_idx = 4, end_idx = 5\<rparr>,
       \<lparr>helper_name = ''A_To_To_B'', start_idx = 6, end_idx = 15\<rparr>,
       \<lparr>helper_name = ''B_To_A_To'', start_idx = 16, end_idx = 25\<rparr>]"
    by (simp add: example_split_layout)
  have tc: "transition_calls ?d =
      [\<lparr>helper_name = ''A_To_To_B'', start_idx = 6, end_idx = 15\<rparr>,
       \<lparr>helper_name = ''B_To_A_To'', start_idx = 16, end_idx = 25\<rparr>]"
    unfolding descriptor_fields ah by (simp add: example_split_classes)
  have c1: "animationNames ?d = [''unitRest'', ''A_To'', ''B'', ''A_To_To_B'', ''B_To_A_To'']"
    unfolding descriptor_fields ah by simp
  have c2: "map helper_name (main_calls ?d) = [''unitRest'', ''A_To'', ''B'']"
    unfolding descriptor_fields ah by (simp add: example_split_classes)
  have c3: "map helper_name (transition_calls ?d) = [''A_To_To_B'', ''B_To_A_To'']"
    unfolding tc by simp
  have c4: "py_split (py_replace ''A_To_To_B'' (''unit'' @ ''_'') []) ''_To_'' = [''A'', ''To_B'']"
    by code_simp
  have c5: "py_split (py_replace ''B_To_A_To'' (''unit'' @ ''_'') []) ''_To_'' = [''B'', ''A_To'']"
    by code_simp
  have c6: "build_trans_map ''unit'' (transition_calls ?d) =
          [(''A'', [(''To_B'', ''A_To_To_B'')]), (''B'', [(''A_To'', ''B_To_A_To'')])]"
    unfolding tc by (rule example_split_map)
  have c7: "map_of (build_trans_map ''unit'' (transition_calls ?d)) ''A_To'' = None"
    unfolding c6 by simp
  have c8: "adjacency_calls ?d = [(''B'', [(''A_To'', ''B_To_A_To'')])]"
    unfolding descriptor_fields(4) ah
    by (simp add: example_split_classes example_split_map)
  show ?thesis
    apply (rule exI[of _ h'], rule exI[of _ ?d])
    by (intro conjI x w example_split_included example_split_pairs example_split_names(1)
          example_names(2) c1 c2 c3 c4 c5 c6 c7 c8)
qed

end
